(* ===== verification/Prelude.thy ===== *)
theory Prelude
  imports Main "HOL-Library.Word"
begin

text \<open>
  Shared vocabulary of the Umay development.

  \<^item> Rust's machine integers as words of their width, and the two build profiles under which
    overflow of \<open>+\<close> differs: a debug build panics, a release build wraps.
  \<^item> \<open>outcome\<close>: what a call of the program gives back. \<open>Ok\<close> and \<open>Err\<close> are the two
    constructors of \<open>eyre::Result\<close>; \<open>Panic\<close> is a Rust panic (\<open>todo!()\<close>, \<open>expect\<close>,
    arithmetic overflow in a debug build), which no \<open>?\<close> catches.
  \<^item> \<open>and_then\<close> is the \<open>?\<close> operator, \<open>wrap_err\<close> is eyre's method of that name,
    \<open>try_map\<close> and \<open>try_fold\<close> are the \<open>for\<close> loops whose body may return early.
  \<^item> Generic lemmas on lists used by several components.
\<close>

section \<open>Machine integers\<close>

type_synonym u8 = "8 word"
type_synonym u16 = "16 word"
type_synonym u32 = "32 word"
type_synonym u64 = "64 word"
type_synonym usize = "64 word"

datatype build_profile = Debug | Release

section \<open>Results\<close>

text \<open>
  The errors of the program: its own messages, the errors of the standard library it relies on,
  and reports produced by a library it calls, whose text is left open.
\<close>

datatype error =
    Msg string
  | Addr_Parse string
  | Utf8_Error
  | Io_Error string
  | Foreign string
  | Context string error

datatype 'a outcome = Ok 'a | Err error | Panic string

named_theorems try_simps \<open>when a chain of fallible calls gives a particular outcome\<close>

fun and_then :: "'a outcome \<Rightarrow> ('a \<Rightarrow> 'b outcome) \<Rightarrow> 'b outcome" where
  "and_then (Ok x) f = f x"
| "and_then (Err e) f = Err e"
| "and_then (Panic p) f = Panic p"

fun wrap_err :: "string \<Rightarrow> 'a outcome \<Rightarrow> 'a outcome" where
  "wrap_err msg (Ok x) = Ok x"
| "wrap_err msg (Err e) = Err (Context msg e)"
| "wrap_err msg (Panic p) = Panic p"

fun ok_or :: "error \<Rightarrow> 'a option \<Rightarrow> 'a outcome" where
  "ok_or e None = Err e"
| "ok_or e (Some x) = Ok x"

definition is_ok :: "'a outcome \<Rightarrow> bool" where
  "is_ok r = (case r of Ok _ \<Rightarrow> True | _ \<Rightarrow> False)"

definition is_panic :: "'a outcome \<Rightarrow> bool" where
  "is_panic r = (case r of Panic _ \<Rightarrow> True | _ \<Rightarrow> False)"

lemma and_then_eq_Ok [try_simps]:
  "and_then m f = Ok y \<longleftrightarrow> (\<exists>x. m = Ok x \<and> f x = Ok y)"
  by (cases m) auto

lemma and_then_eq_Err [try_simps]:
  "and_then m f = Err e \<longleftrightarrow> m = Err e \<or> (\<exists>x. m = Ok x \<and> f x = Err e)"
  by (cases m) auto

lemma and_then_eq_Panic [try_simps]:
  "and_then m f = Panic p \<longleftrightarrow> m = Panic p \<or> (\<exists>x. m = Ok x \<and> f x = Panic p)"
  by (cases m) auto

lemma and_then_assoc: "and_then (and_then m f) g = and_then m (\<lambda>x. and_then (f x) g)"
  by (cases m) auto

lemma and_then_Ok [simp]: "and_then m Ok = m"
  by (cases m) auto

lemma wrap_err_eq_Ok [try_simps]: "wrap_err msg m = Ok x \<longleftrightarrow> m = Ok x"
  by (cases m) auto

lemma wrap_err_eq_Err [try_simps]: "wrap_err msg m = Err e \<longleftrightarrow> (\<exists>e'. m = Err e' \<and> e = Context msg e')"
  by (cases m) auto

lemma wrap_err_eq_Panic [try_simps]: "wrap_err msg m = Panic p \<longleftrightarrow> m = Panic p"
  by (cases m) auto

lemma ok_or_eq_Ok [try_simps]: "ok_or e m = Ok x \<longleftrightarrow> m = Some x"
  by (cases m) auto

lemma ok_or_eq_Err [try_simps]: "ok_or e m = Err e' \<longleftrightarrow> m = None \<and> e' = e"
  by (cases m) auto

lemma ok_or_not_Panic [try_simps]: "ok_or e m \<noteq> Panic p"
  by (cases m) auto

lemma is_ok_simps [simp]: "is_ok (Ok x)" "\<not> is_ok (Err e)" "\<not> is_ok (Panic p)"
  by (simp_all add: is_ok_def)

lemma is_panic_simps [simp]: "\<not> is_panic (Ok x)" "\<not> is_panic (Err e)" "is_panic (Panic p)"
  by (simp_all add: is_panic_def)

lemma is_ok_iff: "is_ok r \<longleftrightarrow> (\<exists>x. r = Ok x)"
  by (cases r) auto

lemma is_panic_iff: "is_panic r \<longleftrightarrow> (\<exists>p. r = Panic p)"
  by (cases r) auto

section \<open>Loops that may return early\<close>

fun try_map :: "('a \<Rightarrow> 'b outcome) \<Rightarrow> 'a list \<Rightarrow> 'b list outcome" where
  "try_map f [] = Ok []"
| "try_map f (x # xs) = and_then (f x) (\<lambda>y. and_then (try_map f xs) (\<lambda>ys. Ok (y # ys)))"

fun try_fold :: "('s \<Rightarrow> 'a \<Rightarrow> 's outcome) \<Rightarrow> 's \<Rightarrow> 'a list \<Rightarrow> 's outcome" where
  "try_fold f s [] = Ok s"
| "try_fold f s (x # xs) = and_then (f s x) (\<lambda>s'. try_fold f s' xs)"

lemma try_map_eq_Ok: "try_map f xs = Ok ys \<longleftrightarrow> list_all2 (\<lambda>x y. f x = Ok y) xs ys"
proof (induction xs arbitrary: ys)
  case Nil
  then show ?case by auto
next
  case (Cons x xs)
  then show ?case by (cases ys) (auto simp: and_then_eq_Ok)
qed

lemma try_map_eq_Err_iff:
  "try_map f xs = Err e \<longleftrightarrow>
     (\<exists>us x vs. xs = us @ x # vs \<and> (\<forall>u\<in>set us. is_ok (f u)) \<and> f x = Err e)"
proof (induction xs)
  case Nil
  then show ?case by simp
next
  case (Cons x xs)
  show ?case
  proof (cases "f x")
    case (Ok y)
    have "try_map f (x # xs) = Err e \<longleftrightarrow> try_map f xs = Err e"
      using Ok by (cases "try_map f xs") auto
    also have "\<dots> \<longleftrightarrow> (\<exists>us z vs. x # xs = us @ z # vs \<and> (\<forall>u\<in>set us. is_ok (f u)) \<and> f z = Err e)"
      (is "?L \<longleftrightarrow> ?R")
    proof
      assume ?L
      then obtain us z vs where "xs = us @ z # vs" "\<forall>u\<in>set us. is_ok (f u)" "f z = Err e"
        unfolding Cons.IH by blast
      then show ?R using Ok by (intro exI [of _ "x # us"]) auto
    next
      assume ?R
      then obtain us z vs where r: "x # xs = us @ z # vs" "\<forall>u\<in>set us. is_ok (f u)" "f z = Err e"
        by blast
      with Ok obtain us' where "us = x # us'" by (cases us) auto
      with r show ?L unfolding Cons.IH by auto
    qed
    finally show ?thesis .
  next
    case (Err e')
    then show ?thesis by (fastforce simp: Cons_eq_append_conv)
  qed (auto simp: Cons_eq_append_conv)
qed

lemma try_map_stops_Panic:
  "try_map f pre = Ok built \<Longrightarrow> f x = Panic p \<Longrightarrow> try_map f (pre @ x # rest) = Panic p"
  by (induction pre arbitrary: built) (auto simp: and_then_eq_Ok)

lemma try_map_cong: "(\<And>x. x \<in> set xs \<Longrightarrow> f x = g x) \<Longrightarrow> try_map f xs = try_map g xs"
  by (induction xs) auto

lemma try_map_Ok_map: "(\<And>x. x \<in> set xs \<Longrightarrow> f x = Ok (g x)) \<Longrightarrow> try_map f xs = Ok (map g xs)"
  by (induction xs) auto

lemma try_map_Ok_length: "try_map f xs = Ok ys \<Longrightarrow> length ys = length xs"
  by (auto simp: try_map_eq_Ok dest: list_all2_lengthD)

lemma try_map_succeeds: "(\<exists>ys. try_map f xs = Ok ys) \<longleftrightarrow> list_all (\<lambda>x. \<exists>y. f x = Ok y) xs"
  by (induction xs) (auto simp: try_simps)

text \<open>A loop that pushes the result of each turn on a vector is \<open>try_map\<close>.\<close>

lemma try_fold_push:
  "try_fold (\<lambda>acc x. and_then (f x) (\<lambda>y. Ok (acc @ [y]))) acc xs
     = and_then (try_map f xs) (\<lambda>ys. Ok (acc @ ys))"
proof (induction xs arbitrary: acc)
  case Nil
  then show ?case by simp
next
  case (Cons x xs)
  then show ?case by (cases "f x"; cases "try_map f xs") auto
qed

text \<open>A loop that folds the result of each turn into an accumulator.\<close>

lemma try_fold_foldl:
  "try_fold (\<lambda>s x. and_then (f x) (\<lambda>y. Ok (g s y))) s xs
     = and_then (try_map f xs) (\<lambda>ys. Ok (foldl g s ys))"
proof (induction xs arbitrary: s)
  case Nil
  then show ?case by simp
next
  case (Cons x xs)
  then show ?case by (cases "f x"; cases "try_map f xs") auto
qed

section \<open>Checked arithmetic\<close>

text \<open>\<open>a + b\<close> on \<open>usize\<close>: a debug build panics on overflow, a release build wraps.\<close>

definition usize_add :: "build_profile \<Rightarrow> usize \<Rightarrow> usize \<Rightarrow> usize outcome" where
  "usize_add prof a b =
     (if unat a + unat b < 2 ^ 64 then Ok (a + b)
      else case prof of
        Debug \<Rightarrow> Panic ''attempt to add with overflow''
      | Release \<Rightarrow> Ok (a + b))"

text \<open>\<open>Iterator::sum\<close> on \<open>usize\<close>: additions from 0, left to right.\<close>

definition usize_sum :: "build_profile \<Rightarrow> usize list \<Rightarrow> usize outcome" where
  "usize_sum prof ws = try_fold (usize_add prof) 0 ws"

lemma usize_add_fits: "unat a + unat b < 2 ^ 64 \<Longrightarrow> usize_add prof a b = Ok (a + b)"
  by (simp add: usize_add_def)

lemma unat_add_fits: "unat (a :: usize) + unat b < 2 ^ 64 \<Longrightarrow> unat (a + b) = unat a + unat b"
  by (simp add: unat_add_lem [symmetric])

lemma unat_usize: "unat (a :: usize) < 2 ^ 64"
  using unsigned_less [of a] by simp

lemma usize_fold_fits:
  "unat a + sum_list (map unat ws) < 2 ^ 64 \<Longrightarrow>
     \<exists>t. try_fold (usize_add prof) a ws = Ok t \<and> unat t = unat a + sum_list (map unat ws)"
proof (induction ws arbitrary: a)
  case Nil
  then show ?case by simp
next
  case (Cons w ws)
  have fits: "unat a + unat w < 2 ^ 64" using Cons.prems by simp
  then show ?case
    using Cons.IH [of "a + w"] Cons.prems
    by (simp add: usize_add_fits unat_add_fits add.assoc)
qed

lemma usize_sum_fits:
  assumes "sum_list (map unat ws) < 2 ^ 64"
  shows "\<exists>t. usize_sum prof ws = Ok t \<and> unat t = sum_list (map unat ws)"
  using usize_fold_fits [of 0 ws prof] assms by (simp add: usize_sum_def)

lemma unat_of_nat_usize: "n < 2 ^ 64 \<Longrightarrow> unat (of_nat n :: usize) = n"
  by (simp add: unat_of_nat take_bit_nat_eq_self)

text \<open>The sum in both builds, whatever its size.\<close>

lemma usize_fold_release: "try_fold (usize_add Release) a ws = Ok (a + sum_list ws)"
  by (induction ws arbitrary: a) (simp_all add: usize_add_def add.assoc)

lemma usize_fold_debug:
  "try_fold (usize_add Debug) a ws =
     (if unat a + sum_list (map unat ws) < 2 ^ 64 then Ok (a + sum_list ws)
      else Panic ''attempt to add with overflow'')"
proof (induction ws arbitrary: a)
  case Nil
  then show ?case using unat_usize [of a] by simp
next
  case (Cons w ws)
  show ?case
  proof (cases "unat a + unat w < 2 ^ 64")
    case True
    then show ?thesis
      by (simp add: Cons.IH usize_add_fits unat_add_fits add.assoc)
  next
    case False
    then show ?thesis by (simp add: usize_add_def)
  qed
qed

lemma usize_sum_eq:
  "usize_sum prof ws =
     (if prof = Debug \<and> 2 ^ 64 \<le> sum_list (map unat ws) then Panic ''attempt to add with overflow''
      else Ok (sum_list ws))"
  by (cases prof) (simp_all add: usize_sum_def usize_fold_release usize_fold_debug)

lemma unat_sum_list: "unat (sum_list ws) = sum_list (map unat ws) mod 2 ^ 64" for ws :: "usize list"
  by (induction ws) (simp_all add: unat_word_ariths mod_add_right_eq)

section \<open>Lists\<close>

text \<open>\<open>Iterator::nth\<close>: \<open>None\<close> past the end.\<close>

definition nth_opt :: "'a list \<Rightarrow> nat \<Rightarrow> 'a option" where
  "nth_opt xs i = (if i < length xs then Some (xs ! i) else None)"

lemma nth_opt_Some_iff [simp]: "nth_opt xs i = Some x \<longleftrightarrow> i < length xs \<and> xs ! i = x"
  by (auto simp: nth_opt_def)

lemma nth_opt_mem: "nth_opt xs i = Some x \<Longrightarrow> x \<in> set xs"
  by auto

text \<open>The elements at the indices \<open>s, s + 1, ..., s + n - 1\<close> modulo \<open>n\<close> are a rotation.\<close>

lemma map_nth_mod_rotate:
  assumes "0 < length xs"
  shows "map (\<lambda>j. xs ! ((s + j) mod length xs)) [0..<length xs] = rotate s xs"
  by (rule nth_equalityI) (simp_all add: nth_rotate)

lemma count_list_rotate [simp]: "count_list (rotate n xs) x = count_list xs x"
proof -
  have rot1: "count_list (rotate1 ys) x = count_list ys x" for ys
    by (cases ys) auto
  show ?thesis by (induction n) (simp_all add: rot1)
qed

lemma count_list_distinct: "distinct xs \<Longrightarrow> x \<in> set xs \<Longrightarrow> count_list xs x = 1"
  by (induction xs) (auto simp: count_list_0_iff)

text \<open>Walking round a list \<open>k\<close> times visits each element \<open>k\<close> times as often as it occurs.\<close>

lemma count_list_cyclic:
  assumes "0 < length xs"
  shows "count_list (map (\<lambda>j. xs ! ((s + j) mod length xs)) [0..<k * length xs]) x
           = k * count_list xs x"
proof (induction k)
  case 0
  then show ?case by simp
next
  case (Suc k)
  let ?n = "length xs"
  let ?f = "\<lambda>j. xs ! ((s + j) mod ?n)"
  have "[0..<Suc k * ?n] = [0..<k * ?n] @ map (\<lambda>j. j + k * ?n) [0..<?n]"
    using upt_add_eq_append [of 0 "k * ?n" ?n] by (simp add: map_add_upt add.commute)
  moreover have "map ?f (map (\<lambda>j. j + k * ?n) [0..<?n]) = map ?f [0..<?n]"
    by (simp add: add.assoc [symmetric])
  ultimately have "map ?f [0..<Suc k * ?n] = map ?f [0..<k * ?n] @ rotate s xs"
    using map_nth_mod_rotate [OF assms] by simp
  then show ?case using Suc by simp
qed

lemma map_option_of_pairs [simp]: "map_of (map (\<lambda>x. (f x, g x)) xs) k = None \<longleftrightarrow> k \<notin> f ` set xs"
  by (induction xs) auto

end
