(* ===== verification/Net_Addr.thy ===== *)
theory Net_Addr
  imports Prelude "HOL-Library.List_Lexorder"
begin

text \<open>
  The part of Rust's \<open>std::net\<close> the program uses: addresses, their derived order (the order of
  every \<open>BTreeSet\<close> and \<open>BTreeMap\<close> of the balancer), the parser behind \<open>str::parse\<close>
  for \<open>IpAddr\<close> and \<open>SocketAddr\<close> (\<open>UpstreamServer::to_socket_addrs\<close>,
  \<open>DnsConfig::into_resolver_config\<close>), the printer behind \<open>format!\<close> (the WebSocket URL and the
  listening address), and \<open>Ipv6Addr::to_ipv4_mapped\<close>. Rust strings are their UTF-8 bytes.
\<close>

section \<open>Addresses\<close>

datatype ipv4_addr = Ipv4Addr u8 u8 u8 u8

datatype ipv6_addr = Ipv6Addr u16 u16 u16 u16 u16 u16 u16 u16

datatype ip_addr = V4 ipv4_addr | V6 ipv6_addr

text \<open>\<open>SocketAddrV6\<close> also carries a flow label and a scope id.\<close>

datatype socket_addr = SocketV4 ipv4_addr u16 | SocketV6 ipv6_addr u16 u32 u32

text \<open>\<open>SocketAddr::new(ip, port)\<close>, \<open>SocketAddr::ip\<close>, \<open>SocketAddr::port\<close>.\<close>

fun socket_new :: "ip_addr \<Rightarrow> u16 \<Rightarrow> socket_addr" where
  "socket_new (V4 a) p = SocketV4 a p"
| "socket_new (V6 a) p = SocketV6 a p 0 0"

fun socket_ip :: "socket_addr \<Rightarrow> ip_addr" where
  "socket_ip (SocketV4 a p) = V4 a"
| "socket_ip (SocketV6 a p fl sc) = V6 a"

fun socket_port :: "socket_addr \<Rightarrow> u16" where
  "socket_port (SocketV4 a p) = p"
| "socket_port (SocketV6 a p fl sc) = p"

lemma socket_ip_new [simp]: "socket_ip (socket_new ip p) = ip"
  by (cases ip) auto

lemma socket_port_new [simp]: "socket_port (socket_new ip p) = p"
  by (cases ip) auto

lemma socket_new_inject [simp]: "socket_new ip p = socket_new ip' p' \<longleftrightarrow> ip = ip' \<and> p = p'"
  by (cases ip; cases ip') auto

section \<open>The derived order\<close>

text \<open>
  \<open>#[derive(Ord)]\<close> compares the variant first and then the fields in order, each array of
  octets or segments lexicographically. The sequence of these numbers, compared as a list,
  is the same order.
\<close>

fun ipv4_key :: "ipv4_addr \<Rightarrow> nat list" where
  "ipv4_key (Ipv4Addr a b c d) = [unat a, unat b, unat c, unat d]"

fun ipv6_key :: "ipv6_addr \<Rightarrow> nat list" where
  "ipv6_key (Ipv6Addr a b c d e f g h) =
     [unat a, unat b, unat c, unat d, unat e, unat f, unat g, unat h]"

fun socket_key :: "socket_addr \<Rightarrow> nat list" where
  "socket_key (SocketV4 a p) = 0 # ipv4_key a @ [unat p]"
| "socket_key (SocketV6 a p fl sc) = 1 # ipv6_key a @ [unat p, unat fl, unat sc]"

lemma ipv4_key_inject [simp]: "ipv4_key a = ipv4_key b \<longleftrightarrow> a = b"
  by (cases a; cases b) (auto simp: word_unat_eq_iff)

lemma ipv6_key_inject [simp]: "ipv6_key a = ipv6_key b \<longleftrightarrow> a = b"
  by (cases a; cases b) (auto simp: word_unat_eq_iff)

lemma length_ipv4_key [simp]: "length (ipv4_key a) = 4"
  by (cases a) auto

lemma length_ipv6_key [simp]: "length (ipv6_key a) = 8"
  by (cases a) auto

lemma socket_key_inject [simp]: "socket_key a = socket_key b \<longleftrightarrow> a = b"
  by (cases a; cases b) (auto simp: word_unat_eq_iff)

instantiation socket_addr :: linorder
begin

definition less_eq_socket_addr :: "socket_addr \<Rightarrow> socket_addr \<Rightarrow> bool" where
  "less_eq_socket_addr a b = (socket_key a \<le> socket_key b)"

definition less_socket_addr :: "socket_addr \<Rightarrow> socket_addr \<Rightarrow> bool" where
  "less_socket_addr a b = (socket_key a < socket_key b)"

instance
  by standard (auto simp: less_eq_socket_addr_def less_socket_addr_def dest: antisym)

end

lemma socket_v4_before_v6: "SocketV4 a p < SocketV6 b q fl sc"
  by (simp add: less_socket_addr_def)

section \<open>Parsing\<close>

text \<open>
  A parser takes the remaining bytes and gives a value with what is left, or \<open>None\<close> with
  the position restored (\<open>read_atomically\<close>).
\<close>

type_synonym 'a parser = "string \<Rightarrow> ('a \<times> string) option"

definition char_code :: "char \<Rightarrow> nat" where
  "char_code c = of_char c"

text \<open>\<open>char::to_digit\<close>\<close>

definition to_digit :: "nat \<Rightarrow> char \<Rightarrow> nat option" where
  "to_digit radix c =
     (let n = char_code c;
          d = (if 48 \<le> n \<and> n \<le> 57 then n - 48
               else if 97 \<le> n \<and> n \<le> 122 then n - 87
               else if 65 \<le> n \<and> n \<le> 90 then n - 55 else 36)
      in if d < radix then Some d else None)"

text \<open>
  \<open>read_number\<close> with a digit limit: digits are taken greedily, one more than \<open>max_digits\<close>
  fails, as does a leading zero where it is not allowed, and a value out of range.
\<close>

fun read_digits :: "nat \<Rightarrow> nat \<Rightarrow> nat \<Rightarrow> nat \<Rightarrow> string \<Rightarrow> (nat \<times> nat \<times> string) option" where
  "read_digits radix mx acc n [] = Some (acc, n, [])"
| "read_digits radix mx acc n (c # cs) =
     (case to_digit radix c of
        None \<Rightarrow> Some (acc, n, c # cs)
      | Some d \<Rightarrow> if Suc n > mx then None else read_digits radix mx (acc * radix + d) (Suc n) cs)"

definition read_number :: "nat \<Rightarrow> nat \<Rightarrow> bool \<Rightarrow> nat \<Rightarrow> nat parser" where
  "read_number radix mx zero_prefix bound cs =
     (case read_digits radix mx 0 0 cs of
        None \<Rightarrow> None
      | Some (v, n, rest) \<Rightarrow>
          if n = 0 then None
          else if \<not> zero_prefix \<and> hd cs = CHR ''0'' \<and> 1 < n then None
          else if v < bound then Some (v, rest) else None)"

text \<open>\<open>read_number\<close> without a limit uses checked arithmetic and fails at the first overflow.\<close>

fun read_checked :: "nat \<Rightarrow> nat \<Rightarrow> nat \<Rightarrow> nat \<Rightarrow> string \<Rightarrow> (nat \<times> nat \<times> string) option" where
  "read_checked radix bound acc n [] = Some (acc, n, [])"
| "read_checked radix bound acc n (c # cs) =
     (case to_digit radix c of
        None \<Rightarrow> Some (acc, n, c # cs)
      | Some d \<Rightarrow> if acc * radix + d < bound
                  then read_checked radix bound (acc * radix + d) (Suc n) cs else None)"

definition read_unlimited :: "nat \<Rightarrow> nat \<Rightarrow> nat parser" where
  "read_unlimited radix bound cs =
     (case read_checked radix bound 0 0 cs of
        None \<Rightarrow> None
      | Some (v, n, rest) \<Rightarrow> if n = 0 then None else Some (v, rest))"

fun read_given_char :: "char \<Rightarrow> unit parser" where
  "read_given_char t [] = None"
| "read_given_char t (c # cs) = (if c = t then Some ((), cs) else None)"

definition read_separator :: "char \<Rightarrow> nat \<Rightarrow> 'a parser \<Rightarrow> 'a parser" where
  "read_separator sep i p cs =
     (if 0 < i then (case read_given_char sep cs of None \<Rightarrow> None | Some (_, cs') \<Rightarrow> p cs')
      else p cs)"

abbreviation read_octet :: "nat parser" where
  "read_octet \<equiv> read_number 10 3 False 256"

abbreviation read_segment :: "nat parser" where
  "read_segment \<equiv> read_number 16 4 True 65536"

definition read_ipv4_addr :: "ipv4_addr parser" where
  "read_ipv4_addr cs =
     (case read_separator CHR ''.'' 0 read_octet cs of None \<Rightarrow> None | Some (a, cs) \<Rightarrow>
      case read_separator CHR ''.'' 1 read_octet cs of None \<Rightarrow> None | Some (b, cs) \<Rightarrow>
      case read_separator CHR ''.'' 2 read_octet cs of None \<Rightarrow> None | Some (c, cs) \<Rightarrow>
      case read_separator CHR ''.'' 3 read_octet cs of None \<Rightarrow> None | Some (d, cs) \<Rightarrow>
        Some (Ipv4Addr (of_nat a) (of_nat b) (of_nat c) (of_nat d), cs))"

definition ipv4_pair :: "u8 \<Rightarrow> u8 \<Rightarrow> u16" where
  "ipv4_pair hi lo = of_nat (unat hi * 256 + unat lo)"

text \<open>
  \<open>read_groups\<close>: groups of the address from index \<open>i\<close> up to \<open>limit\<close>, with a trailing
  dotted IPv4 address where two groups are left. It never fails: it stops at the first group
  it cannot read, and says whether it read an IPv4 part.
\<close>

function read_groups :: "nat \<Rightarrow> nat \<Rightarrow> string \<Rightarrow> u16 list \<times> bool \<times> string" where
  "read_groups limit i cs =
     (if limit \<le> i then ([], False, cs)
      else
        case (if Suc i < limit then read_separator CHR '':'' i read_ipv4_addr cs else None) of
          Some (Ipv4Addr a b c d, cs') \<Rightarrow> ([ipv4_pair a b, ipv4_pair c d], True, cs')
        | None \<Rightarrow>
            (case read_separator CHR '':'' i read_segment cs of
               None \<Rightarrow> ([], False, cs)
             | Some (g, cs') \<Rightarrow>
                 (let (gs, v4, rest) = read_groups limit (Suc i) cs' in (of_nat g # gs, v4, rest))))"
  by pat_completeness auto
termination
  by (relation "measure (\<lambda>(limit, i, cs). limit - i)") auto

declare read_groups.simps [simp del]

fun ipv6_of_list :: "u16 list \<Rightarrow> ipv6_addr option" where
  "ipv6_of_list [a, b, c, d, e, f, g, h] = Some (Ipv6Addr a b c d e f g h)"
| "ipv6_of_list gs = None"

definition read_ipv6_addr :: "ipv6_addr parser" where
  "read_ipv6_addr cs =
     (let (hd_groups, hd_ipv4, cs1) = read_groups 8 0 cs in
      if length hd_groups = 8 then map_option (\<lambda>a. (a, cs1)) (ipv6_of_list hd_groups)
      else if hd_ipv4 then None
      else case read_given_char CHR '':'' cs1 of None \<Rightarrow> None | Some (_, cs2) \<Rightarrow>
           case read_given_char CHR '':'' cs2 of None \<Rightarrow> None | Some (_, cs3) \<Rightarrow>
             (let (tl_groups, _, cs4) = read_groups (7 - length hd_groups) 0 cs3 in
              map_option (\<lambda>a. (a, cs4))
                (ipv6_of_list (hd_groups
                   @ replicate (8 - length hd_groups - length tl_groups) 0 @ tl_groups))))"

definition read_ip_addr :: "ip_addr parser" where
  "read_ip_addr cs =
     (case read_ipv4_addr cs of
        Some (a, rest) \<Rightarrow> Some (V4 a, rest)
      | None \<Rightarrow> map_option (\<lambda>(a, rest). (V6 a, rest)) (read_ipv6_addr cs))"

definition read_port :: "nat parser" where
  "read_port cs =
     (case read_given_char CHR '':'' cs of None \<Rightarrow> None
      | Some (_, cs) \<Rightarrow> read_unlimited 10 65536 cs)"

definition read_scope_id :: "nat parser" where
  "read_scope_id cs =
     (case read_given_char (CHR 0x25) cs of None \<Rightarrow> None
      | Some (_, cs) \<Rightarrow> read_unlimited 10 (2 ^ 32) cs)"

definition read_socket_addr_v4 :: "socket_addr parser" where
  "read_socket_addr_v4 cs =
     (case read_ipv4_addr cs of None \<Rightarrow> None | Some (a, cs) \<Rightarrow>
      case read_port cs of None \<Rightarrow> None | Some (p, cs) \<Rightarrow> Some (SocketV4 a (of_nat p), cs))"

definition read_socket_addr_v6 :: "socket_addr parser" where
  "read_socket_addr_v6 cs =
     (case read_given_char CHR ''['' cs of None \<Rightarrow> None | Some (_, cs) \<Rightarrow>
      case read_ipv6_addr cs of None \<Rightarrow> None | Some (a, cs) \<Rightarrow>
      let (sc, cs) = (case read_scope_id cs of None \<Rightarrow> (0, cs) | Some r \<Rightarrow> r) in
      case read_given_char CHR '']'' cs of None \<Rightarrow> None | Some (_, cs) \<Rightarrow>
      case read_port cs of None \<Rightarrow> None
      | Some (p, cs) \<Rightarrow> Some (SocketV6 a (of_nat p) 0 (of_nat sc), cs))"

definition read_socket_addr :: "socket_addr parser" where
  "read_socket_addr cs =
     (case read_socket_addr_v4 cs of Some r \<Rightarrow> Some r | None \<Rightarrow> read_socket_addr_v6 cs)"

text \<open>\<open>parse_with\<close>: the whole input must be consumed.\<close>

definition parse_with :: "'a parser \<Rightarrow> string \<Rightarrow> string \<Rightarrow> 'a outcome" where
  "parse_with p kind cs =
     (case p cs of Some (x, []) \<Rightarrow> Ok x | _ \<Rightarrow> Err (Addr_Parse kind))"

definition parse_ip_addr :: "string \<Rightarrow> ip_addr outcome" where
  "parse_ip_addr = parse_with read_ip_addr ''invalid IP address syntax''"

definition parse_socket_addr :: "string \<Rightarrow> socket_addr outcome" where
  "parse_socket_addr = parse_with read_socket_addr ''invalid socket address syntax''"

lemma parse_with_not_Panic [simp]: "parse_with p kind cs \<noteq> Panic m"
  by (auto simp: parse_with_def split: option.splits list.splits)

lemma parse_ip_addr_not_Panic [simp]: "parse_ip_addr cs \<noteq> Panic m"
  by (simp add: parse_ip_addr_def)

lemma parse_socket_addr_not_Panic [simp]: "parse_socket_addr cs \<noteq> Panic m"
  by (simp add: parse_socket_addr_def)

end
