(* ===== verification/Ordered_Set.thy ===== *)
theory Ordered_Set
  imports Prelude
begin

text \<open>
  \<open>BTreeSet\<close> of the standard library, as the sequence of its elements in iteration order:
  a strictly ascending list. \<open>ordered_set\<close> is the interface the balancer relies on, with what
  follows from its laws; the interpretation \<open>bts\<close> discharges them for the lists.
  \<open>BTreeMap\<close> lookups need no order and are maps; \<open>Iterator::min_by_key\<close> is at the end.
\<close>

section \<open>The interface\<close>

locale ordered_set =
  fixes empty :: "'s"
    and insert :: "'a::linorder \<Rightarrow> 's \<Rightarrow> 's"
    and retain :: "('a \<Rightarrow> bool) \<Rightarrow> 's \<Rightarrow> 's"
    and iter :: "'s \<Rightarrow> 'a list"
    and ok :: "'s \<Rightarrow> bool"
  assumes ok_empty: "ok empty"
    and ok_insert: "ok s \<Longrightarrow> ok (insert x s)"
    and ok_retain: "ok s \<Longrightarrow> ok (retain p s)"
    and iter_ascending: "ok s \<Longrightarrow> sorted_wrt (<) (iter s)"
    and iter_empty: "iter empty = []"
    and iter_insert: "ok s \<Longrightarrow> set (iter (insert x s)) = Set.insert x (set (iter s))"
    and iter_retain: "ok s \<Longrightarrow> set (iter (retain p s)) = {x \<in> set (iter s). p x}"
begin

lemma distinct_iter: "ok s \<Longrightarrow> distinct (iter s)"
  using iter_ascending [of s] by (simp add: strict_sorted_iff)

lemma iter_eqI:
  assumes "ok s" "ok t" "set (iter s) = set (iter t)"
  shows "iter s = iter t"
  using assms iter_ascending by (metis strict_sorted_equal)

lemma ok_fold_insert: "ok s \<Longrightarrow> ok (fold insert xs s)"
  by (induction xs arbitrary: s) (auto simp: ok_insert)

lemma iter_fold_insert: "ok s \<Longrightarrow> set (iter (fold insert xs s)) = set xs \<union> set (iter s)"
  by (induction xs arbitrary: s) (auto simp: ok_insert iter_insert)

lemma insert_present: "ok s \<Longrightarrow> x \<in> set (iter s) \<Longrightarrow> iter (insert x s) = iter s"
  by (rule iter_eqI) (auto simp: ok_insert iter_insert)

lemma insert_commute: "ok s \<Longrightarrow> iter (insert x (insert y s)) = iter (insert y (insert x s))"
  by (rule iter_eqI) (auto simp: ok_insert iter_insert)

lemma retain_insert_absent:
  assumes "ok s" "\<not> p x" "\<And>y. y \<in> set (iter s) \<Longrightarrow> p y"
  shows "iter (retain p (insert x s)) = iter s"
  using assms by (intro iter_eqI) (auto simp: ok_insert ok_retain iter_insert iter_retain)

lemma length_iter: "ok s \<Longrightarrow> length (iter s) = card (set (iter s))"
  by (simp add: distinct_iter distinct_card)

lemma collect_order_irrelevant:
  "set xs = set ys \<Longrightarrow> iter (fold insert xs empty) = iter (fold insert ys empty)"
  by (rule iter_eqI) (auto simp: ok_empty ok_fold_insert iter_fold_insert)

end

section \<open>Ascending lists\<close>

type_synonym 'a btree_set = "'a list"

definition bt_ok :: "'a::linorder btree_set \<Rightarrow> bool" where
  "bt_ok xs = sorted_wrt (<) xs"

fun bt_insert :: "'a::linorder \<Rightarrow> 'a btree_set \<Rightarrow> 'a btree_set" where
  "bt_insert x [] = [x]"
| "bt_insert x (y # ys) =
     (if x < y then x # y # ys else if y < x then y # bt_insert x ys else y # ys)"

definition bt_retain :: "('a \<Rightarrow> bool) \<Rightarrow> 'a btree_set \<Rightarrow> 'a btree_set" where
  "bt_retain p xs = filter p xs"

definition bt_collect :: "'a::linorder list \<Rightarrow> 'a btree_set" where
  "bt_collect xs = fold bt_insert xs []"

lemma set_bt_insert [simp]: "set (bt_insert x xs) = insert x (set xs)"
proof (induction xs)
  case Nil
  then show ?case by simp
next
  case (Cons y ys)
  then show ?case by (cases x y rule: linorder_cases) auto
qed

lemma bt_ok_insert [intro]: "bt_ok xs \<Longrightarrow> bt_ok (bt_insert x xs)"
  unfolding bt_ok_def by (induction xs) auto

lemma bt_ok_Nil [simp]: "bt_ok []"
  by (simp add: bt_ok_def)

interpretation bts: ordered_set "[]" bt_insert bt_retain "\<lambda>xs. xs" bt_ok
  by unfold_locales (auto simp: bt_ok_def bt_retain_def sorted_wrt_filter
      intro: bt_ok_insert [unfolded bt_ok_def])

lemma bt_ok_collect [simp]: "bt_ok (bt_collect xs)"
  by (simp add: bt_collect_def bts.ok_fold_insert)

lemma set_bt_collect [simp]: "set (bt_collect xs) = set xs"
  using bts.iter_fold_insert [of "[]" xs] by (simp add: bt_collect_def)

lemma bt_collect_eq_Nil [simp]: "bt_collect xs = [] \<longleftrightarrow> xs = []"
  by (metis set_bt_collect set_empty)

lemma bt_ok_retain [intro]: "bt_ok xs \<Longrightarrow> bt_ok (bt_retain p xs)"
  by (rule bts.ok_retain)

lemma set_bt_retain [simp]: "set (bt_retain p xs) = {x \<in> set xs. p x}"
  by (auto simp: bt_retain_def)

lemma bt_ok_distinct [dest]: "bt_ok xs \<Longrightarrow> distinct xs"
  by (rule bts.distinct_iter)

lemma bt_ok_least: "bt_ok (x # xs) \<Longrightarrow> y \<in> set (x # xs) \<Longrightarrow> x \<le> y"
  by (auto simp: bt_ok_def)

section \<open>Minimum by key\<close>

text \<open>\<open>Iterator::min_by_key\<close> returns the first of the elements with the least key.\<close>

fun min_from :: "('a \<Rightarrow> 'k::linorder) \<Rightarrow> 'a \<Rightarrow> 'a list \<Rightarrow> 'a" where
  "min_from key m [] = m"
| "min_from key m (x # xs) = min_from key (if key x < key m then x else m) xs"

fun min_by_key :: "('a \<Rightarrow> 'k::linorder) \<Rightarrow> 'a list \<Rightarrow> 'a option" where
  "min_by_key key [] = None"
| "min_by_key key (x # xs) = Some (min_from key x xs)"

definition first_least :: "('a \<Rightarrow> 'k::linorder) \<Rightarrow> 'a list \<Rightarrow> 'a \<Rightarrow> bool" where
  "first_least key xs b \<longleftrightarrow>
     (\<exists>us vs. xs = us @ b # vs \<and> (\<forall>u\<in>set us. key b < key u) \<and> (\<forall>v\<in>set vs. key b \<le> key v))"

lemma first_least_Cons_less:
  "first_least key (x # xs) b \<Longrightarrow> key x < key m \<Longrightarrow> first_least key (m # x # xs) b"
  unfolding first_least_def
proof (elim exE conjE)
  fix us vs
  assume s: "x # xs = us @ b # vs" "\<forall>u\<in>set us. key b < key u" "\<forall>v\<in>set vs. key b \<le> key v"
    and "key x < key m"
  then have "key b < key m" by (cases us) (auto dest: less_trans)
  with s show "\<exists>us vs. m # x # xs = us @ b # vs \<and> (\<forall>u\<in>set us. key b < key u)
      \<and> (\<forall>v\<in>set vs. key b \<le> key v)"
    by (intro exI [of _ "m # us"] exI [of _ vs]) auto
qed

lemma first_least_Cons_skip:
  "first_least key (m # xs) b \<Longrightarrow> \<not> key x < key m \<Longrightarrow> first_least key (m # x # xs) b"
  unfolding first_least_def
proof (elim exE conjE)
  fix us vs
  assume s: "m # xs = us @ b # vs" "\<forall>u\<in>set us. key b < key u" "\<forall>v\<in>set vs. key b \<le> key v"
    and x: "\<not> key x < key m"
  show "\<exists>us vs. m # x # xs = us @ b # vs \<and> (\<forall>u\<in>set us. key b < key u)
      \<and> (\<forall>v\<in>set vs. key b \<le> key v)"
  proof (cases us)
    case Nil
    with s x show ?thesis by (intro exI [of _ "[]"] exI [of _ "x # vs"]) auto
  next
    case (Cons u us')
    with s x show ?thesis by (intro exI [of _ "m # x # us'"] exI [of _ vs]) auto
  qed
qed

lemma min_from_first_least: "first_least key (m # xs) (min_from key m xs)"
proof (induction xs arbitrary: m)
  case Nil
  show ?case unfolding first_least_def by (intro exI [of _ "[]"]) simp
next
  case (Cons x xs)
  then show ?case
    using first_least_Cons_less [OF Cons.IH] first_least_Cons_skip [OF Cons.IH] by simp
qed

lemma min_by_key_first_least: "min_by_key key xs = Some b \<Longrightarrow> first_least key xs b"
  using min_from_first_least by (cases xs) auto

lemma min_by_key_split:
  assumes "min_by_key key xs = Some b"
  obtains us vs where "xs = us @ b # vs" "\<forall>u\<in>set us. key b < key u" "\<forall>v\<in>set vs. key b \<le> key v"
  using min_by_key_first_least [OF assms] by (auto simp: first_least_def)

lemma min_by_key_mem: "min_by_key key xs = Some b \<Longrightarrow> b \<in> set xs"
  by (erule min_by_key_split) simp

lemma min_by_key_least: "min_by_key key xs = Some b \<Longrightarrow> x \<in> set xs \<Longrightarrow> key b \<le> key x"
  by (erule min_by_key_split) auto

lemma first_least_unique:
  assumes "first_least key xs b" "first_least key xs c"
  shows "b = c"
proof -
  obtain us vs where b: "xs = us @ b # vs" "\<forall>u\<in>set us. key b < key u" "\<forall>v\<in>set vs. key b \<le> key v"
    using assms(1) by (auto simp: first_least_def)
  obtain us' vs' where c: "xs = us' @ c # vs'" "\<forall>u\<in>set us'. key c < key u" "\<forall>v\<in>set vs'. key c \<le> key v"
    using assms(2) by (auto simp: first_least_def)
  consider "us = us'" "b = c" | "b \<in> set us'" "c \<in> set vs" | "c \<in> set us" "b \<in> set vs'"
    using b(1) c(1) by (auto simp: append_eq_append_conv2 Cons_eq_append_conv append_eq_Cons_conv)
  then show ?thesis using b(2,3) c(2,3) by cases (auto dest!: bspec simp: not_le [symmetric])
qed

lemma min_by_key_Some_iff: "min_by_key key xs = Some b \<longleftrightarrow> first_least key xs b"
proof
  assume b: "first_least key xs b"
  then obtain x ys where "xs = x # ys" by (cases xs) (auto simp: first_least_def)
  then obtain c where c: "min_by_key key xs = Some c" by simp
  then show "min_by_key key xs = Some b"
    using first_least_unique [OF b min_by_key_first_least] by simp
qed (rule min_by_key_first_least)

lemma min_by_key_None [simp]: "min_by_key key xs = None \<longleftrightarrow> xs = []"
  by (cases xs) auto

lemma min_by_key_const:
  "(\<And>x. x \<in> set xs \<Longrightarrow> key x = c) \<Longrightarrow> min_by_key key xs = (case xs of [] \<Rightarrow> None | x # _ \<Rightarrow> Some x)"
proof (cases xs)
  case Nil
  then show ?thesis by simp
next
  case (Cons x ys)
  assume const: "\<And>x. x \<in> set xs \<Longrightarrow> key x = c"
  have "min_from key y zs = y" if "key y = c" "\<And>z. z \<in> set zs \<Longrightarrow> key z = c" for y zs
    using that by (induction zs) auto
  with const Cons show ?thesis by simp
qed

end
