(* ===== verification/Backend.thy ===== *)
theory Backend
  imports Net_Addr Ordered_Set "HOL-Library.Product_Lexorder"
begin

text \<open>
  \<open>Backend\<close> of \<open>balance/mod.rs\<close>: an address and a weight, ordered by the derived
  \<open>Ord\<close> (address first, then weight), and \<open>hash_key\<close>.
\<close>

record backend =
  addr :: socket_addr
  weight :: usize

instantiation backend_ext :: (linorder) linorder
begin

definition less_eq_backend_ext :: "'a backend_ext \<Rightarrow> 'a backend_ext \<Rightarrow> bool" where
  "less_eq_backend_ext a b =
     ((addr a, weight a, backend.more a) \<le> (addr b, weight b, backend.more b))"

definition less_backend_ext :: "'a backend_ext \<Rightarrow> 'a backend_ext \<Rightarrow> bool" where
  "less_backend_ext a b =
     ((addr a, weight a, backend.more a) < (addr b, weight b, backend.more b))"

instance
proof
  fix a b c :: "'a backend_ext"
  show "a < b \<longleftrightarrow> a \<le> b \<and> \<not> b \<le> a"
    by (simp only: less_eq_backend_ext_def less_backend_ext_def less_le_not_le)
  show "a \<le> a"
    by (simp only: less_eq_backend_ext_def order_refl)
  show "a \<le> b \<Longrightarrow> b \<le> c \<Longrightarrow> a \<le> c"
    unfolding less_eq_backend_ext_def by (rule order_trans)
  show "a \<le> b \<Longrightarrow> b \<le> a \<Longrightarrow> a = b"
    unfolding less_eq_backend_ext_def
    by (drule (1) order_antisym) (simp add: backend.equality)
  show "a \<le> b \<or> b \<le> a"
    unfolding less_eq_backend_ext_def by (rule linear)
qed

end

definition backend_new :: "socket_addr \<Rightarrow> usize \<Rightarrow> backend" where
  "backend_new a w = \<lparr>addr = a, weight = w\<rparr>"

lemma backend_new_simps [simp]:
  "addr (backend_new a w) = a" "weight (backend_new a w) = w"
  by (simp_all add: backend_new_def)

lemma backend_new_inject [simp]: "backend_new a w = backend_new b v \<longleftrightarrow> a = b \<and> w = v"
  by (simp add: backend_new_def)

lemma backend_less_addr: "addr (a :: backend) < addr b \<Longrightarrow> a < b"
  by (simp add: less_backend_ext_def less_prod_def)

lemma backend_le_addr: "(a :: backend) \<le> b \<Longrightarrow> addr a \<le> addr b"
  by (auto simp: less_eq_backend_ext_def less_eq_prod_def)

text \<open>
  \<open>hash_key\<close>: the derived \<open>Hash\<close> feeds the fields, in order, to a \<open>DefaultHasher\<close>. Which bytes
  a \<open>SocketAddr\<close> and a \<open>usize\<close> feed, and the algorithm, the standard library leaves open, so
  they are parameters.
\<close>

definition hash_key ::
  "(socket_addr \<Rightarrow> u8 list) \<Rightarrow> (usize \<Rightarrow> u8 list) \<Rightarrow> (u8 list \<Rightarrow> u64) \<Rightarrow> backend \<Rightarrow> u64" where
  "hash_key feed_addr feed_usize finish b = finish (feed_addr (addr b) @ feed_usize (weight b))"

text \<open>What every discovery of the program promises of its backends.\<close>

definition unit_weights :: "backend list \<Rightarrow> bool" where
  "unit_weights bs \<longleftrightarrow> (\<forall>b\<in>set bs. weight b = 1)"

lemma unit_weights_simps [simp]:
  "unit_weights []"
  "unit_weights (b # bs) \<longleftrightarrow> weight b = 1 \<and> unit_weights bs"
  by (auto simp: unit_weights_def)

lemma unit_weights_set: "set xs \<subseteq> set ys \<Longrightarrow> unit_weights ys \<Longrightarrow> unit_weights xs"
  by (auto simp: unit_weights_def)

lemma unit_weights_addr_inj: "unit_weights bs \<Longrightarrow> inj_on addr (set bs)"
  by (auto simp: unit_weights_def inj_on_def intro: backend.equality)

text \<open>Ascending backends of weight 1 are determined by their addresses.\<close>

lemma unit_weights_determined:
  assumes "bt_ok bs" "bt_ok cs" "unit_weights bs" "unit_weights cs" "addr ` set bs = addr ` set cs"
  shows "bs = cs"
proof (rule bts.iter_eqI)
  have "bs' \<subseteq> cs'" if "addr ` bs' \<subseteq> addr ` cs'" "\<forall>b\<in>bs'. weight b = 1" "\<forall>b\<in>cs'. weight b = 1"
    for bs' cs' :: "backend set"
  proof
    fix b assume b: "b \<in> bs'"
    with that(1) obtain c where c: "c \<in> cs'" "addr c = addr b" by force
    with b that(2,3) have "b = c" by (intro backend.equality) auto
    with c show "b \<in> cs'" by simp
  qed
  then show "set bs = set cs"
    using assms by (simp add: unit_weights_def subset_antisym)
qed (use assms in auto)

section \<open>Sample values\<close>

text \<open>Backends used where a theorem is applied to concrete data.\<close>

definition sample_addr :: "u8 \<Rightarrow> socket_addr" where
  "sample_addr n = SocketV4 (Ipv4Addr 10 0 0 n) 80"

definition sample_backend :: "u8 \<Rightarrow> backend" where
  "sample_backend n = backend_new (sample_addr n) 1"

lemma sample_simps [simp]:
  "addr (sample_backend n) = sample_addr n" "weight (sample_backend n) = 1"
  "sample_addr m = sample_addr n \<longleftrightarrow> m = n" "sample_backend m = sample_backend n \<longleftrightarrow> m = n"
  by (auto simp: sample_backend_def sample_addr_def)

lemma sample_less [simp]: "sample_backend m < sample_backend n \<longleftrightarrow> m < n"
  by (simp add: sample_backend_def sample_addr_def backend_new_def less_backend_ext_def
      less_prod_def less_socket_addr_def less_eq_socket_addr_def word_less_nat_alt)

end
