(* ===== verification/Net_Display.thy ===== *)
theory Net_Display
  imports Net_Addr
begin

text \<open>
  Printing of addresses (\<open>Display\<close> of \<open>Ipv4Addr\<close>, \<open>Ipv6Addr\<close>, \<open>u16\<close>), IPv4-mapped
  addresses, and the round trip: parsing a printed address gives the address back.
\<close>

section \<open>Numbers\<close>

definition digit_char :: "nat \<Rightarrow> char" where
  "digit_char d = (if d < 10 then char_of (48 + d) else char_of (87 + d))"

function show_num :: "nat \<Rightarrow> nat \<Rightarrow> string" where
  "show_num r v =
     (if v < r \<or> r < 2 then [digit_char v] else show_num r (v div r) @ [digit_char (v mod r)])"
  by pat_completeness auto
termination
  by (relation "measure snd") auto

declare show_num.simps [simp del]

abbreviation show_dec :: "nat \<Rightarrow> string" where
  "show_dec \<equiv> show_num 10"

abbreviation show_hex :: "nat \<Rightarrow> string" where
  "show_hex \<equiv> show_num 16"

lemma char_code_digit: "d < 16 \<Longrightarrow> char_code (digit_char d) = (if d < 10 then 48 + d else 87 + d)"
  by (simp add: digit_char_def char_code_def)

lemma to_digit_char [simp]: "d < r \<Longrightarrow> r \<le> 16 \<Longrightarrow> to_digit r (digit_char d) = Some d"
  by (simp add: to_digit_def char_code_digit Let_def)

lemma show_num_nonempty [simp]: "show_num r v \<noteq> []"
  by (simp add: show_num.simps [of r v])

lemma hd_show_num_append [simp]: "hd (show_num r v @ cs) = hd (show_num r v)"
  by simp

lemma show_num_chars:
  "2 \<le> r \<Longrightarrow> c \<in> set (show_num r v) \<Longrightarrow> \<exists>d<r. c = digit_char d"
proof (induction r v rule: show_num.induct)
  case (1 r v)
  show ?case
  proof (cases "v < r")
    case True
    with 1 show ?thesis by (auto simp: show_num.simps [of r v])
  next
    case False
    have "v mod r < r" using "1.prems" by simp
    then have "c = digit_char (v mod r) \<Longrightarrow> ?thesis" by blast
    with False 1 show ?thesis by (auto simp: show_num.simps [of r v])
  qed
qed

lemma digit_char_code_cases:
  "d < 16 \<Longrightarrow> char_code c = k \<Longrightarrow> k < 48 \<or> (57 < k \<and> k < 97) \<Longrightarrow> c \<noteq> digit_char d"
  by (auto simp: char_code_digit split: if_splits)

lemma show_num_not_mem:
  assumes "2 \<le> r" "r \<le> 16" "char_code c < 48 \<or> (57 < char_code c \<and> char_code c < 97)"
  shows "c \<notin> set (show_num r v)"
proof
  assume "c \<in> set (show_num r v)"
  then obtain d where "d < r" "c = digit_char d" using show_num_chars assms(1) by blast
  then show False using digit_char_code_cases [OF _ refl assms(3)] assms(2) by simp
qed

lemma length_show_num: "2 \<le> r \<Longrightarrow> 0 < k \<Longrightarrow> v < r ^ k \<Longrightarrow> length (show_num r v) \<le> k"
proof (induction k arbitrary: v)
  case 0
  then show ?case by simp
next
  case (Suc k)
  show ?case
  proof (cases "v < r")
    case True
    then show ?thesis by (simp add: show_num.simps [of r v])
  next
    case False
    with Suc.prems have "0 < k" by (cases k) auto
    moreover have "v div r < r ^ k"
      using Suc.prems by (simp add: less_mult_imp_div_less mult.commute)
    ultimately show ?thesis
      using Suc False by (simp add: show_num.simps [of r v])
  qed
qed

lemma hd_show_num_zero:
  "2 \<le> r \<Longrightarrow> r \<le> 16 \<Longrightarrow> hd (show_num r v) = CHR ''0'' \<Longrightarrow> v = 0"
proof (induction r v rule: show_num.induct)
  case (1 r v)
  have zero: "digit_char d = CHR ''0'' \<Longrightarrow> d < 16 \<Longrightarrow> d = 0" for d
  proof -
    assume d: "digit_char d = CHR ''0''" "d < 16"
    have "char_code (digit_char d) = 48" unfolding d(1) by (simp add: char_code_def)
    with d(2) show "d = 0" by (simp add: char_code_digit split: if_splits)
  qed
  show ?case
  proof (cases "v < r")
    case True
    with 1 show ?thesis by (auto simp: show_num.simps [of r v] dest: zero)
  next
    case False
    with "1.prems" have "hd (show_num r (v div r)) = CHR ''0''"
      by (simp add: show_num.simps [of r v])
    with False 1 have "v div r = 0" by simp
    with False "1.prems" show ?thesis by (simp add: div_eq_0_iff)
  qed
qed

section \<open>Reading back a printed number\<close>

definition no_digit :: "nat \<Rightarrow> string \<Rightarrow> bool" where
  "no_digit r cs = (case cs of [] \<Rightarrow> True | c # _ \<Rightarrow> to_digit r c = None)"

lemma no_digit_simps [simp]:
  "no_digit r []" "no_digit r (c # cs) \<longleftrightarrow> to_digit r c = None"
  by (simp_all add: no_digit_def)

lemma read_digits_show:
  assumes "2 \<le> r" "r \<le> 16"
  shows "n + length (show_num r v) \<le> mx \<Longrightarrow>
     read_digits r mx acc n (show_num r v @ cs)
       = read_digits r mx (acc * r ^ length (show_num r v) + v) (n + length (show_num r v)) cs"
  using assms
proof (induction r v arbitrary: cs rule: show_num.induct)
  case (1 r v)
  show ?case
  proof (cases "v < r")
    case True
    with 1 show ?thesis by (simp add: show_num.simps [of r v])
  next
    case False
    have "r * (v div r) + v mod r = v" by simp
    then have eq: "(acc * r ^ length (show_num r (v div r)) + v div r) * r + v mod r
            = acc * (r * r ^ length (show_num r (v div r))) + v"
      by (simp add: algebra_simps)
    from False 1 show ?thesis
      by (simp add: show_num.simps [of r v] eq)
  qed
qed

lemma read_digits_stop: "no_digit r cs \<Longrightarrow> read_digits r mx acc n cs = Some (acc, n, cs)"
  by (cases cs) auto

lemma read_number_show:
  assumes r: "2 \<le> r" "r \<le> 16" and v: "v < bound" "v < r ^ mx" "0 < mx" and cs: "no_digit r cs"
  shows "read_number r mx zp bound (show_num r v @ cs) = Some (v, cs)"
proof -
  let ?l = "length (show_num r v)"
  have len: "?l \<le> mx" using length_show_num [of r mx v] r v by simp
  have "read_digits r mx 0 0 (show_num r v @ cs) = Some (v, ?l, cs)"
    using read_digits_show [OF r, of 0 v mx 0 cs] len read_digits_stop [OF cs] by simp
  moreover have "hd (show_num r v) = CHR ''0'' \<Longrightarrow> ?l = 1"
    using hd_show_num_zero [OF r, of v] r by (auto simp: show_num.simps [of r 0])
  ultimately show ?thesis
    using v by (auto simp: read_number_def)
qed

lemma read_checked_show:
  assumes "2 \<le> r" "r \<le> 16"
  shows "acc * r ^ length (show_num r v) + v < bound \<Longrightarrow>
     read_checked r bound acc n (show_num r v @ cs)
       = read_checked r bound (acc * r ^ length (show_num r v) + v) (n + length (show_num r v)) cs"
  using assms
proof (induction r v arbitrary: cs rule: show_num.induct)
  case (1 r v)
  show ?case
  proof (cases "v < r")
    case True
    with 1 show ?thesis by (simp add: show_num.simps [of r v])
  next
    case False
    let ?q = "acc * r ^ length (show_num r (v div r)) + v div r"
    have "r * (v div r) + v mod r = v" by simp
    then have eq: "?q * r + v mod r = acc * (r * r ^ length (show_num r (v div r))) + v"
      by (simp add: algebra_simps)
    have lt: "acc * (r * r ^ length (show_num r (v div r))) + v < bound"
      using "1.prems" False by (simp add: show_num.simps [of r v])
    have "?q \<le> ?q * r" using "1.prems" by simp
    with lt eq have "?q < bound" by linarith
    with False 1 lt show ?thesis
      by (simp add: show_num.simps [of r v] eq)
  qed
qed

lemma read_unlimited_show:
  assumes r: "2 \<le> r" "r \<le> 16" and v: "v < bound" and cs: "no_digit r cs"
  shows "read_unlimited r bound (show_num r v @ cs) = Some (v, cs)"
proof -
  have "read_checked r bound v n cs = Some (v, n, cs)" for n
    using cs by (cases cs) auto
  then show ?thesis
    using read_checked_show [OF r, of 0 v bound 0 cs] v by (simp add: read_unlimited_def)
qed

section \<open>IPv4\<close>

fun show_ipv4 :: "ipv4_addr \<Rightarrow> string" where
  "show_ipv4 (Ipv4Addr a b c d) =
     show_dec (unat a) @ ''.'' @ show_dec (unat b) @ ''.'' @ show_dec (unat c) @ ''.''
       @ show_dec (unat d)"

lemma unat_u8: "unat (a :: u8) < 256"
  using unsigned_less [of a] by simp

lemma unat_u16: "unat (a :: u16) < 65536"
  using unsigned_less [of a] by simp

lemma read_octet_show:
  "no_digit 10 cs \<Longrightarrow> read_octet (show_dec (unat (a :: u8)) @ cs) = Some (unat a, cs)"
  using unat_u8 [of a] by (intro read_number_show) auto

lemma no_digit_punct [simp]:
  "to_digit 10 CHR ''.'' = None" "to_digit 10 CHR '':'' = None" "to_digit 16 CHR '':'' = None"
  by (simp_all add: to_digit_def char_code_def)

lemma read_ipv4_show:
  "no_digit 10 cs \<Longrightarrow> read_ipv4_addr (show_ipv4 a @ cs) = Some (a, cs)"
  by (cases a) (simp add: read_ipv4_addr_def read_separator_def read_octet_show)

lemma parse_show_ipv4: "parse_ip_addr (show_ipv4 a) = Ok (V4 a)"
  using read_ipv4_show [of "[]" a]
  by (simp add: parse_ip_addr_def parse_with_def read_ip_addr_def)

lemma read_digits_append:
  "read_digits r mx acc n cs = Some (v, k, rest) \<Longrightarrow> \<exists>ds. cs = ds @ rest"
proof (induction cs arbitrary: acc n)
  case Nil
  then show ?case by simp
next
  case (Cons c cs)
  show ?case
  proof (cases "to_digit r c")
    case None
    with Cons.prems show ?thesis by simp
  next
    case (Some d)
    with Cons show ?thesis by (fastforce split: if_splits)
  qed
qed

lemma read_number_suffix:
  "read_number r mx zp bound cs = Some (v, rest) \<Longrightarrow> \<exists>ds. cs = ds @ rest"
  by (auto simp: read_number_def split: option.splits if_splits dest: read_digits_append)

text \<open>An IPv4 address has a dot in it.\<close>

lemma read_ipv4_needs_dot: "CHR ''.'' \<notin> set cs \<Longrightarrow> read_ipv4_addr cs = None"
proof (cases "read_octet cs")
  case None
  then show ?thesis by (simp add: read_ipv4_addr_def read_separator_def)
next
  case (Some r)
  assume dot: "CHR ''.'' \<notin> set cs"
  obtain v rest where r: "r = (v, rest)" by (cases r)
  from Some r have "set rest \<subseteq> set cs" using read_number_suffix by fastforce
  with dot have "read_given_char CHR ''.'' rest = None" by (cases rest) auto
  with Some r show ?thesis by (simp add: read_ipv4_addr_def read_separator_def)
qed

section \<open>IPv6\<close>

text \<open>\<open>Ipv6Addr::to_ipv4_mapped\<close> and \<open>Ipv4Addr::to_ipv6_mapped\<close>\<close>

fun to_ipv4_mapped :: "ipv6_addr \<Rightarrow> ipv4_addr option" where
  "to_ipv4_mapped (Ipv6Addr a b c d e f g h) =
     (if a = 0 \<and> b = 0 \<and> c = 0 \<and> d = 0 \<and> e = 0 \<and> f = 0xffff
      then Some (Ipv4Addr (of_nat (unat g div 256)) (of_nat (unat g mod 256))
                          (of_nat (unat h div 256)) (of_nat (unat h mod 256)))
      else None)"

fun to_ipv6_mapped :: "ipv4_addr \<Rightarrow> ipv6_addr" where
  "to_ipv6_mapped (Ipv4Addr a b c d) = Ipv6Addr 0 0 0 0 0 0xffff (ipv4_pair a b) (ipv4_pair c d)"

lemma unat_ipv4_pair: "unat (ipv4_pair a b) = unat a * 256 + unat b"
  using unat_u8 [of a] unat_u8 [of b] unfolding ipv4_pair_def unat_of_nat by simp

lemma ipv4_pair_split:
  "ipv4_pair (of_nat (unat g div 256)) (of_nat (unat g mod 256)) = g"
proof -
  have "unat g div 256 < 256" "unat g mod 256 < 256" using unat_u16 [of g] by auto
  then have "unat (of_nat (unat g div 256) :: u8) = unat g div 256"
    and "unat (of_nat (unat g mod 256) :: u8) = unat g mod 256"
    by (simp_all add: unat_of_nat take_bit_nat_eq_self)
  then have "unat (ipv4_pair (of_nat (unat g div 256)) (of_nat (unat g mod 256))) = unat g"
    by (simp add: unat_ipv4_pair)
  then show ?thesis by (simp only: word_unat_eq_iff)
qed

lemma ipv4_pair_div_mod [simp]:
  "(of_nat (unat (ipv4_pair a b) div 256) :: u8) = a"
  "(of_nat (unat (ipv4_pair a b) mod 256) :: u8) = b"
  using unat_u8 [of a] unat_u8 [of b] by (simp_all add: unat_ipv4_pair)

lemma to_ipv4_mapped_mapped [simp]: "to_ipv4_mapped (to_ipv6_mapped a) = Some a"
  by (cases a) simp

lemma to_ipv4_mapped_Some: "to_ipv4_mapped a = Some b \<longleftrightarrow> a = to_ipv6_mapped b"
proof
  assume "to_ipv4_mapped a = Some b"
  then show "a = to_ipv6_mapped b"
    by (cases a) (auto simp: ipv4_pair_split split: if_splits)
qed simp

text \<open>The longest run of zero segments: the first of the longest ones, found in one pass.\<close>

fun zero_span :: "nat \<Rightarrow> nat \<times> nat \<Rightarrow> nat \<times> nat \<Rightarrow> u16 list \<Rightarrow> nat \<times> nat" where
  "zero_span i cur longest [] = longest"
| "zero_span i cur longest (s # ss) =
     (if s = 0 then
        let cur' = (if snd cur = 0 then (i, 1) else (fst cur, Suc (snd cur)));
            longest' = (if snd longest < snd cur' then cur' else longest)
        in zero_span (Suc i) cur' longest' ss
      else zero_span (Suc i) (0, 0) longest ss)"

definition fmt_subslice :: "u16 list \<Rightarrow> string" where
  "fmt_subslice gs =
     (case gs of [] \<Rightarrow> []
      | g # tail \<Rightarrow> show_hex (unat g) @ concat (map (\<lambda>s. CHR '':'' # show_hex (unat s)) tail))"

fun segments :: "ipv6_addr \<Rightarrow> u16 list" where
  "segments (Ipv6Addr a b c d e f g h) = [a, b, c, d, e, f, g, h]"

definition show_ipv6 :: "ipv6_addr \<Rightarrow> string" where
  "show_ipv6 a =
     (case to_ipv4_mapped a of
        Some v4 \<Rightarrow> ''::ffff:'' @ show_ipv4 v4
      | None \<Rightarrow>
          (let (start, len) = zero_span 0 (0, 0) (0, 0) (segments a) in
           if 1 < len then
             fmt_subslice (take start (segments a)) @ ''::''
               @ fmt_subslice (drop (start + len) (segments a))
           else fmt_subslice (segments a)))"

fun show_ip :: "ip_addr \<Rightarrow> string" where
  "show_ip (V4 a) = show_ipv4 a"
| "show_ip (V6 a) = show_ipv6 a"

end
