(* ===== verification/Net_Roundtrip.thy ===== *)
theory Net_Roundtrip
  imports Net_Display
begin

text \<open>
  Parsing a printed IPv6 address gives the address back: the printer's zero span is a run of
  zero segments, and the reader rebuilds the segments before and after \<open>::\<close>.
\<close>

section \<open>Groups\<close>

fun show_groups :: "nat \<Rightarrow> u16 list \<Rightarrow> string" where
  "show_groups i [] = []"
| "show_groups i (g # gs) =
     (if 0 < i then [CHR '':''] else []) @ show_hex (unat g) @ show_groups (Suc i) gs"

lemma show_groups_tail:
  "0 < i \<Longrightarrow> show_groups i gs = concat (map (\<lambda>s. CHR '':'' # show_hex (unat s)) gs)"
  by (induction gs arbitrary: i) auto

lemma fmt_subslice_groups: "fmt_subslice gs = show_groups 0 gs"
  by (cases gs) (auto simp: fmt_subslice_def show_groups_tail)

lemma no_dot_show_num [simp]:
  "CHR ''.'' \<notin> set (show_hex v)"
  by (rule show_num_not_mem) (auto simp: char_code_def)

lemma no_dot_show_groups [simp]: "CHR ''.'' \<notin> set (show_groups i gs)"
  by (induction gs arbitrary: i) auto

lemma read_separator_no_dot:
  "CHR ''.'' \<notin> set cs \<Longrightarrow> read_separator s i read_ipv4_addr cs = None"
  by (cases cs) (auto simp: read_separator_def read_ipv4_needs_dot)

lemma read_segment_stop [simp]:
  "read_segment [] = None" "read_segment (CHR '':'' # cs) = None"
  by (simp_all add: read_number_def)

lemma read_segment_show:
  "no_digit 16 cs \<Longrightarrow> read_segment (show_hex (unat (g :: u16)) @ cs) = Some (unat g, cs)"
  using unat_u16 [of g] by (intro read_number_show) auto

lemma read_separator_groups:
  "read_separator CHR '':'' i p (show_groups i (g # gs) @ cs)
     = p (show_hex (unat g) @ show_groups (Suc i) gs @ cs)"
  by (simp add: read_separator_def)

lemma no_digit_groups: "no_digit 16 cs \<Longrightarrow> no_digit 16 (show_groups (Suc i) gs @ cs)"
  by (cases gs) auto

lemma read_groups_show:
  assumes "i + length gs \<le> limit" and dot: "CHR ''.'' \<notin> set cs" and nd: "no_digit 16 cs"
    and stop: "\<And>j. read_separator CHR '':'' j read_segment cs = None"
  shows "read_groups limit i (show_groups i gs @ cs) = (gs, False, cs)"
  using assms(1)
proof (induction gs arbitrary: i)
  case Nil
  then show ?case
    by (simp add: read_groups.simps [of limit i] read_separator_no_dot [OF dot] stop)
next
  case (Cons g gs)
  let ?s = "show_groups i (g # gs) @ cs"
  have "read_separator CHR '':'' i read_ipv4_addr ?s = None"
    by (rule read_separator_no_dot) (use dot in auto)
  moreover have "read_separator CHR '':'' i read_segment ?s
                   = Some (unat g, show_groups (Suc i) gs @ cs)"
    unfolding read_separator_groups by (rule read_segment_show) (rule no_digit_groups [OF nd])
  ultimately show ?case
    using Cons by (simp add: read_groups.simps [of limit i] del: show_groups.simps)
qed

section \<open>The zero span\<close>

definition zero_run :: "u16 list \<Rightarrow> nat \<Rightarrow> nat \<times> nat \<Rightarrow> bool" where
  "zero_run ss i sp \<longleftrightarrow>
     fst sp + snd sp \<le> i \<and> (\<forall>j. fst sp \<le> j \<and> j < fst sp + snd sp \<longrightarrow> ss ! j = 0)"

lemma zero_span_run:
  assumes "drop i full = ss" "i \<le> length full"
    and "zero_run full i cur" "snd cur = 0 \<or> fst cur + snd cur = i" "zero_run full i longest"
  shows "zero_run full (length full) (zero_span i cur longest ss)"
  using assms
proof (induction ss arbitrary: i cur longest)
  case Nil
  then show ?case by simp
next
  case (Cons s ss)
  have "i < length full" using Cons.prems(1) by (cases "i < length full") auto
  then have i: "i < length full" "full ! i = s" "drop (Suc i) full = ss"
    using Cons.prems(1) Cons_nth_drop_Suc [of i full] by auto
  have mono: "zero_run full i sp \<Longrightarrow> zero_run full (Suc i) sp" for sp
    by (auto simp: zero_run_def)
  show ?case
  proof (cases "s = 0")
    case True
    define cur' where "cur' = (if snd cur = 0 then (i, 1) else (fst cur, Suc (snd cur)))"
    have end': "fst cur' + snd cur' = Suc i" using Cons.prems(4) by (auto simp: cur'_def)
    have run: "zero_run full (Suc i) cur'"
      using Cons.prems(3,4) i True by (auto simp: zero_run_def cur'_def less_Suc_eq)
    have "zero_run full (length full)
            (zero_span (Suc i) cur' (if snd longest < snd cur' then cur' else longest) ss)"
      using run end' mono [OF Cons.prems(5)] i by (intro Cons.IH) auto
    with True show ?thesis
      by (simp only: zero_span.simps refl if_True Let_def cur'_def [symmetric])
  next
    case False
    have "zero_run full (length full) (zero_span (Suc i) (0, 0) longest ss)"
      using i mono [OF Cons.prems(5)] by (intro Cons.IH) (auto simp: zero_run_def)
    with False show ?thesis by simp
  qed
qed

lemma zero_run_split:
  assumes "zero_run ss (length ss) (s, l)"
  shows "ss = take s ss @ replicate l 0 @ drop (s + l) ss"
proof (rule nth_equalityI)
  fix j assume "j < length ss"
  then show "ss ! j = (take s ss @ replicate l 0 @ drop (s + l) ss) ! j"
    using assms by (auto simp: zero_run_def nth_append min_def)
qed (use assms in \<open>auto simp: zero_run_def\<close>)

section \<open>IPv6 addresses\<close>

lemma length_segments [simp]: "length (segments a) = 8"
  by (cases a) simp

lemma ipv6_of_segments [simp]: "ipv6_of_list (segments a) = Some a"
  by (cases a) simp

lemma colons_stop: "read_separator CHR '':'' j read_segment (CHR '':'' # CHR '':'' # cs) = None"
  by (simp add: read_separator_def)

lemma empty_stop: "read_separator CHR '':'' j read_segment [] = None"
  by (simp add: read_separator_def)

lemma read_ipv6_full:
  "read_ipv6_addr (show_groups 0 (segments a)) = Some (a, [])"
  using read_groups_show [of 0 "segments a" 8 "[]"] empty_stop
  by (simp add: read_ipv6_addr_def)

lemma read_ipv6_compressed:
  assumes sp: "zero_run (segments a) 8 (s, l)" and l: "1 < l"
  shows "read_ipv6_addr (show_groups 0 (take s (segments a)) @ ''::''
           @ show_groups 0 (drop (s + l) (segments a))) = Some (a, [])"
proof -
  let ?front = "take s (segments a)" and ?tail = "drop (s + l) (segments a)"
  have sl: "s + l \<le> 8" using sp by (simp add: zero_run_def)
  have front: "read_groups 8 0 (show_groups 0 ?front @ ''::'' @ show_groups 0 ?tail)
                 = (?front, False, ''::'' @ show_groups 0 ?tail)"
    using sl l by (intro read_groups_show) (auto simp: colons_stop)
  have rear: "read_groups (7 - s) 0 (show_groups 0 ?tail) = (?tail, False, [])"
    using read_groups_show [of 0 ?tail "7 - s" "[]"] sl l empty_stop by simp
  have "?front @ replicate l 0 @ ?tail = segments a"
    using zero_run_split [of "segments a" s l] sp by simp
  with front rear sl l show ?thesis
    by (simp add: read_ipv6_addr_def min_def)
qed

lemma read_ipv6_mapped:
  "read_ipv6_addr (''::ffff:'' @ show_ipv4 v) = Some (to_ipv6_mapped v, [])"
proof (cases v)
  case (Ipv4Addr a b c d)
  have colon: "read_ipv4_addr (CHR '':'' # cs) = None" for cs
    by (simp add: read_ipv4_addr_def read_separator_def read_number_def)
  have head: "read_groups 8 0 (''::ffff:'' @ show_ipv4 v) = ([], False, ''::ffff:'' @ show_ipv4 v)"
    by (simp add: read_groups.simps [of 8 0] read_separator_def colon)
  have f4: "read_ipv4_addr (CHR ''f'' # cs) = None" for cs
    by (simp add: read_ipv4_addr_def read_separator_def read_number_def to_digit_def char_code_def)
  have ffff: "read_segment (''ffff:'' @ cs) = Some (65535, CHR '':'' # cs)" for cs
    by (simp add: read_number_def to_digit_def char_code_def)
  have quad: "read_groups 7 1 (CHR '':'' # show_ipv4 v) = ([ipv4_pair a b, ipv4_pair c d], True, [])"
    using read_ipv4_show [of "[]" v]
    by (simp add: read_groups.simps [of 7 "Suc 0"] read_separator_def Ipv4Addr del: show_ipv4.simps)
  have tail: "read_groups 7 0 (''ffff:'' @ show_ipv4 v)
                = ([0xffff, ipv4_pair a b, ipv4_pair c d], True, [])"
    using ffff [of "show_ipv4 v"] quad
    by (simp add: read_groups.simps [of 7 0] read_separator_def f4 del: show_ipv4.simps)
  show ?thesis
    using head tail
    by (simp add: read_ipv6_addr_def Ipv4Addr numeral_eq_Suc del: show_ipv4.simps)
qed

lemma read_ipv4_show_ipv6: "read_ipv4_addr (show_ipv6 a) = None"
proof (cases "to_ipv4_mapped a")
  case None
  then show ?thesis
    by (intro read_ipv4_needs_dot)
      (auto simp: show_ipv6_def fmt_subslice_groups split: prod.splits)
next
  case (Some v)
  then show ?thesis
    by (simp add: show_ipv6_def read_ipv4_addr_def read_separator_def read_number_def)
qed

lemma read_ipv6_show: "read_ipv6_addr (show_ipv6 a) = Some (a, [])"
proof (cases "to_ipv4_mapped a")
  case (Some v)
  then show ?thesis
    using read_ipv6_mapped [of v] by (simp add: show_ipv6_def to_ipv4_mapped_Some)
next
  case None
  obtain s l where sp: "zero_span 0 (0, 0) (0, 0) (segments a) = (s, l)"
    by fastforce
  have "zero_run (segments a) 8 (s, l)"
    using zero_span_run [of 0 "segments a" "segments a" "(0, 0)" "(0, 0)"] sp
    by (simp add: zero_run_def)
  then show ?thesis
    using None sp read_ipv6_compressed [of a s l] read_ipv6_full [of a]
    by (simp add: show_ipv6_def fmt_subslice_groups)
qed

lemma parse_show_ip: "parse_ip_addr (show_ip ip) = Ok ip"
proof (cases ip)
  case (V4 a)
  then show ?thesis by (simp add: parse_show_ipv4)
next
  case (V6 a)
  then show ?thesis
    by (simp add: parse_ip_addr_def parse_with_def read_ip_addr_def read_ipv4_show_ipv6
        read_ipv6_show)
qed

lemma show_ip_inject: "show_ip a = show_ip b \<longleftrightarrow> a = b"
  by (metis parse_show_ip outcome.inject(1))

section \<open>Socket addresses\<close>

lemma parse_socket_v4:
  "parse_socket_addr (show_ipv4 a @ '':'' @ show_dec (unat (p :: u16))) = Ok (SocketV4 a p)"
proof -
  have "read_unlimited 10 65536 (show_dec (unat p)) = Some (unat p, [])"
    using read_unlimited_show [of 10 "unat p" 65536 "[]"] unat_u16 [of p] by simp
  then show ?thesis
    using read_ipv4_show [of "CHR '':'' # show_dec (unat p)" a]
    by (simp add: parse_socket_addr_def parse_with_def read_socket_addr_def
        read_socket_addr_v4_def read_port_def)
qed

end
