(* ===== verification/Config.thy ===== *)
theory Config
  imports Net_Roundtrip
begin

text \<open>
  \<open>app/config.rs\<close>: the configuration types with their constructors, getters and setters, the
  names their enums have in a configuration file, loading and validation, and
  \<open>DnsConfig::into_resolver_config\<close>. A getter that returns a field is the field's selector; a
  getter that does more is a definition. The \<open>config\<close> crate (reading the sources, deserialising
  the merged tree) and the resolver's configuration types are parameters; a file system is the
  function that gives the bytes of a path or an I/O error.
\<close>

section \<open>Enumerations\<close>

datatype protocol = Tcp | Udp | Ws | Http

datatype lb_kind = RoundRobin | LeastConn | Random | IpHash | WeightedRoundRobin

datatype discovery_kind = Dns | Local

text \<open>Their names in a file: \<open>rename_all\<close> with \<open>lowercase\<close> and with \<open>snake_case\<close>.\<close>

fun protocol_name :: "protocol \<Rightarrow> string" where
  "protocol_name Tcp = ''tcp''"
| "protocol_name Udp = ''udp''"
| "protocol_name Ws = ''ws''"
| "protocol_name Http = ''http''"

fun lb_kind_name :: "lb_kind \<Rightarrow> string" where
  "lb_kind_name RoundRobin = ''round_robin''"
| "lb_kind_name LeastConn = ''least_conn''"
| "lb_kind_name Random = ''random''"
| "lb_kind_name IpHash = ''ip_hash''"
| "lb_kind_name WeightedRoundRobin = ''weighted_round_robin''"

fun discovery_kind_name :: "discovery_kind \<Rightarrow> string" where
  "discovery_kind_name Dns = ''dns''"
| "discovery_kind_name Local = ''local''"

definition protocol_of_name :: "string \<Rightarrow> protocol option" where
  "protocol_of_name s = find (\<lambda>p. protocol_name p = s) [Tcp, Udp, Ws, Http]"

definition lb_kind_of_name :: "string \<Rightarrow> lb_kind option" where
  "lb_kind_of_name s =
     find (\<lambda>k. lb_kind_name k = s) [RoundRobin, LeastConn, Random, IpHash, WeightedRoundRobin]"

definition discovery_kind_of_name :: "string \<Rightarrow> discovery_kind option" where
  "discovery_kind_of_name s = find (\<lambda>k. discovery_kind_name k = s) [Dns, Local]"

lemma protocol_of_name_eq: "protocol_of_name s = Some p \<longleftrightarrow> s = protocol_name p"
  by (cases p) (auto simp: protocol_of_name_def)

lemma lb_kind_of_name_eq: "lb_kind_of_name s = Some k \<longleftrightarrow> s = lb_kind_name k"
  by (cases k) (auto simp: lb_kind_of_name_def)

lemma discovery_kind_of_name_eq: "discovery_kind_of_name s = Some k \<longleftrightarrow> s = discovery_kind_name k"
  by (cases k) (auto simp: discovery_kind_of_name_def)

section \<open>Upstreams\<close>

record upstream_server =
  us_address :: string
  us_port :: u16

definition to_socket_addrs :: "upstream_server \<Rightarrow> socket_addr outcome" where
  "to_socket_addrs us =
     and_then (parse_ip_addr (us_address us)) (\<lambda>ip. Ok (socket_new ip (us_port us)))"

record upstream =
  up_load_balancer :: lb_kind
  up_service_discovery :: discovery_kind
  up_servers :: "upstream_server list"

lemma to_socket_addrs_eq_Ok:
  "to_socket_addrs us = Ok a \<longleftrightarrow> parse_ip_addr (us_address us) = Ok (socket_ip a)
     \<and> a = socket_new (socket_ip a) (us_port us)"
  by (auto simp: to_socket_addrs_def and_then_eq_Ok)

lemma to_socket_addrs_show:
  "to_socket_addrs \<lparr>us_address = show_ip ip, us_port = p\<rparr> = Ok (socket_new ip p)"
  by (simp add: to_socket_addrs_def parse_show_ip)

section \<open>TLS settings\<close>

record tls_config =
  tls_enabled :: bool
  certificate_path :: string
  certificate_key_path :: string
  trusted_certificate_path :: string
  tls_verify :: bool
  tls_verify_depth :: usize
  tls_session_reuse :: bool
  tls_protocols :: "string list"
  tls_ciphers :: string

type_synonym file_system = "string \<Rightarrow> u8 list outcome"

definition proxy_tls_certificate :: "file_system \<Rightarrow> tls_config \<Rightarrow> u8 list outcome" where
  "proxy_tls_certificate fs t = fs (certificate_path t)"

definition proxy_tls_certificate_key :: "file_system \<Rightarrow> tls_config \<Rightarrow> u8 list outcome" where
  "proxy_tls_certificate_key fs t = fs (certificate_key_path t)"

definition proxy_tls_trusted_certificate :: "file_system \<Rightarrow> tls_config \<Rightarrow> u8 list outcome" where
  "proxy_tls_trusted_certificate fs t = fs (trusted_certificate_path t)"

definition tls_config_new ::
  "bool \<Rightarrow> string \<Rightarrow> string \<Rightarrow> string \<Rightarrow> bool \<Rightarrow> usize \<Rightarrow> bool \<Rightarrow> string list \<Rightarrow> string \<Rightarrow> tls_config"
  where
  "tls_config_new enabled cert key trusted verify depth reuse protocols ciphers =
     \<lparr>tls_enabled = enabled, certificate_path = cert, certificate_key_path = key,
      trusted_certificate_path = trusted, tls_verify = verify, tls_verify_depth = depth,
      tls_session_reuse = reuse, tls_protocols = protocols, tls_ciphers = ciphers\<rparr>"

definition proxy_tls_verify :: "tls_config \<Rightarrow> bool" where
  "proxy_tls_verify t = tls_verify t"

definition proxy_tls_verify_depth :: "tls_config \<Rightarrow> usize" where
  "proxy_tls_verify_depth t = tls_verify_depth t"

definition proxy_tls_session_reuse :: "tls_config \<Rightarrow> bool" where
  "proxy_tls_session_reuse t = tls_session_reuse t"

definition proxy_tls_protocols :: "tls_config \<Rightarrow> string list" where
  "proxy_tls_protocols t = tls_protocols t"

definition proxy_tls_ciphers :: "tls_config \<Rightarrow> string" where
  "proxy_tls_ciphers t = tls_ciphers t"

section \<open>Servers\<close>

record listen_config =
  listen_port :: u16
  listen_protocol :: protocol

record stream_server =
  ss_name :: string
  ss_listen :: listen_config
  ss_proxy_pass :: string
  ss_tls :: "tls_config option"

definition ss_set_name :: "string \<Rightarrow> stream_server \<Rightarrow> stream_server" where
  "ss_set_name n s = s\<lparr>ss_name := n\<rparr>"

definition ss_set_listen :: "listen_config \<Rightarrow> stream_server \<Rightarrow> stream_server" where
  "ss_set_listen l s = s\<lparr>ss_listen := l\<rparr>"

definition ss_set_proxy_pass :: "string \<Rightarrow> stream_server \<Rightarrow> stream_server" where
  "ss_set_proxy_pass p s = s\<lparr>ss_proxy_pass := p\<rparr>"

definition ss_set_tls :: "tls_config option \<Rightarrow> stream_server \<Rightarrow> stream_server" where
  "ss_set_tls t s = s\<lparr>ss_tls := t\<rparr>"

record stream_config =
  st_upstreams :: "string \<rightharpoonup> upstream"
  st_servers :: "stream_server list"

definition stream_upstream :: "stream_config \<Rightarrow> string \<Rightarrow> upstream option" where
  "stream_upstream c key = st_upstreams c key"

record location_config =
  location_path :: string

record http_server =
  hs_name :: string
  hs_listen :: listen_config
  hs_tls :: "tls_config option"
  hs_proxy_pass :: string
  hs_location :: location_config
  hs_proxy_http_version :: string
  hs_proxy_set_header :: string
  hs_keepalive_timeout :: usize

definition hs_set_name :: "string \<Rightarrow> http_server \<Rightarrow> http_server" where
  "hs_set_name n s = s\<lparr>hs_name := n\<rparr>"

definition hs_set_listen :: "listen_config \<Rightarrow> http_server \<Rightarrow> http_server" where
  "hs_set_listen l s = s\<lparr>hs_listen := l\<rparr>"

definition hs_set_tls :: "tls_config option \<Rightarrow> http_server \<Rightarrow> http_server" where
  "hs_set_tls t s = s\<lparr>hs_tls := t\<rparr>"

definition hs_set_proxy_pass :: "string \<Rightarrow> http_server \<Rightarrow> http_server" where
  "hs_set_proxy_pass p s = s\<lparr>hs_proxy_pass := p\<rparr>"

definition hs_set_location :: "location_config \<Rightarrow> http_server \<Rightarrow> http_server" where
  "hs_set_location l s = s\<lparr>hs_location := l\<rparr>"

definition hs_set_proxy_http_version :: "string \<Rightarrow> http_server \<Rightarrow> http_server" where
  "hs_set_proxy_http_version v s = s\<lparr>hs_proxy_http_version := v\<rparr>"

definition hs_set_proxy_set_header :: "string \<Rightarrow> http_server \<Rightarrow> http_server" where
  "hs_set_proxy_set_header h s = s\<lparr>hs_proxy_set_header := h\<rparr>"

definition hs_set_keepalive_timeout :: "usize \<Rightarrow> http_server \<Rightarrow> http_server" where
  "hs_set_keepalive_timeout k s = s\<lparr>hs_keepalive_timeout := k\<rparr>"

record http_config =
  ht_upstreams :: "string \<rightharpoonup> upstream"
  ht_servers :: "http_server list"

section \<open>The whole configuration\<close>

text \<open>A \<open>Duration\<close> made by \<open>from_secs\<close> is its number of seconds.\<close>

type_synonym duration = nat

definition from_secs :: "u64 \<Rightarrow> duration" where
  "from_secs s = unat s"

record umay_config =
  worker_threads :: usize
  close_timeout_secs :: u64
  exit_timeout_secs :: u64
  shutdown_grace_period_secs :: u64
  stream :: "stream_config option"
  http :: "http_config option"

definition umay_config_new ::
  "usize \<Rightarrow> u64 \<Rightarrow> u64 \<Rightarrow> u64 \<Rightarrow> stream_config option \<Rightarrow> http_config option \<Rightarrow> umay_config" where
  "umay_config_new threads close exit grace s h =
     \<lparr>worker_threads = threads, close_timeout_secs = close, exit_timeout_secs = exit,
      shutdown_grace_period_secs = grace, stream = s, http = h\<rparr>"

definition close_timeout :: "umay_config \<Rightarrow> duration" where
  "close_timeout c = from_secs (close_timeout_secs c)"

definition exit_timeout :: "umay_config \<Rightarrow> duration" where
  "exit_timeout c = from_secs (exit_timeout_secs c)"

definition shutdown_grace_period :: "umay_config \<Rightarrow> duration" where
  "shutdown_grace_period c = from_secs (shutdown_grace_period_secs c)"

definition no_sections_msg :: string where
  "no_sections_msg = ''At least one of 'stream' or 'http' configurations must be present.''"

definition validate :: "umay_config \<Rightarrow> unit outcome" where
  "validate c =
     (if stream c = None \<and> http c = None then Err (Msg no_sections_msg) else Ok ())"

definition get_upstream :: "umay_config \<Rightarrow> string \<Rightarrow> upstream option" where
  "get_upstream c nm =
     (case (case stream c of None \<Rightarrow> None | Some s \<Rightarrow> st_upstreams s nm) of
        Some u \<Rightarrow> Some u
      | None \<Rightarrow> (case http c of None \<Rightarrow> None | Some h \<Rightarrow> ht_upstreams h nm))"

lemma validate_eq_Ok: "validate c = Ok u \<longleftrightarrow> stream c \<noteq> None \<or> http c \<noteq> None"
  by (auto simp: validate_def)

text \<open>
  Looking up an upstream by name: the stream section's entry if there is one, else the HTTP
  section's; a missing section has no entries.
\<close>

lemma get_upstream_precedence:
  "get_upstream c nm =
     ((case http c of None \<Rightarrow> Map.empty | Some h \<Rightarrow> ht_upstreams h)
        ++ (case stream c of None \<Rightarrow> Map.empty | Some s \<Rightarrow> st_upstreams s)) nm"
  by (auto simp: get_upstream_def map_add_def split: option.splits)

text \<open>
  Loading. \<open>env\<close> gives the environment variables. \<open>build file prefix separator\<close> stands for
  the builder with one file source and one environment source, \<open>deserialize\<close> for
  \<open>try_deserialize\<close>.
\<close>

definition get_env_var :: "(string \<Rightarrow> string option) \<Rightarrow> string \<Rightarrow> string \<Rightarrow> string" where
  "get_env_var env var dflt = (case env var of Some v \<Rightarrow> v | None \<Rightarrow> dflt)"

definition get_config ::
  "(string \<Rightarrow> string \<Rightarrow> string \<Rightarrow> 'c outcome) \<Rightarrow> string \<Rightarrow> 'c outcome" where
  "get_config build config_path =
     wrap_err ''Failed to build configuration'' (build (config_path @ ''umay.yaml'') ''UMAY'' ''_'')"

definition load ::
  "(string \<Rightarrow> string option) \<Rightarrow> (string \<Rightarrow> string \<Rightarrow> string \<Rightarrow> 'c outcome)
     \<Rightarrow> ('c \<Rightarrow> umay_config outcome) \<Rightarrow> umay_config outcome" where
  "load env build deserialize =
     (let config_path = get_env_var env ''CONFIG_BASE_PATH'' ''config/'' in
      and_then (get_config build config_path) (\<lambda>c.
      and_then (wrap_err ''Failed to load configuration'' (deserialize c)) (\<lambda>cfg.
      and_then (validate cfg) (\<lambda>_. Ok cfg))))"

lemma load_eq_Ok:
  "load env build deserialize = Ok cfg \<longleftrightarrow>
     (\<exists>c. build (get_env_var env ''CONFIG_BASE_PATH'' ''config/'' @ ''umay.yaml'') ''UMAY'' ''_'' = Ok c
        \<and> deserialize c = Ok cfg \<and> (stream cfg \<noteq> None \<or> http cfg \<noteq> None))"
  by (auto simp: load_def get_config_def validate_eq_Ok try_simps Let_def)

section \<open>DnsConfig\<close>

record dns_config =
  nameservers :: "string list option"
  search :: "string list"
  ndots :: "usize option"

text \<open>
  The resolver's configuration and option types, with the operations the code calls on them:
  \<open>ResolverConfig::new\<close>, \<open>ResolverOpts::default\<close>, \<open>add_name_server\<close> for UDP,
  \<open>add_search\<close>, assignment to \<open>ndots\<close>, and \<open>str::parse\<close> for \<open>Name\<close>.
\<close>

record ('cfg, 'opts, 'nm) resolver_api =
  new_config :: 'cfg
  default_opts :: 'opts
  add_name_server :: "'cfg \<Rightarrow> socket_addr \<Rightarrow> 'cfg"
  add_search :: "'cfg \<Rightarrow> 'nm \<Rightarrow> 'cfg"
  set_ndots :: "'opts \<Rightarrow> usize \<Rightarrow> 'opts"
  parse_name :: "string \<Rightarrow> 'nm outcome"

definition into_resolver_config ::
  "('cfg, 'opts, 'nm) resolver_api \<Rightarrow> dns_config \<Rightarrow> ('cfg \<times> 'opts) outcome" where
  "into_resolver_config api c =
     and_then
       (case nameservers c of
          None \<Rightarrow> Ok (new_config api)
        | Some nss \<Rightarrow>
            try_fold (\<lambda>cfg ns.
                and_then (wrap_err ''Invalid nameserver address'' (parse_socket_addr ns)) (\<lambda>sa.
                Ok (add_name_server api cfg sa)))
              (new_config api) nss)
       (\<lambda>cfg.
     and_then
       (try_fold (\<lambda>cfg domain.
           and_then (wrap_err ''Invalid search domain'' (parse_name api domain)) (\<lambda>nm.
           Ok (add_search api cfg nm)))
         cfg (search c))
       (\<lambda>cfg.
     Ok (cfg, case ndots c of None \<Rightarrow> default_opts api | Some n \<Rightarrow> set_ndots api (default_opts api) n)))"

definition nameserver_list :: "dns_config \<Rightarrow> string list" where
  "nameserver_list c = (case nameservers c of None \<Rightarrow> [] | Some nss \<Rightarrow> nss)"

lemma into_resolver_config_fold:
  "into_resolver_config api c =
     and_then (try_map (\<lambda>ns. wrap_err ''Invalid nameserver address'' (parse_socket_addr ns))
                 (nameserver_list c)) (\<lambda>sas.
     and_then (try_map (\<lambda>d. wrap_err ''Invalid search domain'' (parse_name api d)) (search c)) (\<lambda>nms.
     Ok (foldl (add_search api) (foldl (add_name_server api) (new_config api) sas) nms,
         case ndots c of None \<Rightarrow> default_opts api | Some n \<Rightarrow> set_ndots api (default_opts api) n)))"
  by (cases "nameservers c")
    (simp_all add: into_resolver_config_def nameserver_list_def try_fold_foldl and_then_assoc)

lemma into_resolver_config_eq_Ok:
  "into_resolver_config api c = Ok (cfg, opts) \<longleftrightarrow>
     (\<exists>sas nms. list_all2 (\<lambda>ns sa. parse_socket_addr ns = Ok sa) (nameserver_list c) sas
        \<and> list_all2 (\<lambda>d nm. parse_name api d = Ok nm) (search c) nms
        \<and> cfg = foldl (add_search api) (foldl (add_name_server api) (new_config api) sas) nms
        \<and> opts = (case ndots c of None \<Rightarrow> default_opts api
                   | Some n \<Rightarrow> set_ndots api (default_opts api) n))"
  by (auto simp: into_resolver_config_fold try_map_eq_Ok try_simps)

lemma bracket_not_mem: "CHR ''['' \<notin> set (show_dec v)" "CHR ''['' \<notin> set (show_hex v)"
  by (rule show_num_not_mem; simp add: char_code_def)+

section \<open>Properties\<close>

text \<open>
  C25. An upstream server whose address is the printed form of an IPv4 or IPv6 address, whatever
  the address (mapped, compressed, with or without a zero run), becomes that socket address; a
  host name in that place is an error.
\<close>

theorem to_socket_addrs_round_trip:
  "to_socket_addrs \<lparr>us_address = show_ip ip, us_port = p\<rparr> = Ok (socket_new ip p) \<and>
   to_socket_addrs \<lparr>us_address = ''localhost'', us_port = p\<rparr>
     = Err (Addr_Parse ''invalid IP address syntax'')"
proof -
  have v4: "read_ipv4_addr ''localhost'' = None"
    by (rule read_ipv4_needs_dot) simp
  have seg: "read_separator CHR '':'' i read_segment ''localhost'' = None" for i
    by (simp add: read_separator_def read_number_def to_digit_def char_code_def)
  have "read_groups 8 0 ''localhost'' = ([], False, ''localhost'')"
    using seg [of 0] by (simp add: read_groups.simps [of 8 0] read_separator_no_dot)
  then have "parse_ip_addr ''localhost'' = Err (Addr_Parse ''invalid IP address syntax'')"
    using v4 by (simp add: parse_ip_addr_def parse_with_def read_ip_addr_def read_ipv6_addr_def)
  then show ?thesis by (simp add: to_socket_addrs_show) (simp add: to_socket_addrs_def)
qed

text \<open>
  The names of protocols, load balancers and discoveries in a file determine the values and
  are determined by them; the names \<open>wss\<close> and \<open>https\<close> are not protocols.
\<close>

theorem config_names_round_trip:
  "(protocol_of_name s = Some p \<longleftrightarrow> s = protocol_name p) \<and>
   (lb_kind_of_name s = Some k \<longleftrightarrow> s = lb_kind_name k) \<and>
   (discovery_kind_of_name s = Some d \<longleftrightarrow> s = discovery_kind_name d) \<and>
   protocol_of_name ''wss'' = None \<and> protocol_of_name ''https'' = None"
  by (simp add: protocol_of_name_eq lb_kind_of_name_eq discovery_kind_of_name_eq)
    (simp add: protocol_of_name_def)

text \<open>
  C35. A DNS configuration is accepted exactly when every name server parses as an address with a
  port and every search domain as a name; the resolver then gets all of them, in order, and the
  \<open>ndots\<close> given. A name server without a port is rejected.
\<close>

theorem into_resolver_config_characterised:
  "(into_resolver_config api c = Ok (cfg, opts) \<longleftrightarrow>
     (\<exists>sas nms. list_all2 (\<lambda>ns sa. parse_socket_addr ns = Ok sa) (nameserver_list c) sas
        \<and> list_all2 (\<lambda>d nm. parse_name api d = Ok nm) (search c) nms
        \<and> cfg = foldl (add_search api) (foldl (add_name_server api) (new_config api) sas) nms
        \<and> opts = (case ndots c of None \<Rightarrow> default_opts api
                   | Some n \<Rightarrow> set_ndots api (default_opts api) n))) \<and>
   into_resolver_config api \<lparr>nameservers = Some (show_ip (V4 a) # nss), search = doms, ndots = nd\<rparr>
     = Err (Context ''Invalid nameserver address'' (Addr_Parse ''invalid socket address syntax''))"
proof -
  have "CHR ''['' # xs \<noteq> show_ipv4 a" for xs
  proof
    assume "CHR ''['' # xs = show_ipv4 a"
    moreover have "CHR ''['' \<notin> set (show_ipv4 a)"
      by (cases a) (auto simp: bracket_not_mem)
    ultimately show False by (metis list.set_intros(1))
  qed
  then have "read_given_char CHR ''['' (show_ipv4 a) = None"
    by (cases "show_ipv4 a") auto
  then have "parse_socket_addr (show_ipv4 a) = Err (Addr_Parse ''invalid socket address syntax'')"
    using read_ipv4_show [of "[]" a]
    by (simp add: parse_socket_addr_def parse_with_def read_socket_addr_def read_socket_addr_v4_def
        read_socket_addr_v6_def read_port_def)
  then have "into_resolver_config api \<lparr>nameservers = Some (show_ip (V4 a) # nss), search = doms, ndots = nd\<rparr>
     = Err (Context ''Invalid nameserver address'' (Addr_Parse ''invalid socket address syntax''))"
    by (simp add: into_resolver_config_def)
  with into_resolver_config_eq_Ok show ?thesis by (rule conjI)
qed

end
