(* ===== verification/Discovery.thy ===== *)
theory Discovery
  imports Backend Config
begin

text \<open>
  \<open>balance/discovery.rs\<close>: the \<open>ServiceDiscovery\<close> trait as the locale
  \<open>service_discovery\<close>, and its two implementations. \<open>LocalDiscovery\<close> holds an
  \<open>ArcSwap\<close> cell; \<open>load_full\<close> reads it, \<open>store\<close> replaces it and \<open>rcu\<close> applies its
  closure to the current value and installs the result atomically, which is what that crate
  documents. The DNS resolver is a parameter: \<open>lookup_ip\<close> answers a host name with addresses
  or an error.
\<close>

section \<open>The trait\<close>

locale service_discovery =
  fixes discover :: "'d \<Rightarrow> backend btree_set outcome"
    and wf :: "'d \<Rightarrow> bool"
  assumes discover_ascending: "wf d \<Longrightarrow> discover d = Ok bs \<Longrightarrow> bt_ok bs"
    and discover_unit_weights: "wf d \<Longrightarrow> discover d = Ok bs \<Longrightarrow> unit_weights bs"
begin

lemma discover_distinct: "wf d \<Longrightarrow> discover d = Ok bs \<Longrightarrow> distinct bs"
  by (auto dest: discover_ascending)

lemma discover_distinct_addrs:
  "wf d \<Longrightarrow> discover d = Ok bs \<Longrightarrow> distinct (map addr bs)"
  by (simp add: distinct_map discover_distinct discover_unit_weights unit_weights_addr_inj)

lemma discover_determined:
  assumes "wf d" "wf e" "discover d = Ok bs" "discover e = Ok cs" "addr ` set bs = addr ` set cs"
  shows "bs = cs"
  using assms
  by (intro unit_weights_determined) (auto dest: discover_ascending discover_unit_weights)

end

text \<open>A discovery that reports an empty answer as an error.\<close>

locale nonempty_discovery = service_discovery +
  assumes discover_nonempty: "wf d \<Longrightarrow> discover d = Ok bs \<Longrightarrow> bs \<noteq> []"

section \<open>LocalDiscovery\<close>

record local_discovery =
  local_backends :: "backend btree_set"

definition local_default :: local_discovery where
  "local_default = \<lparr>local_backends = []\<rparr>"

definition with_backends :: "socket_addr list \<Rightarrow> local_discovery" where
  "with_backends addrs =
     \<lparr>local_backends = bt_collect (map (\<lambda>a. backend_new a 1) addrs)\<rparr>"

definition add_backend :: "socket_addr \<Rightarrow> local_discovery \<Rightarrow> local_discovery" where
  "add_backend a d = d\<lparr>local_backends := bt_insert (backend_new a 1) (local_backends d)\<rparr>"

definition remove_backend :: "socket_addr \<Rightarrow> local_discovery \<Rightarrow> local_discovery" where
  "remove_backend a d =
     d\<lparr>local_backends := bt_retain (\<lambda>b. addr b \<noteq> a) (local_backends d)\<rparr>"

definition set_backends :: "socket_addr list \<Rightarrow> local_discovery \<Rightarrow> local_discovery" where
  "set_backends addrs d =
     d\<lparr>local_backends := bt_collect (map (\<lambda>a. backend_new a 1) addrs)\<rparr>"

definition clear_backends :: "local_discovery \<Rightarrow> local_discovery" where
  "clear_backends d = d\<lparr>local_backends := []\<rparr>"

definition local_discover :: "local_discovery \<Rightarrow> backend btree_set outcome" where
  "local_discover d = Ok (local_backends d)"

definition local_ok :: "local_discovery \<Rightarrow> bool" where
  "local_ok d \<longleftrightarrow> bt_ok (local_backends d) \<and> unit_weights (local_backends d)"

named_theorems local_defs \<open>the operations of \<open>LocalDiscovery\<close>\<close>

declare local_default_def [local_defs] with_backends_def [local_defs] add_backend_def [local_defs]
  remove_backend_def [local_defs] set_backends_def [local_defs] clear_backends_def [local_defs]
  local_discover_def [local_defs]

lemma local_ok_ops [intro, simp]:
  "local_ok local_default"
  "local_ok (with_backends addrs)"
  "local_ok d \<Longrightarrow> local_ok (add_backend a d)"
  "local_ok d \<Longrightarrow> local_ok (remove_backend a d)"
  "local_ok (set_backends addrs d)"
  "local_ok (clear_backends d)"
  by (auto simp: local_ok_def local_defs unit_weights_def)

interpretation local_disc: service_discovery local_discover local_ok
  by unfold_locales (auto simp: local_ok_def local_discover_def)

text \<open>The operations as commands, and the set of addresses they stand for.\<close>

datatype local_op =
    Add_Backend socket_addr
  | Remove_Backend socket_addr
  | Set_Backends "socket_addr list"
  | Clear_Backends

fun local_step :: "local_op \<Rightarrow> local_discovery \<Rightarrow> local_discovery" where
  "local_step (Add_Backend a) d = add_backend a d"
| "local_step (Remove_Backend a) d = remove_backend a d"
| "local_step (Set_Backends addrs) d = set_backends addrs d"
| "local_step Clear_Backends d = clear_backends d"

fun addr_step :: "local_op \<Rightarrow> socket_addr set \<Rightarrow> socket_addr set" where
  "addr_step (Add_Backend a) A = insert a A"
| "addr_step (Remove_Backend a) A = A - {a}"
| "addr_step (Set_Backends addrs) A = set addrs"
| "addr_step Clear_Backends A = {}"

definition abs_addrs :: "local_discovery \<Rightarrow> socket_addr set" where
  "abs_addrs d = addr ` set (local_backends d)"

lemma local_step_ok: "local_ok d \<Longrightarrow> local_ok (local_step opn d)"
  by (cases opn) auto

lemma local_step_refines: "abs_addrs (local_step opn d) = addr_step opn (abs_addrs d)"
  by (cases opn) (auto simp: abs_addrs_def local_defs image_image)

lemma local_run_ok: "local_ok d \<Longrightarrow> local_ok (fold local_step ops d)"
  by (induction ops arbitrary: d) (auto intro: local_step_ok)

lemma local_run_refines: "abs_addrs (fold local_step ops d) = fold addr_step ops (abs_addrs d)"
  by (induction ops arbitrary: d) (auto simp: local_step_refines)

lemma abs_addrs_with [simp]: "abs_addrs (with_backends addrs) = set addrs"
  by (auto simp: abs_addrs_def local_defs image_image)

text \<open>The address set determines the whole state, so the abstraction loses nothing.\<close>

lemma abs_addrs_inj: "local_ok d \<Longrightarrow> local_ok e \<Longrightarrow> abs_addrs d = abs_addrs e \<Longrightarrow> d = e"
  using local_disc.discover_determined [of d e "local_backends d" "local_backends e"]
  by (intro local_discovery.equality) (simp_all add: local_discover_def abs_addrs_def)

section \<open>DnsDiscovery\<close>

record 'r dns_discovery =
  resolver :: 'r
  hostname :: string
  dns_port :: u16

type_synonym 'r lookup_ip = "'r \<Rightarrow> string \<Rightarrow> ip_addr list outcome"

text \<open>
  \<open>DnsDiscovery::new\<close>. The two constructors of \<open>TokioAsyncResolver\<close> are parameters:
  \<open>from_cfg\<close> builds one from a configuration, \<open>from_system\<close> from the system's and may fail.
\<close>

definition dns_new ::
  "('cfg, 'opts, 'nm) resolver_api \<Rightarrow> ('cfg \<times> 'opts \<Rightarrow> 'r) \<Rightarrow> 'r outcome
    \<Rightarrow> string \<Rightarrow> u16 \<Rightarrow> dns_config option \<Rightarrow> 'r dns_discovery outcome" where
  "dns_new api from_cfg from_system host p cfg =
     and_then
       (case cfg of
          Some c \<Rightarrow> and_then (into_resolver_config api c) (\<lambda>co. Ok (from_cfg co))
        | None \<Rightarrow> from_system)
       (\<lambda>r. Ok \<lparr>resolver = r, hostname = host, dns_port = p\<rparr>)"

definition dns_discover ::
  "'r lookup_ip \<Rightarrow> 'r dns_discovery \<Rightarrow> backend btree_set outcome" where
  "dns_discover lookup_ip d =
     and_then (lookup_ip (resolver d) (hostname d)) (\<lambda>ips.
       let bs = bt_collect (map (\<lambda>ip. backend_new (socket_new ip (dns_port d)) 1) ips)
       in if bs = [] then Err (Msg ''No backends found'') else Ok bs)"

lemma dns_discover_eq_Ok:
  "dns_discover lookup_ip d = Ok bs \<longleftrightarrow>
     (\<exists>ips. lookup_ip (resolver d) (hostname d) = Ok ips \<and> ips \<noteq> [] \<and>
        bs = bt_collect (map (\<lambda>ip. backend_new (socket_new ip (dns_port d)) 1) ips))"
  by (auto simp: dns_discover_def and_then_eq_Ok Let_def)

interpretation dns_disc: nonempty_discovery "dns_discover lookup_ip" "\<lambda>_. True" for lookup_ip
  by unfold_locales (auto simp: dns_discover_eq_Ok unit_weights_def)

section \<open>Box<dyn ServiceDiscovery>\<close>

datatype 'r discovery = Dns_Discovery "'r dns_discovery" | Local_Discovery local_discovery

fun discover :: "'r lookup_ip \<Rightarrow> 'r discovery \<Rightarrow> backend btree_set outcome" where
  "discover lookup_ip (Dns_Discovery d) = dns_discover lookup_ip d"
| "discover lookup_ip (Local_Discovery d) = local_discover d"

fun discovery_ok :: "'r discovery \<Rightarrow> bool" where
  "discovery_ok (Dns_Discovery d) = True"
| "discovery_ok (Local_Discovery d) = local_ok d"

interpretation dyn_disc: service_discovery "discover lookup_ip" discovery_ok for lookup_ip
proof unfold_locales
  fix d :: "'a discovery" and bs
  assume ok: "discovery_ok d" and bs: "discover lookup_ip d = Ok bs"
  show "bt_ok bs"
    using ok bs by (cases d) (auto intro: dns_disc.discover_ascending local_disc.discover_ascending)
  show "unit_weights bs"
    using ok bs
    by (cases d) (auto intro: dns_disc.discover_unit_weights local_disc.discover_unit_weights)
qed

section \<open>Properties\<close>

text \<open>
  C20. Refinement of local discovery: after any sequence of operations, discovery answers the
  strictly ascending list of weight 1 backends whose addresses are the ones the same sequence
  gives on plain sets; two states with the same addresses are equal.
\<close>

theorem local_discovery_refines:
  "\<exists>bs. local_discover (fold local_step ops (with_backends addrs)) = Ok bs \<and>
     sorted_wrt (<) bs \<and> unit_weights bs \<and> addr ` set bs = fold addr_step ops (set addrs) \<and>
     (fold addr_step ops (set addrs) = set addrs' \<longleftrightarrow>
        fold local_step ops (with_backends addrs) = with_backends addrs')"
proof -
  let ?d = "fold local_step ops (with_backends addrs)"
  have ok: "local_ok ?d" by (rule local_run_ok) simp
  have abs: "abs_addrs ?d = fold addr_step ops (set addrs)" by (simp add: local_run_refines)
  have "abs_addrs ?d = set addrs' \<longleftrightarrow> ?d = with_backends addrs'"
    using abs_addrs_inj [OF ok, of "with_backends addrs'"] by auto
  with ok abs show ?thesis
    by (auto simp: local_discover_def local_ok_def bt_ok_def abs_addrs_def)
qed

text \<open>
  C24. DNS discovery of a host that resolves answers the one ascending list of weight 1 backends
  whose addresses are the resolved ones with the configured port; it is an error exactly when
  nothing was resolved.
\<close>

theorem dns_discovery_characterised:
  assumes "lookup_ip (resolver d) (hostname d) = Ok ips"
  shows "(dns_discover lookup_ip d = Ok bs \<longleftrightarrow>
      ips \<noteq> [] \<and> sorted_wrt (<) bs \<and> unit_weights bs \<and>
      addr ` set bs = (\<lambda>ip. socket_new ip (dns_port d)) ` set ips) \<and>
    (dns_discover lookup_ip d = Err (Msg ''No backends found'') \<longleftrightarrow> ips = [])"
proof -
  let ?bs = "bt_collect (map (\<lambda>ip. backend_new (socket_new ip (dns_port d)) 1) ips)"
  have u: "unit_weights ?bs" by (simp add: unit_weights_def)
  have a: "addr ` set ?bs = (\<lambda>ip. socket_new ip (dns_port d)) ` set ips"
    by (simp add: image_image)
  have "dns_discover lookup_ip d = Ok bs \<longleftrightarrow> ips \<noteq> [] \<and> bs = ?bs"
    using assms by (auto simp: dns_discover_eq_Ok)
  moreover have "bs = ?bs \<longleftrightarrow> bt_ok bs \<and> unit_weights bs \<and>
      addr ` set bs = (\<lambda>ip. socket_new ip (dns_port d)) ` set ips"
    using u a unit_weights_determined [of bs ?bs] by auto
  moreover have "dns_discover lookup_ip d = Err (Msg ''No backends found'') \<longleftrightarrow> ips = []"
    using assms by (simp add: dns_discover_def Let_def)
  ultimately show ?thesis by (simp add: bt_ok_def)
qed

theorem dns_discovery_characterised_witness:
  "dns_discover (\<lambda>_ _. Ok [V4 (Ipv4Addr 10 0 0 2), V4 (Ipv4Addr 10 0 0 1), V4 (Ipv4Addr 10 0 0 2)])
     \<lparr>resolver = (), hostname = ''backend'', dns_port = 80\<rparr> = Ok [sample_backend 1, sample_backend 2]"
  by (subst dns_discovery_characterised [THEN conjunct1, OF refl])
    (auto simp: sample_addr_def)

end
