(* ===== verification/Selection.thy ===== *)
theory Selection
  imports Backend
begin

text \<open>
  \<open>balance/selection.rs\<close>: the \<open>SelectionAlgorithm\<close> trait as two locales and its five
  implementations. \<open>select\<close> takes the build profile (the sum of the weights is checked in a
  debug build), the random number generator's answer to \<open>gen_range(0..n)\<close> for every \<open>n\<close>,
  the algorithm's own state and the backends in iteration order; it gives what the call returns
  and the new state. An \<open>AtomicUsize\<close> is its value, \<open>fetch_add\<close> wraps round.
\<close>

section \<open>The trait\<close>

type_synonym rng = "usize \<Rightarrow> usize"

text \<open>What \<open>rand\<close> documents of \<open>gen_range\<close> on a range that is not empty.\<close>

definition rng_ok :: "rng \<Rightarrow> bool" where
  "rng_ok draw \<longleftrightarrow> (\<forall>n. 0 < n \<longrightarrow> draw n < n)"

type_synonym 'st select_fn =
  "build_profile \<Rightarrow> rng \<Rightarrow> 'st \<Rightarrow> backend btree_set \<Rightarrow> backend option outcome \<times> 'st"

text \<open>Sizes the machine can represent: \<open>len()\<close> of a set is a \<open>usize\<close>.\<close>

definition fits_usize :: "'a list \<Rightarrow> bool" where
  "fits_usize xs \<longleftrightarrow> length xs < 2 ^ 64"

locale selection_algorithm =
  fixes select :: "'st select_fn"
    and ok :: "'st \<Rightarrow> bool"
  assumes select_mem:
      "rng_ok draw \<Longrightarrow> ok st \<Longrightarrow> fits_usize bs \<Longrightarrow>
         select prof draw st bs = (Ok (Some b), st') \<Longrightarrow> b \<in> set bs"
    and select_not_Err: "ok st \<Longrightarrow> fst (select prof draw st bs) \<noteq> Err e"
    and select_empty: "ok st \<Longrightarrow> fst (select prof draw st []) = Ok None"
    and select_ok: "ok st \<Longrightarrow> ok (snd (select prof draw st bs))"
begin

lemma select_result:
  assumes "rng_ok draw" "ok st" "fits_usize bs"
  shows "fst (select prof draw st bs) \<in> Ok ` (insert None (Some ` set bs)) \<union> range Panic"
proof (cases "select prof draw st bs")
  case (Pair r st')
  show ?thesis
  proof (cases r)
    case (Ok ob)
    then show ?thesis using select_mem [OF assms, of prof] Pair by (cases ob) auto
  next
    case (Err e)
    then show ?thesis using select_not_Err [OF assms(2), of prof draw bs e] Pair by simp
  qed (use Pair in simp)
qed

end

text \<open>An algorithm that always finds a backend among backends of weight 1.\<close>

locale total_selection = selection_algorithm +
  assumes select_total:
    "rng_ok draw \<Longrightarrow> ok st \<Longrightarrow> fits_usize bs \<Longrightarrow> unit_weights bs \<Longrightarrow> bs \<noteq> [] \<Longrightarrow>
       \<exists>b. fst (select prof draw st bs) = Ok (Some b)"
begin

lemma select_some_iff:
  assumes "rng_ok draw" "ok st" "fits_usize bs" "unit_weights bs"
  shows "(\<exists>b\<in>set bs. fst (select prof draw st bs) = Ok (Some b)) \<longleftrightarrow> bs \<noteq> []"
proof
  assume "bs \<noteq> []"
  then obtain b where b: "fst (select prof draw st bs) = Ok (Some b)"
    using select_total assms by blast
  then have "b \<in> set bs"
    using select_mem [OF assms(1-3), of prof b "snd (select prof draw st bs)"]
    by (metis prod.collapse)
  with b show "\<exists>b\<in>set bs. fst (select prof draw st bs) = Ok (Some b)" by blast
qed auto

lemma select_never_panics:
  assumes "rng_ok draw" "ok st" "fits_usize bs" "unit_weights bs"
  shows "\<not> is_panic (fst (select prof draw st bs))"
  using select_total [OF assms, of prof] select_empty [OF assms(2), of prof draw]
  by (cases "bs = []") auto

end

section \<open>RoundRobin\<close>

record round_robin =
  rr_index :: usize

definition rr_default :: round_robin where
  "rr_default = \<lparr>rr_index = 0\<rparr>"

definition rr_select :: "round_robin \<Rightarrow> backend btree_set \<Rightarrow> backend option \<times> round_robin" where
  "rr_select st bs =
     (if length bs = 0 then (None, st)
      else (nth_opt bs (unat (rr_index st) mod length bs), st\<lparr>rr_index := rr_index st + 1\<rparr>))"

section \<open>WeightedRoundRobin\<close>

record weighted_round_robin =
  wrr_index :: usize

definition wrr_default :: weighted_round_robin where
  "wrr_default = \<lparr>wrr_index = 0\<rparr>"

text \<open>The loop over the backends, subtracting the weight of each backend passed over.\<close>

fun wrr_scan :: "usize \<Rightarrow> backend btree_set \<Rightarrow> backend option" where
  "wrr_scan index [] = None"
| "wrr_scan index (b # bs) = (if index < weight b then Some b else wrr_scan (index - weight b) bs)"

definition wrr_select ::
  "build_profile \<Rightarrow> weighted_round_robin \<Rightarrow> backend btree_set
    \<Rightarrow> backend option outcome \<times> weighted_round_robin" where
  "wrr_select prof st bs =
     (case usize_sum prof (map weight bs) of
        Err e \<Rightarrow> (Err e, st)
      | Panic p \<Rightarrow> (Panic p, st)
      | Ok total_weight \<Rightarrow>
          if total_weight = 0 then (Ok None, st)
          else (Ok (wrr_scan (wrr_index st mod total_weight) bs),
                st\<lparr>wrr_index := wrr_index st + 1\<rparr>))"

section \<open>LeastConnections\<close>

record least_connections =
  connections :: "socket_addr \<rightharpoonup> usize"

definition lc_default :: least_connections where
  "lc_default = \<lparr>connections = Map.empty\<rparr>"

definition conn_count :: "least_connections \<Rightarrow> socket_addr \<Rightarrow> usize" where
  "conn_count st a = (case connections st a of Some n \<Rightarrow> n | None \<Rightarrow> 0)"

definition lc_increment ::
  "build_profile \<Rightarrow> socket_addr \<Rightarrow> least_connections \<Rightarrow> least_connections outcome" where
  "lc_increment prof a st =
     and_then (usize_add prof (conn_count st a) 1) (\<lambda>n.
       Ok (st\<lparr>connections := (connections st)(a \<mapsto> n)\<rparr>))"

definition lc_decrement :: "socket_addr \<Rightarrow> least_connections \<Rightarrow> least_connections" where
  "lc_decrement a st =
     (case connections st a of
        Some n \<Rightarrow> if 0 < n then st\<lparr>connections := (connections st)(a \<mapsto> n - 1)\<rparr> else st
      | None \<Rightarrow> st)"

definition lc_select :: "least_connections \<Rightarrow> backend btree_set \<Rightarrow> backend option" where
  "lc_select st bs = min_by_key (\<lambda>b. conn_count st (addr b)) bs"

section \<open>Random\<close>

definition random_select :: "rng \<Rightarrow> backend btree_set \<Rightarrow> backend option" where
  "random_select draw bs =
     (if bs = [] then None else nth_opt bs (unat (draw (of_nat (length bs)))))"

section \<open>ConsistentHashing\<close>

record consistent_hashing =
  virtual_nodes :: usize

definition ch_new :: "usize \<Rightarrow> consistent_hashing" where
  "ch_new n = \<lparr>virtual_nodes = n\<rparr>"

text \<open>\<open>hash\<close> feeds a value to a \<open>DefaultHasher\<close>, as \<open>hash_key\<close> does.\<close>

definition ch_hash :: "(u8 list \<Rightarrow> u64) \<Rightarrow> ('a \<Rightarrow> u8 list) \<Rightarrow> 'a \<Rightarrow> u64" where
  "ch_hash finish feed t = finish (feed t)"

definition ch_select :: "consistent_hashing \<Rightarrow> backend btree_set \<Rightarrow> backend option outcome" where
  "ch_select st bs = Panic ''not yet implemented''"

section \<open>Arc<dyn SelectionAlgorithm>\<close>

datatype selector =
    Sel_Round_Robin round_robin
  | Sel_Weighted weighted_round_robin
  | Sel_Least_Conn least_connections
  | Sel_Random
  | Sel_Consistent consistent_hashing

fun selector_select :: "selector select_fn" where
  "selector_select prof draw (Sel_Round_Robin st) bs =
     (let (r, st') = rr_select st bs in (Ok r, Sel_Round_Robin st'))"
| "selector_select prof draw (Sel_Weighted st) bs =
     (let (r, st') = wrr_select prof st bs in (r, Sel_Weighted st'))"
| "selector_select prof draw (Sel_Least_Conn st) bs = (Ok (lc_select st bs), Sel_Least_Conn st)"
| "selector_select prof draw Sel_Random bs = (Ok (random_select draw bs), Sel_Random)"
| "selector_select prof draw (Sel_Consistent st) bs = (ch_select st bs, Sel_Consistent st)"

text \<open>The algorithms \<open>create_selector\<close> can build.\<close>

fun implemented :: "selector \<Rightarrow> bool" where
  "implemented (Sel_Consistent st) = False"
| "implemented _ = True"

end
