(* ===== verification/Selection_Facts.thy ===== *)
theory Selection_Facts
  imports Selection
begin

text \<open>
  What the selection algorithms do: each is an instance of \<open>selection_algorithm\<close> (all but
  consistent hashing of \<open>total_selection\<close>), the rotation of round robin, weighted round robin
  as round robin over the expanded list, and the counters of least connections.
\<close>

section \<open>Repeated calls\<close>

fun calls :: "('st \<Rightarrow> 'r \<times> 'st) \<Rightarrow> nat \<Rightarrow> 'st \<Rightarrow> 'r list \<times> 'st" where
  "calls f 0 st = ([], st)"
| "calls f (Suc n) st = (let (r, st1) = f st; (rs, st2) = calls f n st1 in (r # rs, st2))"

lemma calls_counter:
  assumes "\<And>st. f st = (g (unat (ix st)), nxt st)" "\<And>st. ix (nxt st) = (ix st :: usize) + 1"
  shows "fst (calls f m st) = map (\<lambda>j. g ((unat (ix st) + j) mod 2 ^ 64)) [0..<m]"
proof (induction m arbitrary: st)
  case 0
  then show ?case by simp
next
  case (Suc m)
  have nxt: "unat (ix (nxt st)) = Suc (unat (ix st)) mod 2 ^ 64"
    by (simp add: assms(2) unat_word_ariths)
  have "fst (calls f (Suc m) st) = g (unat (ix st)) # fst (calls f m (nxt st))"
    by (simp add: assms(1) case_prod_unfold Let_def)
  also have "\<dots> = g (unat (ix st)) # map (\<lambda>j. g ((unat (ix st) + Suc j) mod 2 ^ 64)) [0..<m]"
    by (simp add: Suc.IH nxt mod_add_left_eq)
  also have "\<dots> = map (\<lambda>j. g ((unat (ix st) + j) mod 2 ^ 64)) [0..<Suc m]"
    unfolding upt_conv_Cons [OF zero_less_Suc] map_Suc_upt [symmetric]
    using unat_usize [of "ix st"] by simp
  finally show ?case .
qed

text \<open>
  A full number of turns of a counter modulo \<open>n\<close> visits each index equally often, if the
  counter does not wrap on the way or wrapping does no harm because \<open>n\<close> divides its range.
\<close>

definition no_harmful_wrap :: "usize \<Rightarrow> nat \<Rightarrow> nat \<Rightarrow> bool" where
  "no_harmful_wrap index n m \<longleftrightarrow> unat index + m \<le> 2 ^ 64 \<or> n dvd 2 ^ 64"

lemma cyclic_index:
  assumes "no_harmful_wrap index n m" "j < m"
  shows "(unat index + j) mod 2 ^ 64 mod n = (unat index + j) mod n"
  using assms by (auto simp: no_harmful_wrap_def mod_mod_cancel)

lemma count_list_Some:
  "count_list (map (\<lambda>j. Some (f j)) js) (Some y) = count_list (map f js) y"
  "count_list (map (\<lambda>j. Ok (Some (f j))) js) (Ok (Some y)) = count_list (map f js) y"
  by (induction js) auto

section \<open>Round robin\<close>

lemma rr_select_nonempty:
  "bs \<noteq> [] \<Longrightarrow> rr_select st bs =
     (Some (bs ! (unat (rr_index st) mod length bs)), st\<lparr>rr_index := rr_index st + 1\<rparr>)"
  by (simp add: rr_select_def nth_opt_def)

lemma rr_calls:
  assumes "bs \<noteq> []"
  shows "fst (calls (\<lambda>s. rr_select s bs) m st) =
    map (\<lambda>j. Some (bs ! ((unat (rr_index st) + j) mod 2 ^ 64 mod length bs))) [0..<m]"
  by (rule calls_counter [where nxt = "\<lambda>s. s\<lparr>rr_index := rr_index s + 1\<rparr>"])
    (simp_all add: rr_select_nonempty [OF assms])

lemma rr_calls_count:
  assumes bs: "bs \<noteq> []" and wrap: "no_harmful_wrap (rr_index st) (length bs) (k * length bs)"
  shows "count_list (fst (calls (\<lambda>s. rr_select s bs) (k * length bs) st)) (Some b)
           = k * count_list bs b"
proof -
  have "fst (calls (\<lambda>s. rr_select s bs) (k * length bs) st)
      = map (\<lambda>j. Some (bs ! ((unat (rr_index st) + j) mod length bs))) [0..<k * length bs]"
    unfolding rr_calls [OF bs] by (rule map_cong) (auto simp: cyclic_index [OF wrap, simplified])
  then show ?thesis using bs by (simp add: count_list_Some count_list_cyclic)
qed

section \<open>Weighted round robin\<close>

text \<open>Each backend repeated as often as its weight says.\<close>

definition expanded :: "backend btree_set \<Rightarrow> backend list" where
  "expanded bs = concat (map (\<lambda>b. replicate (unat (weight b)) b) bs)"

definition total_weight :: "backend btree_set \<Rightarrow> nat" where
  "total_weight bs = sum_list (map (\<lambda>b. unat (weight b)) bs)"

lemma length_expanded: "length (expanded bs) = total_weight bs"
  by (induction bs) (auto simp: expanded_def total_weight_def)

lemma wrr_scan_expanded: "wrr_scan i bs = nth_opt (expanded bs) (unat i)"
proof (induction bs arbitrary: i)
  case Nil
  then show ?case by (simp add: expanded_def nth_opt_def)
next
  case (Cons b bs)
  show ?case
  proof (cases "i < weight b")
    case True
    then show ?thesis
      by (simp add: expanded_def nth_opt_def nth_append word_less_nat_alt)
  next
    case False
    then have "unat (i - weight b) = unat i - unat (weight b)" "unat (weight b) \<le> unat i"
      by (simp_all add: unat_sub word_le_nat_alt not_less)
    with False Cons show ?thesis
      by (auto simp: expanded_def nth_opt_def nth_append)
  qed
qed

lemma wrr_sum: "total_weight bs < 2 ^ 64 \<Longrightarrow>
    \<exists>t. usize_sum prof (map weight bs) = Ok t \<and> unat t = total_weight bs"
  using usize_sum_fits [of "map weight bs" prof] by (simp add: total_weight_def comp_def)

lemma wrr_select_eq:
  assumes "total_weight bs < 2 ^ 64" "0 < total_weight bs"
  shows "wrr_select prof st bs =
    (Ok (Some (expanded bs ! (unat (wrr_index st) mod total_weight bs))),
     st\<lparr>wrr_index := wrr_index st + 1\<rparr>)"
proof -
  obtain t where t: "usize_sum prof (map weight bs) = Ok t" "unat t = total_weight bs"
    using wrr_sum assms by blast
  then have "t \<noteq> 0" using assms by auto
  with t assms show ?thesis
    by (simp add: wrr_select_def wrr_scan_expanded nth_opt_def length_expanded unat_mod)
qed

lemma wrr_calls_count:
  assumes w: "total_weight bs < 2 ^ 64" "0 < total_weight bs"
    and wrap: "no_harmful_wrap (wrr_index st) (total_weight bs) (k * total_weight bs)"
  shows "count_list (fst (calls (\<lambda>s. wrr_select prof s bs) (k * total_weight bs) st)) (Ok (Some b))
           = k * count_list (expanded bs) b"
proof -
  let ?n = "total_weight bs"
  have "fst (calls (\<lambda>s. wrr_select prof s bs) (k * ?n) st)
      = map (\<lambda>j. Ok (Some (expanded bs ! ((unat (wrr_index st) + j) mod 2 ^ 64 mod ?n))))
          [0..<k * ?n]"
    by (rule calls_counter [where nxt = "\<lambda>s. s\<lparr>wrr_index := wrr_index s + 1\<rparr>"])
      (simp_all add: wrr_select_eq [OF w])
  also have "\<dots> = map (\<lambda>j. Ok (Some (expanded bs ! ((unat (wrr_index st) + j) mod ?n)))) [0..<k * ?n]"
    by (rule map_cong) (auto simp: cyclic_index [OF wrap, simplified])
  finally show ?thesis
    using count_list_cyclic [of "expanded bs" "unat (wrr_index st)" k b] w
    by (simp add: count_list_Some length_expanded)
qed

lemma count_replicate [simp]: "count_list (replicate n y) x = (if y = x then n else 0)"
  by (induction n) auto

lemma count_expanded:
  "distinct bs \<Longrightarrow> count_list (expanded bs) b = (if b \<in> set bs then unat (weight b) else 0)"
  by (induction bs) (auto simp: expanded_def)

lemma expanded_unit [simp]: "unit_weights bs \<Longrightarrow> expanded bs = bs"
  by (induction bs) (auto simp: expanded_def)

lemma total_weight_unit [simp]: "unit_weights bs \<Longrightarrow> total_weight bs = length bs"
  by (induction bs) (auto simp: total_weight_def)

section \<open>Least connections\<close>

lemma conn_count_default [simp]: "conn_count lc_default a = 0"
  by (simp add: conn_count_def lc_default_def)

lemma lc_increment_count:
  "lc_increment prof a st = Ok st' \<Longrightarrow>
     conn_count st' b = (if b = a then conn_count st a + 1 else conn_count st b)"
  by (auto simp: lc_increment_def and_then_eq_Ok usize_add_def conn_count_def
      split: if_splits build_profile.splits)

lemma lc_increment_fits:
  "unat (conn_count st a) + 1 < 2 ^ 64 \<Longrightarrow> \<exists>st'. lc_increment prof a st = Ok st'"
  by (simp add: lc_increment_def usize_add_fits)

lemma lc_decrement_count:
  "conn_count (lc_decrement a st) b =
     (if b = a \<and> 0 < conn_count st a then conn_count st a - 1 else conn_count st b)"
  by (auto simp: lc_decrement_def conn_count_def split: option.splits)

lemma lc_decrement_unat:
  "unat (conn_count (lc_decrement a st) b) =
     unat (conn_count st b) - (if b = a then 1 else 0)"
proof (cases "b = a \<and> 0 < conn_count st a")
  case True
  then have "1 \<le> conn_count st a" by (simp add: word_less_nat_alt word_le_nat_alt)
  with True show ?thesis by (simp add: lc_decrement_count unat_sub)
next
  case False
  then show ?thesis by (auto simp: lc_decrement_count word_less_nat_alt)
qed

text \<open>A history of connections to backends, and what the counters should say after it.\<close>

datatype conn_event = Opened socket_addr | Closed socket_addr

fun lc_event :: "build_profile \<Rightarrow> least_connections \<Rightarrow> conn_event \<Rightarrow> least_connections outcome" where
  "lc_event prof st (Opened a) = lc_increment prof a st"
| "lc_event prof st (Closed a) = Ok (lc_decrement a st)"

fun open_step :: "(socket_addr \<Rightarrow> nat) \<Rightarrow> conn_event \<Rightarrow> socket_addr \<Rightarrow> nat" where
  "open_step n (Opened a) = n(a := n a + 1)"
| "open_step n (Closed a) = n(a := n a - 1)"

lemma lc_event_step:
  assumes "unat (conn_count st a) + 1 < 2 ^ 64" "\<And>b. unat (conn_count st b) = n b"
    and "ev = Opened a \<or> ev = Closed a"
  shows "\<exists>st'. lc_event prof st ev = Ok st' \<and> (\<forall>b. unat (conn_count st' b) = open_step n ev b)"
  using assms(3)
proof
  assume ev: "ev = Opened a"
  obtain st' where st': "lc_increment prof a st = Ok st'"
    using lc_increment_fits assms(1) by blast
  have "unat (conn_count st a + 1) = unat (conn_count st a) + 1"
    using unat_add_fits [of "conn_count st a" 1] assms(1) by simp
  with ev st' assms(2) show ?thesis
    by (auto simp: lc_increment_count [OF st'])
next
  assume "ev = Closed a"
  then show ?thesis using assms(2) by (simp add: lc_decrement_unat)
qed

lemma lc_run_counts:
  assumes "\<And>b. unat (conn_count st b) = n b" "\<And>b. n b + length evs < 2 ^ 64"
  shows "\<exists>st'. try_fold (lc_event prof) st evs = Ok st' \<and>
           (\<forall>b. unat (conn_count st' b) = foldl open_step n evs b)"
  using assms
proof (induction evs arbitrary: st n)
  case Nil
  then show ?case by simp
next
  case (Cons ev evs)
  obtain a where a: "ev = Opened a \<or> ev = Closed a" by (cases ev) auto
  have "unat (conn_count st a) + 1 < 2 ^ 64" using Cons.prems(1) [of a] Cons.prems(2) [of a] by simp
  from lc_event_step [OF this Cons.prems(1) a]
  obtain st' where st': "lc_event prof st ev = Ok st'"
    "\<And>b. unat (conn_count st' b) = open_step n ev b" by blast
  have "open_step n ev b + length evs < 2 ^ 64" for b
    using Cons.prems(2) [of b] a by auto
  from Cons.IH [of st' "open_step n ev", OF st'(2) this] st'(1) show ?case by simp
qed

lemma lc_select_unused:
  assumes "\<And>b. b \<in> set bs \<Longrightarrow> conn_count st (addr b) = 0"
  shows "lc_select st bs = (case bs of [] \<Rightarrow> None | b # _ \<Rightarrow> Some b)"
  unfolding lc_select_def by (rule min_by_key_const) (rule assms)

section \<open>The algorithms as instances of the interface\<close>

interpretation rr: total_selection "\<lambda>prof draw st bs. (Ok (fst (rr_select st bs)), snd (rr_select st bs))"
    "\<lambda>_. True"
  by unfold_locales (auto simp: rr_select_def nth_opt_def split: if_splits)

interpretation wrr: total_selection "\<lambda>prof draw st bs. wrr_select prof st bs" "\<lambda>_. True"
proof unfold_locales
  fix draw :: rng and st st' prof b and bs :: "backend btree_set"
  have mem: "nth_opt (expanded bs) i = Some b \<Longrightarrow> b \<in> set bs" for i
    by (drule nth_opt_mem) (auto simp: expanded_def)
  show "wrr_select prof st bs = (Ok (Some b), st') \<Longrightarrow> b \<in> set bs"
    by (auto simp: wrr_select_def wrr_scan_expanded simp del: nth_opt_Some_iff
        split: outcome.splits if_splits dest: mem)
next
  fix st prof e and bs :: "backend btree_set"
  have "try_fold (usize_add prof) a ws \<noteq> Err e" for a ws
    by (induction ws arbitrary: a)
      (auto simp: and_then_eq_Err usize_add_def split: build_profile.splits if_splits)
  then show "fst (wrr_select prof st bs) \<noteq> Err e"
    by (auto simp: wrr_select_def usize_sum_def split: outcome.splits)
next
  fix st prof
  show "fst (wrr_select prof st []) = Ok None"
    by (simp add: wrr_select_def usize_sum_def)
next
  fix draw :: rng and st prof and bs :: "backend btree_set"
  assume "fits_usize bs" "unit_weights bs" "bs \<noteq> []"
  then show "\<exists>b. fst (wrr_select prof st bs) = Ok (Some b)"
    by (subst wrr_select_eq) (auto simp: fits_usize_def)
qed simp

interpretation lc: total_selection "\<lambda>prof draw st bs. (Ok (lc_select st bs), st)" "\<lambda>_. True"
  by unfold_locales
    (auto simp: lc_select_def dest: min_by_key_mem simp del: not_None_eq simp: not_None_eq [symmetric])

lemma random_index:
  "rng_ok draw \<Longrightarrow> fits_usize bs \<Longrightarrow> bs \<noteq> [] \<Longrightarrow> unat (draw (of_nat (length bs))) < length bs"
proof -
  assume r: "rng_ok draw" and f: "fits_usize bs" and n: "bs \<noteq> []"
  have u: "unat (of_nat (length bs) :: usize) = length bs"
    using f by (simp add: fits_usize_def unat_of_nat_usize)
  then have "0 < (of_nat (length bs) :: usize)" using n by (simp add: word_less_nat_alt)
  with r have "draw (of_nat (length bs)) < of_nat (length bs)" by (simp add: rng_ok_def)
  then show ?thesis using u by (simp add: word_less_nat_alt)
qed

interpretation random: total_selection "\<lambda>prof draw st bs. (Ok (random_select draw bs), st)" "\<lambda>_. True"
  by unfold_locales (auto simp: random_select_def nth_opt_def random_index split: if_splits)

lemma selector_select_unfold:
  "selector_select prof draw (Sel_Round_Robin s) bs =
     (Ok (fst (rr_select s bs)), Sel_Round_Robin (snd (rr_select s bs)))"
  "selector_select prof draw (Sel_Weighted w) bs =
     (fst (wrr_select prof w bs), Sel_Weighted (snd (wrr_select prof w bs)))"
  by (simp_all add: case_prod_unfold Let_def)

lemma selector_mem:
  assumes "rng_ok draw" "implemented st" "fits_usize bs"
    and sel: "selector_select prof draw st bs = (Ok (Some b), st')"
  shows "b \<in> set bs"
proof (cases st)
  case (Sel_Round_Robin s)
  with sel have "fst (rr_select s bs) = Some b" by (simp add: selector_select_unfold del: selector_select.simps)
  then show ?thesis using rr.select_mem [where st = s and b = b, OF assms(1) _ assms(3)] by simp
next
  case (Sel_Weighted w)
  with sel have "wrr_select prof w bs = (Ok (Some b), snd (wrr_select prof w bs))"
    by (simp add: selector_select_unfold prod_eq_iff del: selector_select.simps)
  then show ?thesis using wrr.select_mem [OF assms(1) _ assms(3)] by blast
next
  case (Sel_Least_Conn c)
  with sel show ?thesis using lc.select_mem [where st = c and b = b, OF assms(1) _ assms(3)] by simp
next
  case Sel_Random
  with sel show ?thesis using random.select_mem [OF assms(1) _ assms(3)] by auto
next
  case (Sel_Consistent c)
  with assms(2) show ?thesis by simp
qed

lemma selector_total:
  assumes "rng_ok draw" "implemented st" "fits_usize bs" "unit_weights bs" "bs \<noteq> []"
  shows "\<exists>b. fst (selector_select prof draw st bs) = Ok (Some b)"
proof (cases st)
  case (Sel_Round_Robin s)
  then show ?thesis
    using rr.select_total [where st = s, OF assms(1) _ assms(3-5)]
    by (simp add: selector_select_unfold del: selector_select.simps)
next
  case (Sel_Weighted w)
  then show ?thesis
    using wrr.select_total [where st = w and prof = prof, OF assms(1) _ assms(3-5)]
    by (simp add: selector_select_unfold del: selector_select.simps)
next
  case (Sel_Least_Conn c)
  then show ?thesis using lc.select_total [where st = c, OF assms(1) _ assms(3-5)] by simp
next
  case Sel_Random
  then show ?thesis using random.select_total [OF assms(1) _ assms(3-5)] by simp
next
  case (Sel_Consistent c)
  with assms(2) show ?thesis by simp
qed

interpretation selector: total_selection selector_select implemented
proof unfold_locales
  fix st :: selector and draw prof e and bs :: "backend btree_set"
  show "implemented st \<Longrightarrow> fst (selector_select prof draw st bs) \<noteq> Err e"
    using wrr.select_not_Err [where prof = prof and bs = bs and e = e] by (cases st) (auto simp: case_prod_unfold Let_def)
  show "implemented st \<Longrightarrow> fst (selector_select prof draw st []) = Ok None"
    using wrr.select_empty [where prof = prof]
    by (cases st) (auto simp: case_prod_unfold Let_def rr_select_def lc_select_def random_select_def)
  show "implemented st \<Longrightarrow> implemented (snd (selector_select prof draw st bs))"
    by (cases st) (auto simp: case_prod_unfold Let_def)
qed (rule selector_mem selector_total; assumption)+

end
