(* ===== verification/Balancer.thy ===== *)
theory Balancer
  imports Discovery Selection_Facts
begin

text \<open>
  \<open>balance/mod.rs\<close>: \<open>Backends\<close> (a discovery and the cell with the last answer),
  \<open>LoadBalancer\<close> and the refresh task. The task and the connections run concurrently on one
  balancer; they meet in the cell and in the selector's atomics only, each operation of which is
  one atomic step, so an execution is a sequence of ticks and picks (\<open>lb_reach\<close>, \<open>lb_step\<close>).
\<close>

section \<open>Backends\<close>

record 'r backends =
  bk_discovery :: "'r discovery"
  bk_cell :: "backend btree_set"

definition backends_new :: "'r discovery \<Rightarrow> 'r backends" where
  "backends_new d = \<lparr>bk_discovery = d, bk_cell = []\<rparr>"

definition refresh :: "'r lookup_ip \<Rightarrow> 'r backends \<Rightarrow> unit outcome \<times> 'r backends" where
  "refresh lookup_ip b =
     (case discover lookup_ip (bk_discovery b) of
        Ok new_backends \<Rightarrow> (Ok (), b\<lparr>bk_cell := new_backends\<rparr>)
      | Err e \<Rightarrow> (Err e, b)
      | Panic p \<Rightarrow> (Panic p, b))"

definition get_backends :: "'r backends \<Rightarrow> backend btree_set" where
  "get_backends b = bk_cell b"

section \<open>LoadBalancer\<close>

record 'r load_balancer =
  lb_selection :: selector
  lb_backends :: "'r backends"

definition lb_new :: "'r backends \<Rightarrow> selector \<Rightarrow> 'r load_balancer" where
  "lb_new b sel = \<lparr>lb_selection = sel, lb_backends = b\<rparr>"

text \<open>The key is ignored.\<close>

definition lb_select ::
  "build_profile \<Rightarrow> rng \<Rightarrow> string option \<Rightarrow> 'r load_balancer
    \<Rightarrow> backend option outcome \<times> 'r load_balancer" where
  "lb_select prof draw key lb =
     (let bs = get_backends (lb_backends lb) in
      if bs = [] then (Ok None, lb)
      else let (r, sel) = selector_select prof draw (lb_selection lb) bs
           in (r, lb\<lparr>lb_selection := sel\<rparr>))"

text \<open>
  The refresh task, one resolver behaviour per tick: an error is logged and the loop goes on, a
  panic ends the task. The first tick of a tokio interval comes at once.
\<close>

fun refresh_task ::
  "'r lookup_ip list \<Rightarrow> 'r load_balancer \<Rightarrow> error list \<times> 'r load_balancer" where
  "refresh_task [] lb = ([], lb)"
| "refresh_task (l # ls) lb =
     (case refresh l (lb_backends lb) of
        (Ok _, b) \<Rightarrow> refresh_task ls (lb\<lparr>lb_backends := b\<rparr>)
      | (Err e, b) \<Rightarrow>
          (let (es, lb') = refresh_task ls (lb\<lparr>lb_backends := b\<rparr>) in (e # es, lb'))
      | (Panic p, b) \<Rightarrow> ([], lb\<lparr>lb_backends := b\<rparr>))"

abbreviation cell :: "'r load_balancer \<Rightarrow> backend btree_set" where
  "cell lb \<equiv> bk_cell (lb_backends lb)"

abbreviation lb_discovery :: "'r load_balancer \<Rightarrow> 'r discovery" where
  "lb_discovery lb \<equiv> bk_discovery (lb_backends lb)"

lemma refresh_discovery [simp]: "bk_discovery (snd (refresh l b)) = bk_discovery b"
  by (simp add: refresh_def split: outcome.splits)

lemma refresh_cell:
  "bk_cell (snd (refresh l b)) =
     (case discover l (bk_discovery b) of Ok bs \<Rightarrow> bs | _ \<Rightarrow> bk_cell b)"
  by (simp add: refresh_def split: outcome.splits)

lemma lb_select_backends [simp]: "lb_backends (snd (lb_select prof draw key lb)) = lb_backends lb"
  by (simp add: lb_select_def Let_def case_prod_unfold)

lemma lb_select_nonempty:
  "cell lb \<noteq> [] \<Longrightarrow> lb_select prof draw key lb =
     (fst (selector_select prof draw (lb_selection lb) (cell lb)),
      lb\<lparr>lb_selection := snd (selector_select prof draw (lb_selection lb) (cell lb))\<rparr>)"
  by (simp add: lb_select_def get_backends_def Let_def case_prod_unfold)

lemma lb_select_empty: "cell lb = [] \<Longrightarrow> lb_select prof draw key lb = (Ok None, lb)"
  by (simp add: lb_select_def get_backends_def)

lemma refresh_task_append:
  "(\<And>l. l \<in> set ls \<Longrightarrow> \<not> is_panic (discover l (lb_discovery lb))) \<Longrightarrow>
     snd (refresh_task (ls @ ms) lb) = snd (refresh_task ms (snd (refresh_task ls lb)))"
  by (induction ls arbitrary: lb)
    (auto simp: refresh_def case_prod_unfold Let_def is_panic_iff split: outcome.splits)

lemma refresh_task_discovery [simp]:
  "lb_discovery (snd (refresh_task ls lb)) = lb_discovery lb"
  by (induction ls arbitrary: lb)
    (auto simp: refresh_def case_prod_unfold Let_def split: outcome.splits)

lemma refresh_task_selection [simp]:
  "lb_selection (snd (refresh_task ls lb)) = lb_selection lb"
  by (induction ls arbitrary: lb)
    (auto simp: refresh_def case_prod_unfold Let_def split: outcome.splits)

lemma refresh_task_failures:
  "(\<And>l. l \<in> set ls \<Longrightarrow> \<exists>e. discover l (lb_discovery lb) = Err e) \<Longrightarrow>
     length (fst (refresh_task ls lb)) = length ls \<and> snd (refresh_task ls lb) = lb"
proof (induction ls)
  case Nil
  then show ?case by simp
next
  case (Cons l ls)
  then obtain e where "discover l (lb_discovery lb) = Err e" by fastforce
  with Cons show ?case by (simp add: refresh_def case_prod_unfold Let_def)
qed

section \<open>Ticks and picks\<close>

text \<open>
  The states a balancer can reach from \<open>lb0\<close>, with the answers its discovery has given so far,
  the latest first. The history is what \<open>discover\<close> returned, recorded independently of what
  \<open>refresh\<close> made of it.
\<close>

inductive lb_reach ::
  "build_profile \<Rightarrow> 'r load_balancer \<Rightarrow> backend btree_set list \<Rightarrow> 'r load_balancer \<Rightarrow> bool"
  for prof :: build_profile and lb0 :: "'r load_balancer" where
  start: "lb_reach prof lb0 [] lb0"
| tick_ok: "lb_reach prof lb0 hist lb \<Longrightarrow> discover l (lb_discovery lb) = Ok bs \<Longrightarrow>
    refresh l (lb_backends lb) = (r, b) \<Longrightarrow>
    lb_reach prof lb0 (bs # hist) (lb\<lparr>lb_backends := b\<rparr>)"
| tick_err: "lb_reach prof lb0 hist lb \<Longrightarrow> discover l (lb_discovery lb) = Err e \<Longrightarrow>
    refresh l (lb_backends lb) = (r, b) \<Longrightarrow>
    lb_reach prof lb0 hist (lb\<lparr>lb_backends := b\<rparr>)"
| pick: "lb_reach prof lb0 hist lb \<Longrightarrow> rng_ok draw \<Longrightarrow> lb_select prof draw key lb = (r, lb') \<Longrightarrow>
    lb_reach prof lb0 hist lb'"

definition lb_ok :: "'r load_balancer \<Rightarrow> bool" where
  "lb_ok lb \<longleftrightarrow> discovery_ok (lb_discovery lb) \<and> implemented (lb_selection lb)
     \<and> bt_ok (cell lb) \<and> unit_weights (cell lb)"

lemma refresh_keeps: "refresh l b = (r, b') \<Longrightarrow> bk_discovery b' = bk_discovery b"
  using refresh_discovery [of l b] by simp

text \<open>What a refresh makes of the answer of the discovery.\<close>

lemma refresh_answered:
  "discover l (bk_discovery b) = Ok bs \<Longrightarrow> refresh l b = (Ok (), b\<lparr>bk_cell := bs\<rparr>)"
  by (simp add: refresh_def)

lemma refresh_failed:
  "(\<And>bs. discover l (bk_discovery b) \<noteq> Ok bs) \<Longrightarrow> snd (refresh l b) = b"
  by (auto simp: refresh_def split: outcome.splits)

lemma lb_select_ok: "lb_ok lb \<Longrightarrow> lb_ok (snd (lb_select prof draw key lb))"
  using selector.select_ok [of "lb_selection lb" prof draw "cell lb"]
  by (cases "cell lb = []") (auto simp: lb_ok_def lb_select_empty lb_select_nonempty)

lemma lb_reach_ok: "lb_reach prof lb0 hist lb \<Longrightarrow> lb_ok lb0 \<Longrightarrow> lb_ok lb"
proof (induction rule: lb_reach.induct)
  case start
  then show ?case .
next
  case (tick_ok hist lb l bs r b)
  then show ?case
    using dyn_disc.discover_ascending [of "lb_discovery lb" l bs]
      dyn_disc.discover_unit_weights [of "lb_discovery lb" l bs]
    by (auto simp: lb_ok_def refresh_answered)
next
  case (tick_err hist lb l e r b)
  then show ?case using refresh_failed [of l "lb_backends lb"] by simp
next
  case (pick hist lb draw key r lb')
  then show ?case using lb_select_ok [of lb prof draw key] by simp
qed

lemma lb_reach_discovery: "lb_reach prof lb0 hist lb \<Longrightarrow> lb_discovery lb = lb_discovery lb0"
proof (induction rule: lb_reach.induct)
  case (pick hist lb draw key r lb')
  then show ?case using lb_select_backends [of prof draw key lb] by simp
qed (simp_all add: refresh_keeps)

lemma lb_reach_cell:
  "lb_reach prof lb0 hist lb \<Longrightarrow> cell lb = (case hist of [] \<Rightarrow> cell lb0 | bs # _ \<Rightarrow> bs)"
proof (induction rule: lb_reach.induct)
  case (pick hist lb draw key r lb')
  then show ?case using lb_select_backends [of prof draw key lb] by simp
next
  case (tick_err hist lb l e r b)
  then show ?case using refresh_failed [of l "lb_backends lb"] by simp
qed (auto simp: refresh_answered)

lemma lb_reach_hist:
  "lb_reach prof lb0 hist lb \<Longrightarrow> bs \<in> set hist \<Longrightarrow> \<exists>l. discover l (lb_discovery lb0) = Ok bs"
proof (induction rule: lb_reach.induct)
  case (tick_ok hist lb l bs' r b)
  then show ?case
    using lb_reach_discovery [OF tick_ok.hyps(1)] by auto
qed auto

lemma lb_select_mem:
  assumes "lb_ok lb" "rng_ok draw" "fits_usize (cell lb)"
    and "fst (lb_select prof draw key lb) = Ok (Some b)"
  shows "b \<in> set (cell lb)"
proof -
  have ne: "cell lb \<noteq> []" using assms(4) by (auto simp: lb_select_empty)
  then have "selector_select prof draw (lb_selection lb) (cell lb)
      = (Ok (Some b), snd (selector_select prof draw (lb_selection lb) (cell lb)))"
    using assms(4) by (simp add: lb_select_nonempty prod_eq_iff)
  then show ?thesis
    using assms by (intro selector.select_mem) (auto simp: lb_ok_def)
qed

lemma lb_select_some:
  assumes "lb_ok lb" "rng_ok draw" "fits_usize (cell lb)" "cell lb \<noteq> []"
  shows "\<exists>b\<in>set (cell lb). fst (lb_select prof draw key lb) = Ok (Some b)"
proof -
  obtain b where "fst (selector_select prof draw (lb_selection lb) (cell lb)) = Ok (Some b)"
    using selector.select_total [of draw "lb_selection lb" "cell lb" prof] assms
    by (auto simp: lb_ok_def)
  then have "fst (lb_select prof draw key lb) = Ok (Some b)"
    using assms(4) by (simp add: lb_select_nonempty)
  then show ?thesis using lb_select_mem [OF assms(1-3)] by blast
qed

lemma lb_new_ok [simp]:
  "lb_ok (lb_new (backends_new d) sel) \<longleftrightarrow> discovery_ok d \<and> implemented sel"
  by (simp add: lb_ok_def lb_new_def backends_new_def)

lemma lb_new_simps [simp]:
  "lb_backends (lb_new b sel) = b" "lb_selection (lb_new b sel) = sel"
  "bk_cell (backends_new d) = []" "bk_discovery (backends_new d) = d"
  by (simp_all add: lb_new_def backends_new_def)

section \<open>Runs of a balancer\<close>

text \<open>
  The same ticks and picks as one function of what happens: each event is one turn of the loop of
  the refresh task, with what the resolver answers, or one call of \<open>select\<close>.
\<close>

datatype 'r lb_event = Tick "'r lookup_ip" | Pick rng "string option"

fun lb_step :: "build_profile \<Rightarrow> 'r lb_event \<Rightarrow> 'r load_balancer \<Rightarrow> 'r load_balancer" where
  "lb_step prof (Tick l) lb = lb\<lparr>lb_backends := snd (refresh l (lb_backends lb))\<rparr>"
| "lb_step prof (Pick draw key) lb = snd (lb_select prof draw key lb)"

text \<open>As long as no discovery panics, the refresh task is a run of ticks.\<close>

lemma refresh_task_steps:
  "(\<And>l. l \<in> set ls \<Longrightarrow> \<not> is_panic (discover l (lb_discovery lb))) \<Longrightarrow>
     snd (refresh_task ls lb) = fold (lb_step prof) (map Tick ls) lb"
  by (induction ls arbitrary: lb)
    (auto simp: refresh_def case_prod_unfold Let_def is_panic_iff split: outcome.splits)

lemma lb_step_discovery [simp]: "lb_discovery (lb_step prof ev lb) = lb_discovery lb"
  by (cases ev) simp_all

lemma lb_steps_discovery [simp]: "lb_discovery (fold (lb_step prof) evs lb) = lb_discovery lb"
  by (induction evs arbitrary: lb) simp_all

lemma lb_step_ok: "lb_ok lb \<Longrightarrow> lb_ok (lb_step prof ev lb)"
proof (cases ev)
  case (Tick l)
  assume ok: "lb_ok lb"
  show ?thesis
  proof (cases "\<exists>bs. discover l (lb_discovery lb) = Ok bs")
    case True
    then obtain bs where "discover l (lb_discovery lb) = Ok bs" ..
    with Tick ok show ?thesis
      using dyn_disc.discover_ascending [of "lb_discovery lb" l bs]
        dyn_disc.discover_unit_weights [of "lb_discovery lb" l bs]
      by (auto simp: lb_ok_def refresh_answered)
  next
    case False
    with Tick ok show ?thesis using refresh_failed [of l "lb_backends lb"] by simp
  qed
qed (simp add: lb_select_ok)

lemma lb_steps_ok: "lb_ok lb \<Longrightarrow> lb_ok (fold (lb_step prof) evs lb)"
  by (induction evs arbitrary: lb) (simp_all add: lb_step_ok)

text \<open>The cell holds the last answer.\<close>

lemma lb_steps_no_answer:
  "(\<And>l bs. Tick l \<in> set evs \<Longrightarrow> discover l (lb_discovery lb) \<noteq> Ok bs) \<Longrightarrow>
     cell (fold (lb_step prof) evs lb) = cell lb"
proof (induction evs arbitrary: lb)
  case Nil
  then show ?case by simp
next
  case (Cons ev evs)
  have "cell (lb_step prof ev lb) = cell lb"
    using Cons.prems [of _ _] refresh_failed [of _ "lb_backends lb"] by (cases ev) auto
  with Cons.IH [of "lb_step prof ev lb"] Cons.prems show ?case by simp
qed

lemma lb_steps_answer:
  assumes "discover l (lb_discovery lb) = Ok bs"
    and "\<And>l bs. Tick l \<in> set after \<Longrightarrow> discover l (lb_discovery lb) \<noteq> Ok bs"
  shows "cell (fold (lb_step prof) (before @ Tick l # after) lb) = bs"
proof -
  let ?lb = "fold (lb_step prof) before lb"
  have "cell (lb_step prof (Tick l) ?lb) = bs" using assms(1) by (simp add: refresh_answered)
  with lb_steps_no_answer [of "after" "lb_step prof (Tick l) ?lb" prof] assms(2) show ?thesis by simp
qed

lemma lb_steps_constant:
  "(\<And>l. discover l (lb_discovery lb) = Ok bs) \<Longrightarrow>
     cell (fold (lb_step prof) evs lb) = (if \<exists>l. Tick l \<in> set evs then bs else cell lb)"
proof (induction evs arbitrary: lb)
  case Nil
  then show ?case by simp
next
  case (Cons ev evs)
  have "cell (lb_step prof ev lb) = (if \<exists>l. ev = Tick l then bs else cell lb)"
    using Cons.prems by (cases ev) (auto simp: refresh_answered)
  with Cons.IH [of "lb_step prof ev lb"] Cons.prems show ?case by auto
qed

section \<open>Repeated picks\<close>

lemma calls_sim:
  assumes "\<And>st. f (h st) = (g (fst (f' st)), h (snd (f' st)))"
  shows "calls f n (h st) = (map g (fst (calls f' n st)), h (snd (calls f' n st)))"
  by (induction n arbitrary: st) (simp_all add: assms case_prod_unfold Let_def)

lemma calls_lb_round_robin:
  assumes "cell lb \<noteq> []" "lb_selection lb = Sel_Round_Robin rr"
  shows "fst (calls (lb_select prof draw key) n lb)
           = map Ok (fst (calls (\<lambda>s. rr_select s (cell lb)) n rr))"
proof -
  have "lb_select prof draw key (lb\<lparr>lb_selection := Sel_Round_Robin s\<rparr>)
      = (Ok (fst (rr_select s (cell lb))), lb\<lparr>lb_selection := Sel_Round_Robin (snd (rr_select s (cell lb)))\<rparr>)"
    for s
    using assms(1) by (simp add: lb_select_nonempty selector_select_unfold del: selector_select.simps)
  then have "calls (lb_select prof draw key) n (lb\<lparr>lb_selection := Sel_Round_Robin rr\<rparr>)
      = (map Ok (fst (calls (\<lambda>s. rr_select s (cell lb)) n rr)),
         lb\<lparr>lb_selection := Sel_Round_Robin (snd (calls (\<lambda>s. rr_select s (cell lb)) n rr))\<rparr>)"
    by (intro calls_sim)
  moreover have "lb\<lparr>lb_selection := Sel_Round_Robin rr\<rparr> = lb" using assms(2) by simp
  ultimately show ?thesis by simp
qed

text \<open>Nothing a balancer does touches the counters of least connections.\<close>

lemma lb_reach_least_conn:
  "lb_reach prof lb0 hist lb \<Longrightarrow> lb_selection lb0 = Sel_Least_Conn st \<Longrightarrow>
     lb_selection lb = Sel_Least_Conn st"
proof (induction rule: lb_reach.induct)
  case (pick hist lb draw key r lb')
  then show ?case
    by (cases "cell lb = []") (auto simp: lb_select_empty lb_select_nonempty)
qed auto

end
