(* ===== verification/Credentials.thy ===== *)
theory Credentials
  imports Config
begin

text \<open>
  \<open>tls/credentials.rs\<close>: building the \<open>Store\<close> of a server from the three files its TLS section
  names. What \<open>rustls\<close> and \<open>rustls_pemfile\<close> do is a parameter (\<open>rustls_api\<close>, one field per
  call the code makes); the order of the calls, the early returns and the values passed are the
  code's. \<open>str::from_utf8\<close> is the standard library's check, written out.
\<close>

section \<open>UTF-8\<close>

definition utf8_cont :: "u8 \<Rightarrow> bool" where
  "utf8_cont b \<longleftrightarrow> 0x80 \<le> b \<and> b \<le> 0xBF"

definition utf8_second3 :: "u8 \<Rightarrow> u8 \<Rightarrow> bool" where
  "utf8_second3 a b \<longleftrightarrow>
     (if a = 0xE0 then 0xA0 \<le> b \<and> b \<le> 0xBF
      else if a = 0xED then 0x80 \<le> b \<and> b \<le> 0x9F else utf8_cont b)"

definition utf8_second4 :: "u8 \<Rightarrow> u8 \<Rightarrow> bool" where
  "utf8_second4 a b \<longleftrightarrow>
     (if a = 0xF0 then 0x90 \<le> b \<and> b \<le> 0xBF
      else if a = 0xF4 then 0x80 \<le> b \<and> b \<le> 0x8F else utf8_cont b)"

fun utf8_valid :: "u8 list \<Rightarrow> bool" where
  "utf8_valid [] = True"
| "utf8_valid (a # bs) =
     (if a < 0x80 then utf8_valid bs
      else if 0xC2 \<le> a \<and> a \<le> 0xDF then
        (case bs of b # r \<Rightarrow> utf8_cont b \<and> utf8_valid r | _ \<Rightarrow> False)
      else if 0xE0 \<le> a \<and> a \<le> 0xEF then
        (case bs of b # c # r \<Rightarrow> utf8_second3 a b \<and> utf8_cont c \<and> utf8_valid r | _ \<Rightarrow> False)
      else if 0xF0 \<le> a \<and> a \<le> 0xF4 then
        (case bs of b # c # d # r \<Rightarrow>
             utf8_second4 a b \<and> utf8_cont c \<and> utf8_cont d \<and> utf8_valid r
         | _ \<Rightarrow> False)
      else False)"

lemma utf8_ascii: "(\<And>b. b \<in> set bs \<Longrightarrow> b < 0x80) \<Longrightarrow> utf8_valid bs"
  by (induction bs) auto

section \<open>The store\<close>

record 'sk certified_key =
  ck_chain :: "u8 list list"
  ck_key :: 'sk

text \<open>The operations of the TLS libraries the code calls.\<close>

record ('sn, 'key, 'roots, 'sk, 'sv, 'cv, 'ccfg, 'scfg) rustls_api =
  server_name_try_from :: "string \<Rightarrow> 'sn outcome"
  pem_certs :: "u8 list \<Rightarrow> u8 list outcome list"
  pem_private_key :: "u8 list \<Rightarrow> 'key option outcome"
  any_ecdsa_type :: "'key \<Rightarrow> 'sk outcome"
  roots_empty :: 'roots
  add_parsable_certificates :: "'roots \<Rightarrow> u8 list list \<Rightarrow> 'roots"
  build_server_verifier :: "'roots \<Rightarrow> 'sv outcome"
  build_client_verifier :: "'roots \<Rightarrow> bool \<Rightarrow> 'cv outcome"
  client_config :: "'sv \<Rightarrow> 'sk certified_key \<Rightarrow> 'ccfg"
  disable_resumption :: "'ccfg \<Rightarrow> 'ccfg"
  server_config :: "'cv \<Rightarrow> 'sk certified_key \<Rightarrow> 'scfg"

record ('sn, 'sv, 'ccfg, 'scfg) tls_store =
  store_server_name :: 'sn
  server_cert_verifier :: 'sv
  client_cfg :: 'ccfg
  server_cfg :: 'scfg

text \<open>\<open>CertResolver\<close> answers every handshake, client or server side, with its one key.\<close>

definition resolve_client_cert :: "'sk certified_key \<Rightarrow> 'hints \<Rightarrow> 'schemes \<Rightarrow> 'sk certified_key option" where
  "resolve_client_cert r root_hint_subjects sigschemes = Some r"

definition has_certs :: "'sk certified_key \<Rightarrow> bool" where
  "has_certs r = True"

definition resolve_server_cert :: "'sk certified_key \<Rightarrow> 'hello \<Rightarrow> 'sk certified_key option" where
  "resolve_server_cert r client_hello = Some r"

definition create_root_store ::
  "('sn, 'key, 'roots, 'sk, 'sv, 'cv, 'ccfg, 'scfg) rustls_api \<Rightarrow> u8 list \<Rightarrow> 'roots outcome" where
  "create_root_store api roots_pem =
     (if \<not> utf8_valid roots_pem then Err Utf8_Error
      else and_then (try_map (\<lambda>r. r) (pem_certs api roots_pem)) (\<lambda>certs.
        if certs = [] then Err (Msg ''No certificates found in the chain file'')
        else Ok (add_parsable_certificates api (roots_empty api) certs)))"

definition extract_private_key ::
  "('sn, 'key, 'roots, 'sk, 'sv, 'cv, 'ccfg, 'scfg) rustls_api \<Rightarrow> u8 list \<Rightarrow> 'key outcome" where
  "extract_private_key api key =
     and_then (wrap_err ''Failed to read private key'' (pem_private_key api key)) (\<lambda>k.
     ok_or (Msg ''No private key found in key file'') k)"

definition create_certified_key ::
  "('sn, 'key, 'roots, 'sk, 'sv, 'cv, 'ccfg, 'scfg) rustls_api
    \<Rightarrow> u8 list \<Rightarrow> u8 list \<Rightarrow> u8 list list \<Rightarrow> 'sk certified_key outcome" where
  "create_certified_key api server_cert key intermediates =
     (let chain = [server_cert] @ intermediates in
      and_then (extract_private_key api key) (\<lambda>private_key.
      and_then (any_ecdsa_type api private_key) (\<lambda>signing_key.
      Ok \<lparr>ck_chain = chain, ck_key = signing_key\<rparr>)))"

definition create_client_config ::
  "('sn, 'key, 'roots, 'sk, 'sv, 'cv, 'ccfg, 'scfg) rustls_api
    \<Rightarrow> 'sv \<Rightarrow> 'sk certified_key \<Rightarrow> 'ccfg outcome" where
  "create_client_config api verifier resolver =
     Ok (disable_resumption api (client_config api verifier resolver))"

text \<open>The verifier is built with \<open>allow_unauthenticated\<close>.\<close>

definition create_server_config ::
  "('sn, 'key, 'roots, 'sk, 'sv, 'cv, 'ccfg, 'scfg) rustls_api
    \<Rightarrow> 'roots \<Rightarrow> 'sk certified_key \<Rightarrow> 'scfg outcome" where
  "create_server_config api roots resolver =
     and_then (build_client_verifier api roots True) (\<lambda>client_cert_verifier.
     Ok (server_config api client_cert_verifier resolver))"

definition store_new ::
  "('sn, 'key, 'roots, 'sk, 'sv, 'cv, 'ccfg, 'scfg) rustls_api
    \<Rightarrow> 'sn \<Rightarrow> u8 list \<Rightarrow> u8 list \<Rightarrow> u8 list \<Rightarrow> u8 list list
    \<Rightarrow> ('sn, 'sv, 'ccfg, 'scfg) tls_store outcome" where
  "store_new api server_name roots_pem server_cert key intermediates =
     and_then (create_root_store api roots_pem) (\<lambda>roots.
     and_then (create_certified_key api server_cert key intermediates) (\<lambda>resolver.
     and_then (build_server_verifier api roots) (\<lambda>cert_verifier.
     and_then (create_client_config api cert_verifier resolver) (\<lambda>ccfg.
     and_then (create_server_config api roots resolver) (\<lambda>scfg.
     Ok \<lparr>store_server_name = server_name, server_cert_verifier = cert_verifier,
         client_cfg = ccfg, server_cfg = scfg\<rparr>)))))"

definition default_server_name :: string where
  "default_server_name = ''default.default.serviceaccount.identity.umay.cluster.local''"

definition store_try_from ::
  "('sn, 'key, 'roots, 'sk, 'sv, 'cv, 'ccfg, 'scfg) rustls_api \<Rightarrow> file_system \<Rightarrow> tls_config
    \<Rightarrow> ('sn, 'sv, 'ccfg, 'scfg) tls_store outcome" where
  "store_try_from api fs value =
     and_then (server_name_try_from api default_server_name) (\<lambda>server_name.
     and_then (proxy_tls_trusted_certificate fs value) (\<lambda>roots_pem.
     and_then (proxy_tls_certificate fs value) (\<lambda>server_cert.
     and_then (proxy_tls_certificate_key fs value) (\<lambda>key.
     store_new api server_name roots_pem server_cert key []))))"

section \<open>When building a store succeeds\<close>

lemma create_root_store_eq_Ok:
  "create_root_store api pem = Ok roots \<longleftrightarrow>
     utf8_valid pem \<and> pem_certs api pem \<noteq> [] \<and>
     (\<exists>certs. pem_certs api pem = map Ok certs \<and>
        roots = add_parsable_certificates api (roots_empty api) certs)"
proof -
  have "try_map (\<lambda>r. r) rs = Ok certs \<longleftrightarrow> rs = map Ok certs" for rs :: "u8 list outcome list" and certs
    by (auto simp: try_map_eq_Ok list_all2_conv_all_nth intro: nth_equalityI)
  then show ?thesis
    by (auto simp: create_root_store_def try_simps split: if_splits)
qed

lemma create_certified_key_eq_Ok:
  "create_certified_key api cert key chain = Ok ck \<longleftrightarrow>
     (\<exists>k sk. pem_private_key api key = Ok (Some k) \<and> any_ecdsa_type api k = Ok sk \<and>
        ck = \<lparr>ck_chain = cert # chain, ck_key = sk\<rparr>)"
  by (auto simp: create_certified_key_def extract_private_key_def try_simps Let_def)

lemma store_new_eq_Ok:
  "store_new api sn pem cert key chain = Ok st \<longleftrightarrow>
     (\<exists>roots ck sv cv. create_root_store api pem = Ok roots
        \<and> create_certified_key api cert key chain = Ok ck
        \<and> build_server_verifier api roots = Ok sv \<and> build_client_verifier api roots True = Ok cv
        \<and> st = \<lparr>store_server_name = sn, server_cert_verifier = sv,
                client_cfg = disable_resumption api (client_config api sv ck),
                server_cfg = server_config api cv ck\<rparr>)"
  by (auto simp: store_new_def create_client_config_def create_server_config_def try_simps)

lemma store_try_from_paths:
  "certificate_path t = certificate_path t' \<Longrightarrow>
   certificate_key_path t = certificate_key_path t' \<Longrightarrow>
   trusted_certificate_path t = trusted_certificate_path t' \<Longrightarrow>
     store_try_from api fs t = store_try_from api fs t'"
  by (simp add: store_try_from_def proxy_tls_certificate_def proxy_tls_certificate_key_def
      proxy_tls_trusted_certificate_def)

end
