(* ===== verification/Terminator.thy ===== *)
theory Terminator
  imports Credentials
begin

text \<open>
  \<open>tls/mod.rs\<close> and \<open>tls/server.rs\<close>: the outcome of a TLS handshake and the future that waits for
  it. An asynchronous computation is the sequence of answers to its successive polls; \<open>await\<close>
  is the first \<open>Ready\<close>, and \<open>None\<close> while there is none. The acceptor of \<open>tokio_rustls\<close> is a
  parameter, giving the polls of a handshake on a connection.
\<close>

section \<open>Polling\<close>

datatype 'a poll = Pending | Ready 'a

fun await :: "'a poll list \<Rightarrow> 'a option" where
  "await [] = None"
| "await (Pending # ps) = await ps"
| "await (Ready x # ps) = Some x"

fun map_poll :: "('a \<Rightarrow> 'b) \<Rightarrow> 'a poll \<Rightarrow> 'b poll" where
  "map_poll f Pending = Pending"
| "map_poll f (Ready x) = Ready (f x)"

lemma await_map: "await (map (map_poll f) ps) = map_option f (await ps)"
  by (induction ps rule: await.induct) auto

lemma await_Some: "await ps = Some x \<longleftrightarrow> (\<exists>n qs. ps = replicate n Pending @ Ready x # qs)"
proof (induction ps rule: await.induct)
  case (2 ps)
  show ?case
  proof
    assume "await (Pending # ps) = Some x"
    then obtain n qs where "ps = replicate n Pending @ Ready x # qs" using 2 by auto
    then show "\<exists>n qs. Pending # ps = replicate n Pending @ Ready x # qs"
      by (intro exI [of _ "Suc n"]) simp
  next
    assume "\<exists>n qs. Pending # ps = replicate n Pending @ Ready x # qs"
    then obtain n qs where n: "Pending # ps = replicate n Pending @ Ready x # qs" by blast
    then obtain m where "n = Suc m" by (cases n) auto
    with n 2 show "await (Pending # ps) = Some x" by auto
  qed
next
  case (3 y ps)
  show ?case
  proof
    assume "await (Ready y # ps) = Some x"
    then show "\<exists>n qs. Ready y # ps = replicate n Pending @ Ready x # qs"
      by (intro exI [of _ 0]) simp
  next
    assume "\<exists>n qs. Ready y # ps = replicate n Pending @ Ready x # qs"
    then obtain n qs where n: "Ready y # ps = replicate n Pending @ Ready x # qs" by blast
    then show "await (Ready y # ps) = Some x" by (cases n) auto
  qed
qed simp

section \<open>The handshake\<close>

datatype client_id = ClientId "u8 list"

datatype negotiated_protocol = NegotiatedProtocol "u8 list"

datatype 'sn server_tls =
    Established "client_id option" "negotiated_protocol option"
  | Passthru 'sn

text \<open>A TLS stream: the connection under it and what its session reports.\<close>

record 'io tls_stream =
  ts_io :: 'io
  ts_server_name :: "string option"
  ts_peer_certificates :: "u8 list list option"
  ts_alpn_protocol :: "u8 list option"

definition client_identity :: "'io tls_stream \<Rightarrow> client_id option" where
  "client_identity ts =
     (case ts_peer_certificates ts of
        None \<Rightarrow> None
      | Some certs \<Rightarrow> (case certs of [] \<Rightarrow> None | cert # _ \<Rightarrow> Some (ClientId cert)))"

record ('sn, 'scfg) tls_server =
  server_name :: 'sn
  acceptor :: 'scfg

definition tls_server_new :: "'sn \<Rightarrow> 'scfg \<Rightarrow> ('sn, 'scfg) tls_server" where
  "tls_server_new name config = \<lparr>server_name = name, acceptor = config\<rparr>"

definition tls_poll_ready :: "('sn, 'scfg) tls_server \<Rightarrow> unit outcome poll" where
  "tls_poll_ready server = Ready (Ok ())"

text \<open>
  \<open>TerminateFuture::poll\<close>, given what polling the handshake answered. \<open>expect\<close> panics when the
  name the session reports is not a server name.
\<close>

definition classify ::
  "(string \<Rightarrow> 'sn outcome) \<Rightarrow> 'io tls_stream \<Rightarrow> ('sn server_tls \<times> 'io tls_stream) outcome" where
  "classify name_try_from ts =
     (case ts_server_name ts of
        Some sni \<Rightarrow>
          (case name_try_from sni of
             Ok sn \<Rightarrow> Ok (Passthru sn, ts)
           | _ \<Rightarrow> Panic ''Invalid SNI'')
      | None \<Rightarrow>
          Ok (Established (client_identity ts)
                (map_option NegotiatedProtocol (ts_alpn_protocol ts)), ts))"

definition terminate_poll ::
  "(string \<Rightarrow> 'sn outcome) \<Rightarrow> 'io tls_stream outcome poll
    \<Rightarrow> ('sn server_tls \<times> 'io tls_stream) outcome poll" where
  "terminate_poll name_try_from p =
     (case p of
        Pending \<Rightarrow> Pending
      | Ready r \<Rightarrow> Ready (and_then r (classify name_try_from)))"

text \<open>\<open>call\<close> makes the future of a handshake, \<open>terminate\<close> awaits it.\<close>

definition tls_call ::
  "(string \<Rightarrow> 'sn outcome) \<Rightarrow> ('scfg \<Rightarrow> 'io \<Rightarrow> 'io tls_stream outcome poll list)
    \<Rightarrow> ('sn, 'scfg) tls_server \<Rightarrow> 'io \<Rightarrow> ('sn server_tls \<times> 'io tls_stream) outcome poll list" where
  "tls_call name_try_from accept server io =
     map (terminate_poll name_try_from) (accept (acceptor server) io)"

definition terminate ::
  "(string \<Rightarrow> 'sn outcome) \<Rightarrow> ('scfg \<Rightarrow> 'io \<Rightarrow> 'io tls_stream outcome poll list)
    \<Rightarrow> ('sn, 'scfg) tls_server \<Rightarrow> 'io \<Rightarrow> ('sn server_tls \<times> 'io tls_stream) outcome option" where
  "terminate name_try_from accept server io = await (tls_call name_try_from accept server io)"

lemma terminate_poll_map: "terminate_poll f = map_poll (\<lambda>r. and_then r (classify f))"
  by (rule ext) (simp add: terminate_poll_def split: poll.split)

lemma terminate_await:
  "terminate f accept server io =
     map_option (\<lambda>r. and_then r (classify f)) (await (accept (acceptor server) io))"
  by (simp add: terminate_def tls_call_def terminate_poll_map await_map)

lemma classify_stream: "classify f ts = Ok (k, ts') \<Longrightarrow> ts' = ts"
  by (auto simp: classify_def split: option.splits outcome.splits)

lemma classify_not_Err: "classify f ts \<noteq> Err e"
  by (auto simp: classify_def split: option.splits outcome.splits)

section \<open>The terminator's contract\<close>

text \<open>
  The \<open>TlsTerminator\<close> trait as its client, the stream proxy, relies on it: the stream handed on
  is the one the handshake gave, a failed handshake is reported as it is, and a handshake still
  under way is waited for.
\<close>

locale tls_terminator =
  fixes handshake :: "'io \<Rightarrow> 'io tls_stream outcome option"
    and term_io :: "'io \<Rightarrow> ('sn server_tls \<times> 'io tls_stream) outcome option"
  assumes term_waits: "term_io io = None \<longleftrightarrow> handshake io = None"
    and term_stream: "term_io io = Some (Ok (k, ts)) \<Longrightarrow> handshake io = Some (Ok ts)"
    and term_error: "term_io io = Some (Err e) \<longleftrightarrow> handshake io = Some (Err e)"
begin

lemma term_ok_or_panic:
  assumes "handshake io = Some (Ok ts)"
  shows "(\<exists>k. term_io io = Some (Ok (k, ts))) \<or> (\<exists>p. term_io io = Some (Panic p))"
proof (cases "term_io io")
  case None
  then show ?thesis using assms by (simp add: term_waits)
next
  case (Some r)
  show ?thesis
  proof (cases r)
    case (Ok kt)
    with Some assms term_stream [of io "fst kt" "snd kt"] show ?thesis by (cases kt) auto
  next
    case (Err e)
    with Some assms term_error [of io e] show ?thesis by simp
  qed (use Some in auto)
qed

end

interpretation rustls_term: tls_terminator
    "\<lambda>io. await (accept (acceptor server) io)" "terminate f accept server"
    for f :: "string \<Rightarrow> 'sn outcome"
    and accept :: "'scfg \<Rightarrow> 'io \<Rightarrow> 'io tls_stream outcome poll list" and server
  by unfold_locales
    (auto simp: terminate_await and_then_eq_Ok and_then_eq_Err classify_not_Err dest: classify_stream)

end
