(* ===== verification/Stream_Proxy.thy ===== *)
theory Stream_Proxy
  imports Balancer Terminator "HOL-Library.Sublist"
begin

text \<open>
  \<open>proxy/stream.rs\<close>: what a proxy does with one connection. The two long-running parts are
  \<open>select!\<close> loops: \<open>proxy_tcp\<close> over two copies, \<open>proxy_ws\<close> over two message streams. The
  futures raced are parameters, given by the answers of their successive polls, and a schedule
  (which branch is polled next) says how they interleave: every theorem holds for all schedules.
  A run over a finite schedule gives \<open>None\<close> when the loop is still going.
\<close>

datatype branch = Client_Branch | Upstream_Branch

section \<open>proxy\_tcp\<close>

text \<open>
  A poll of a copy finds nothing to do yet, writes bytes to the destination or ends with a result. Of
  \<open>tokio::io::copy\<close> the code relies on this: it writes what it reads, in order, and ends without
  an error only at the end of its source, with all of it written (\<open>faithful_copy\<close>).
\<close>

datatype copy_poll = Copy_Pending | Wrote "u8 list" | Copied | Copy_Failed error

type_synonym copy_future = "copy_poll list"

fun written :: "copy_future \<Rightarrow> u8 list" where
  "written [] = []"
| "written (Copy_Pending # ps) = written ps"
| "written (Wrote bs # ps) = bs @ written ps"
| "written (Copied # ps) = []"
| "written (Copy_Failed e # ps) = []"

fun copy_succeeds :: "copy_future \<Rightarrow> bool" where
  "copy_succeeds [] = False"
| "copy_succeeds (Copy_Pending # ps) = copy_succeeds ps"
| "copy_succeeds (Wrote bs # ps) = copy_succeeds ps"
| "copy_succeeds (Copied # ps) = True"
| "copy_succeeds (Copy_Failed e # ps) = False"

definition faithful_copy :: "u8 list \<Rightarrow> copy_future \<Rightarrow> bool" where
  "faithful_copy source fut \<longleftrightarrow>
     prefix (written fut) source \<and> (copy_succeeds fut \<longrightarrow> written fut = source)"

record tcp_session =
  client_to_server :: copy_future
  server_to_client :: copy_future
  to_server :: "u8 list"
  to_client :: "u8 list"
  tcp_log :: "error list"

definition tcp_start :: "copy_future \<Rightarrow> copy_future \<Rightarrow> tcp_session" where
  "tcp_start c2s s2c =
     \<lparr>client_to_server = c2s, server_to_client = s2c, to_server = [], to_client = [], tcp_log = []\<rparr>"

text \<open>The first copy to end ends the session; an error is logged and the result is \<open>Ok\<close>.\<close>

fun proxy_tcp :: "branch list \<Rightarrow> tcp_session \<Rightarrow> unit outcome option \<times> tcp_session" where
  "proxy_tcp [] s = (None, s)"
| "proxy_tcp (Client_Branch # sched) s =
     (case client_to_server s of
        [] \<Rightarrow> proxy_tcp sched s
      | Copy_Pending # ps \<Rightarrow> proxy_tcp sched (s\<lparr>client_to_server := ps\<rparr>)
      | Wrote bs # ps \<Rightarrow>
          proxy_tcp sched (s\<lparr>client_to_server := ps, to_server := to_server s @ bs\<rparr>)
      | Copied # ps \<Rightarrow> (Some (Ok ()), s)
      | Copy_Failed e # ps \<Rightarrow> (Some (Ok ()), s\<lparr>tcp_log := tcp_log s @ [e]\<rparr>))"
| "proxy_tcp (Upstream_Branch # sched) s =
     (case server_to_client s of
        [] \<Rightarrow> proxy_tcp sched s
      | Copy_Pending # ps \<Rightarrow> proxy_tcp sched (s\<lparr>server_to_client := ps\<rparr>)
      | Wrote bs # ps \<Rightarrow>
          proxy_tcp sched (s\<lparr>server_to_client := ps, to_client := to_client s @ bs\<rparr>)
      | Copied # ps \<Rightarrow> (Some (Ok ()), s)
      | Copy_Failed e # ps \<Rightarrow> (Some (Ok ()), s\<lparr>tcp_log := tcp_log s @ [e]\<rparr>))"

section \<open>proxy\_ws\<close>

text \<open>
  One poll of \<open>next()\<close> on a WebSocket: nothing yet, the end of the stream, a message or an error.
  In one \<open>select!\<close>, a branch whose stream has ended does not match \<open>Some\<close> and is disabled; with
  both disabled and no \<open>else\<close> branch, \<open>select!\<close> panics. The results of the successive sends
  to either side are parameters.
\<close>

type_synonym 'm ws_poll = "'m outcome option poll"

record 'm ws_session =
  client_in :: "'m ws_poll list"
  upstream_in :: "'m ws_poll list"
  client_disabled :: bool
  upstream_disabled :: bool
  sent_upstream :: "'m list"
  sent_client :: "'m list"

definition ws_start :: "'m ws_poll list \<Rightarrow> 'm ws_poll list \<Rightarrow> 'm ws_session" where
  "ws_start c u =
     \<lparr>client_in = c, upstream_in = u, client_disabled = False, upstream_disabled = False,
      sent_upstream = [], sent_client = []\<rparr>"

definition select_panic :: string where
  "select_panic = ''all branches are disabled and there is no else branch''"

fun proxy_ws ::
  "(nat \<Rightarrow> unit outcome) \<Rightarrow> (nat \<Rightarrow> unit outcome) \<Rightarrow> branch list \<Rightarrow> 'm ws_session
    \<Rightarrow> unit outcome option \<times> 'm ws_session" where
  "proxy_ws up_send cl_send [] s = (None, s)"
| "proxy_ws up_send cl_send (Client_Branch # sched) s =
     (if client_disabled s then proxy_ws up_send cl_send sched s
      else case client_in s of
        [] \<Rightarrow> proxy_ws up_send cl_send sched s
      | Pending # ps \<Rightarrow> proxy_ws up_send cl_send sched (s\<lparr>client_in := ps\<rparr>)
      | Ready None # ps \<Rightarrow>
          if upstream_disabled s then (Some (Panic select_panic), s\<lparr>client_in := ps\<rparr>)
          else proxy_ws up_send cl_send sched (s\<lparr>client_in := ps, client_disabled := True\<rparr>)
      | Ready (Some (Err e)) # ps \<Rightarrow> (Some (Err e), s\<lparr>client_in := ps\<rparr>)
      | Ready (Some (Panic p)) # ps \<Rightarrow> (Some (Panic p), s\<lparr>client_in := ps\<rparr>)
      | Ready (Some (Ok m)) # ps \<Rightarrow>
          (case up_send (length (sent_upstream s)) of
             Ok _ \<Rightarrow> proxy_ws up_send cl_send sched
                (s\<lparr>client_in := ps, sent_upstream := sent_upstream s @ [m],
                   client_disabled := False, upstream_disabled := False\<rparr>)
           | Err e \<Rightarrow> (Some (Err e), s\<lparr>client_in := ps\<rparr>)
           | Panic p \<Rightarrow> (Some (Panic p), s\<lparr>client_in := ps\<rparr>)))"
| "proxy_ws up_send cl_send (Upstream_Branch # sched) s =
     (if upstream_disabled s then proxy_ws up_send cl_send sched s
      else case upstream_in s of
        [] \<Rightarrow> proxy_ws up_send cl_send sched s
      | Pending # ps \<Rightarrow> proxy_ws up_send cl_send sched (s\<lparr>upstream_in := ps\<rparr>)
      | Ready None # ps \<Rightarrow>
          if client_disabled s then (Some (Panic select_panic), s\<lparr>upstream_in := ps\<rparr>)
          else proxy_ws up_send cl_send sched (s\<lparr>upstream_in := ps, upstream_disabled := True\<rparr>)
      | Ready (Some (Err e)) # ps \<Rightarrow> (Some (Err e), s\<lparr>upstream_in := ps\<rparr>)
      | Ready (Some (Panic p)) # ps \<Rightarrow> (Some (Panic p), s\<lparr>upstream_in := ps\<rparr>)
      | Ready (Some (Ok m)) # ps \<Rightarrow>
          (case cl_send (length (sent_client s)) of
             Ok _ \<Rightarrow> proxy_ws up_send cl_send sched
                (s\<lparr>upstream_in := ps, sent_client := sent_client s @ [m],
                   client_disabled := False, upstream_disabled := False\<rparr>)
           | Err e \<Rightarrow> (Some (Err e), s\<lparr>upstream_in := ps\<rparr>)
           | Panic p \<Rightarrow> (Some (Panic p), s\<lparr>upstream_in := ps\<rparr>)))"

section \<open>StreamProxy\<close>

text \<open>Clones of a proxy share its parts; the state after a call is that of the shared balancer.\<close>

record ('sn, 'scfg, 'r) stream_proxy =
  sp_config :: stream_server
  sp_tls_server :: "('sn, 'scfg) tls_server"
  sp_load_balancer :: "'r load_balancer"

definition stream_proxy_new ::
  "stream_server \<Rightarrow> ('sn, 'scfg) tls_server \<Rightarrow> 'r load_balancer \<Rightarrow> ('sn, 'scfg, 'r) stream_proxy"
  where
  "stream_proxy_new config tls lb =
     \<lparr>sp_config = config, sp_tls_server = tls, sp_load_balancer = lb\<rparr>"

definition proxy_port :: "('sn, 'scfg, 'r) stream_proxy \<Rightarrow> u16" where
  "proxy_port p = listen_port (ss_listen (sp_config p))"

definition proxy_load_balancer :: "('sn, 'scfg, 'r) stream_proxy \<Rightarrow> 'r load_balancer" where
  "proxy_load_balancer p = sp_load_balancer p"

text \<open>A clone holds the same three parts.\<close>

definition stream_proxy_clone ::
  "('sn, 'scfg, 'r) stream_proxy \<Rightarrow> ('sn, 'scfg, 'r) stream_proxy" where
  "stream_proxy_clone p =
     \<lparr>sp_config = sp_config p, sp_tls_server = sp_tls_server p,
      sp_load_balancer = sp_load_balancer p\<rparr>"

lemma stream_proxy_clone [simp]: "stream_proxy_clone p = p"
  by (simp add: stream_proxy_clone_def)

definition proxy_protocol :: "('sn, 'scfg, 'r) stream_proxy \<Rightarrow> protocol" where
  "proxy_protocol p = listen_protocol (ss_listen (sp_config p))"

definition ws_url :: "socket_addr \<Rightarrow> string" where
  "ws_url a = ''ws://'' @ show_ip (socket_ip a) @ '':'' @ show_dec (unat (socket_port a))"

text \<open>
  What a connection meets outside the program: the answers to the polls of dialing and of the
  WebSocket handshakes on either side, which may stay pending for good, and how a session that
  gets going is scheduled.
\<close>

record ('io, 'up, 'cws, 'uws, 'm) proxy_env =
  tcp_connect :: "socket_addr \<Rightarrow> 'up outcome poll list"
  ws_accept :: "'io tls_stream \<Rightarrow> 'cws outcome poll list"
  ws_connect :: "string \<Rightarrow> 'uws outcome poll list"
  tcp_run :: "'io tls_stream \<Rightarrow> 'up \<Rightarrow> branch list \<times> copy_future \<times> copy_future"
  ws_run :: "'cws \<Rightarrow> 'uws \<Rightarrow> branch list \<times> 'm ws_poll list \<times> 'm ws_poll list"
  ws_up_send :: "nat \<Rightarrow> unit outcome"
  ws_cl_send :: "nat \<Rightarrow> unit outcome"

text \<open>The actions of a connection that reach outside, in order.\<close>

datatype action = Dial socket_addr | Ws_Accept | Ws_Dial string

type_synonym result = "action list \<times> unit outcome option"

fun bind_result :: "'a outcome \<Rightarrow> ('a \<Rightarrow> result) \<Rightarrow> result" where
  "bind_result (Ok x) f = f x"
| "bind_result (Err e) f = ([], Some (Err e))"
| "bind_result (Panic p) f = ([], Some (Panic p))"

text \<open>\<open>.await?\<close>: the result is open while the future is pending.\<close>

definition await_result :: "'a outcome poll list \<Rightarrow> ('a \<Rightarrow> result) \<Rightarrow> result" where
  "await_result ps f = (case await ps of None \<Rightarrow> ([], None) | Some r \<Rightarrow> bind_result r f)"

definition note_action :: "action \<Rightarrow> result \<Rightarrow> result" where
  "note_action a r = (a # fst r, snd r)"

definition serve_backend ::
  "('io, 'up, 'cws, 'uws, 'm) proxy_env \<Rightarrow> protocol \<Rightarrow> 'io tls_stream \<Rightarrow> backend \<Rightarrow> result" where
  "serve_backend env proto ts b =
     (case proto of
        Tcp \<Rightarrow>
          note_action (Dial (addr b))
            (await_result (tcp_connect env (addr b)) (\<lambda>up.
              let (sched, c2s, s2c) = tcp_run env ts up
              in ([], fst (proxy_tcp sched (tcp_start c2s s2c)))))
      | Ws \<Rightarrow>
          note_action Ws_Accept
            (await_result (ws_accept env ts) (\<lambda>client_ws.
              note_action (Ws_Dial (ws_url (addr b)))
                (await_result (ws_connect env (ws_url (addr b))) (\<lambda>upstream_ws.
                  let (sched, c, u) = ws_run env client_ws upstream_ws
                  in ([], fst (proxy_ws (ws_up_send env) (ws_cl_send env) sched (ws_start c u)))))))
      | _ \<Rightarrow> ([], Some (Err (Msg ''Unsupported protocol''))))"

text \<open>\<open>handle_connection\<close>; \<open>None\<close> when the connection is still being served.\<close>

definition handle_connection ::
  "build_profile
    \<Rightarrow> (('sn, 'scfg) tls_server \<Rightarrow> 'io \<Rightarrow> ('sn server_tls \<times> 'io tls_stream) outcome option)
    \<Rightarrow> ('io, 'up, 'cws, 'uws, 'm) proxy_env \<Rightarrow> rng
    \<Rightarrow> ('sn, 'scfg, 'r) stream_proxy \<Rightarrow> 'io \<Rightarrow> result \<times> ('sn, 'scfg, 'r) stream_proxy" where
  "handle_connection prof term env draw p io =
     (case term (sp_tls_server p) io of
        None \<Rightarrow> (([], None), p)
      | Some (Err e) \<Rightarrow> (([], Some (Err e)), p)
      | Some (Panic m) \<Rightarrow> (([], Some (Panic m)), p)
      | Some (Ok (server_tls, tls_stream)) \<Rightarrow>
          (let (selected, lb) = lb_select prof draw None (sp_load_balancer p);
               p' = p\<lparr>sp_load_balancer := lb\<rparr>
           in (bind_result selected (\<lambda>ob.
                 case ob of
                   Some b \<Rightarrow> serve_backend env (proxy_protocol p) tls_stream b
                 | None \<Rightarrow> ([], Some (Err (Msg ''No backends available'')))),
               p')))"

text \<open>The \<open>tower::Service\<close> instance.\<close>

definition sp_poll_ready :: "('sn, 'scfg, 'r) stream_proxy \<Rightarrow> unit outcome poll" where
  "sp_poll_ready p = Ready (Ok ())"

definition sp_call ::
  "build_profile
    \<Rightarrow> (('sn, 'scfg) tls_server \<Rightarrow> 'io \<Rightarrow> ('sn server_tls \<times> 'io tls_stream) outcome option)
    \<Rightarrow> ('io, 'up, 'cws, 'uws, 'm) proxy_env \<Rightarrow> rng
    \<Rightarrow> ('sn, 'scfg, 'r) stream_proxy \<Rightarrow> 'io \<Rightarrow> result \<times> ('sn, 'scfg, 'r) stream_proxy" where
  "sp_call prof term env draw p req =
     handle_connection prof term env draw (stream_proxy_clone p) req"

end
