(* ===== verification/Proxy_Facts.thy ===== *)
theory Proxy_Facts
  imports Stream_Proxy
begin

text \<open>
  What the two session loops do under every schedule, and what a connection does outside: the
  bytes and messages relayed, how a session can end (with a measure of the polls left in a
  WebSocket session that both peers close), and which backends are contacted when.
\<close>

section \<open>TCP sessions\<close>

lemma proxy_tcp_result: "fst (proxy_tcp sched s) \<in> {None, Some (Ok ())}"
  by (induction sched s rule: proxy_tcp.induct) (auto split: list.splits copy_poll.splits)

text \<open>What a copy wrote and what it has still to write make up what it writes in all.\<close>

lemma proxy_tcp_conserves:
  assumes "proxy_tcp sched s = (r, s')"
  shows "to_server s' @ written (client_to_server s') = to_server s @ written (client_to_server s)"
    and "to_client s' @ written (server_to_client s') = to_client s @ written (server_to_client s)"
  using assms
  by (induction sched s rule: proxy_tcp.induct) (auto split: list.splits copy_poll.splits)

lemma proxy_tcp_succeeds:
  assumes "proxy_tcp sched s = (r, s')"
  shows "copy_succeeds (client_to_server s') = copy_succeeds (client_to_server s)"
    and "copy_succeeds (server_to_client s') = copy_succeeds (server_to_client s)"
  using assms
  by (induction sched s rule: proxy_tcp.induct) (auto split: list.splits copy_poll.splits)

definition at_end :: "copy_future \<Rightarrow> bool" where
  "at_end fut \<longleftrightarrow> (\<exists>ps. fut = Copied # ps)"

lemma at_endD: "at_end fut \<Longrightarrow> written fut = [] \<and> copy_succeeds fut"
  by (auto simp: at_end_def)

lemma proxy_tcp_ended:
  "proxy_tcp sched s = (Some r, s') \<Longrightarrow>
     (at_end (client_to_server s') \<or> at_end (server_to_client s')) \<and> tcp_log s' = tcp_log s
     \<or> (\<exists>e. tcp_log s' = tcp_log s @ [e])"
  by (induction sched s rule: proxy_tcp.induct)
    (auto simp: at_end_def split: list.splits copy_poll.splits)

lemma tcp_start_simps [simp]:
  "client_to_server (tcp_start c s) = c" "server_to_client (tcp_start c s) = s"
  "to_server (tcp_start c s) = []" "to_client (tcp_start c s) = []" "tcp_log (tcp_start c s) = []"
  by (simp_all add: tcp_start_def)

lemma faithful_end:
  "faithful_copy src fut \<Longrightarrow> done @ written rest = written fut \<Longrightarrow> prefix done src"
  by (metis faithful_copy_def prefix_order.trans prefixI)

lemma faithful_complete:
  assumes "faithful_copy src fut" "out @ written rest = written fut"
    and "copy_succeeds rest = copy_succeeds fut" "at_end rest"
  shows "out = src"
  using assms at_endD [of rest] by (simp add: faithful_copy_def)

lemma proxy_tcp_relays:
  assumes c: "faithful_copy src_c c2s" and s: "faithful_copy src_s s2c"
    and run: "proxy_tcp sched (tcp_start c2s s2c) = (r, s')"
  shows "prefix (to_server s') src_c \<and> prefix (to_client s') src_s \<and>
    (r \<noteq> None \<and> tcp_log s' = [] \<longrightarrow> to_server s' = src_c \<or> to_client s' = src_s)"
proof -
  note cons = proxy_tcp_conserves [OF run, simplified] and succ = proxy_tcp_succeeds [OF run, simplified]
  have "to_server s' = src_c \<or> to_client s' = src_s" if "r = Some x" "tcp_log s' = []" for x
  proof -
    have "at_end (client_to_server s') \<or> at_end (server_to_client s')"
      using proxy_tcp_ended [of sched "tcp_start c2s s2c" x s'] run that by auto
    then show ?thesis
      using faithful_complete [OF c cons(1) succ(1)] faithful_complete [OF s cons(2) succ(2)] by blast
  qed
  then show ?thesis using faithful_end [OF c cons(1)] faithful_end [OF s cons(2)] by auto
qed

text \<open>A session ends: once either copy has been polled to its end.\<close>

fun copy_ends :: "copy_future \<Rightarrow> bool" where
  "copy_ends [] = False"
| "copy_ends (Copy_Pending # ps) = copy_ends ps"
| "copy_ends (Wrote bs # ps) = copy_ends ps"
| "copy_ends (p # ps) = True"

lemma proxy_tcp_ends_client:
  "copy_ends (client_to_server s) \<Longrightarrow> length (client_to_server s) \<le> count_list sched Client_Branch
     \<Longrightarrow> fst (proxy_tcp sched s) = Some (Ok ())"
proof (induction sched s rule: proxy_tcp.induct)
  case (2 sched s)
  then show ?case by (auto split: list.splits copy_poll.splits)
qed (auto split: list.splits copy_poll.splits)

lemma proxy_tcp_ends_server:
  "copy_ends (server_to_client s) \<Longrightarrow> length (server_to_client s) \<le> count_list sched Upstream_Branch
     \<Longrightarrow> fst (proxy_tcp sched s) = Some (Ok ())"
proof (induction sched s rule: proxy_tcp.induct)
  case (3 sched s)
  then show ?case by (auto split: list.splits copy_poll.splits)
qed (auto split: list.splits copy_poll.splits)

section \<open>WebSocket sessions\<close>

lemma proxy_ws_not_Ok: "fst (proxy_ws up cl sched s) \<noteq> Some (Ok ())"
  by (induction up cl sched s rule: proxy_ws.induct)
    (auto split: list.splits poll.splits option.splits outcome.splits)

text \<open>The messages a stream yields.\<close>

fun ws_msgs :: "'m ws_poll list \<Rightarrow> 'm list" where
  "ws_msgs [] = []"
| "ws_msgs (Ready (Some (Ok m)) # ps) = m # ws_msgs ps"
| "ws_msgs (p # ps) = ws_msgs ps"

definition relayed :: "bool \<Rightarrow> 'm list \<Rightarrow> 'm ws_poll list \<Rightarrow> 'm list \<Rightarrow> 'm ws_poll list \<Rightarrow> bool" where
  "relayed running sent inp sent' inp' \<longleftrightarrow>
     (\<exists>lost. sent @ ws_msgs inp = sent' @ lost @ ws_msgs inp' \<and> length lost \<le> 1 \<and>
        (running \<longrightarrow> lost = []))"

lemma relayed_refl [simp]: "relayed b sent inp sent inp"
  by (auto simp: relayed_def)

lemma relayed_skip: "ws_msgs (p # ps) = ws_msgs ps \<Longrightarrow>
    relayed b sent (p # ps) sent' inp' \<longleftrightarrow> relayed b sent ps sent' inp'"
  by (simp add: relayed_def)

lemma relayed_sent: "relayed b sent (Ready (Some (Ok m)) # ps) sent' inp' \<longleftrightarrow>
    relayed b (sent @ [m]) ps sent' inp'"
  by (simp add: relayed_def)

lemma relayed_lost: "relayed False sent (p # ps) sent ps"
  unfolding relayed_def by (cases "p # ps" rule: ws_msgs.cases) (auto intro: exI [of _ "[_]"])

lemma relayed_unsent: "relayed False (sent @ [m]) ps sent ps"
  unfolding relayed_def by (intro exI [of _ "[m]"]) simp

lemma proxy_ws_relays:
  assumes "proxy_ws up cl sched s = (r, s')"
  shows "relayed (r = None) (sent_upstream s) (client_in s) (sent_upstream s') (client_in s')
       \<and> relayed (r = None) (sent_client s) (upstream_in s) (sent_client s') (upstream_in s')"
  using assms
  by (induction up cl sched s rule: proxy_ws.induct)
    (auto simp: relayed_skip relayed_sent relayed_lost relayed_unsent
      split: if_splits list.splits poll.splits option.splits outcome.splits)

text \<open>Both streams ended: \<open>select!\<close> has no branch left.\<close>

lemma proxy_ws_client_ended:
  "client_disabled s \<Longrightarrow> \<not> upstream_disabled s \<Longrightarrow> upstream_in s = Ready None # us \<Longrightarrow>
     Upstream_Branch \<in> set sched \<Longrightarrow> fst (proxy_ws up cl sched s) = Some (Panic select_panic)"
  by (induction up cl sched s rule: proxy_ws.induct) auto

lemma proxy_ws_upstream_ended:
  "upstream_disabled s \<Longrightarrow> \<not> client_disabled s \<Longrightarrow> client_in s = Ready None # cs \<Longrightarrow>
     Client_Branch \<in> set sched \<Longrightarrow> fst (proxy_ws up cl sched s) = Some (Panic select_panic)"
  by (induction up cl sched s rule: proxy_ws.induct) auto

lemma proxy_ws_both_ended:
  assumes "client_in s = Ready None # cs" "upstream_in s = Ready None # us"
    and "\<not> client_disabled s" "\<not> upstream_disabled s"
    and "Client_Branch \<in> set sched" "Upstream_Branch \<in> set sched"
  shows "fst (proxy_ws up cl sched s) = Some (Panic select_panic)"
proof (cases sched)
  case Nil
  with assms show ?thesis by simp
next
  case (Cons b bs)
  show ?thesis
  proof (cases b)
    case Client_Branch
    then show ?thesis using assms Cons by (simp add: proxy_ws_client_ended)
  next
    case Upstream_Branch
    then show ?thesis using assms Cons by (simp add: proxy_ws_upstream_ended)
  qed
qed

section \<open>Sessions piece by piece\<close>

lemma proxy_tcp_append:
  "proxy_tcp (xs @ ys) s =
     (case proxy_tcp xs s of (None, s') \<Rightarrow> proxy_tcp ys s' | (Some r, s') \<Rightarrow> (Some r, s'))"
  by (induction xs s rule: proxy_tcp.induct) (auto split: list.splits copy_poll.splits)

lemma proxy_ws_append:
  "proxy_ws up cl (xs @ ys) s =
     (case proxy_ws up cl xs s of (None, s') \<Rightarrow> proxy_ws up cl ys s' | (Some r, s') \<Rightarrow> (Some r, s'))"
  by (induction up cl xs s rule: proxy_ws.induct)
    (auto split: list.splits poll.splits option.splits outcome.splits)

section \<open>WebSocket sessions that both peers close\<close>

text \<open>What a peer sends before it closes: messages, with waiting in between.\<close>

definition ws_talk :: "'m ws_poll list \<Rightarrow> bool" where
  "ws_talk ps \<longleftrightarrow> list_all (\<lambda>p. p = Pending \<or> (\<exists>m. p = Ready (Some (Ok m)))) ps"

text \<open>
  A session in which the client has \<open>us\<close> and the upstream \<open>vs\<close> still to say. A closed stream
  goes on answering that it has ended; every message of the other side makes \<open>select!\<close> ask again.
\<close>

definition ws_closing :: "'m ws_poll list \<Rightarrow> 'm ws_poll list \<Rightarrow> 'm ws_session \<Rightarrow> bool" where
  "ws_closing us vs s \<longleftrightarrow> ws_talk us \<and> ws_talk vs \<and> \<not> (client_disabled s \<and> upstream_disabled s) \<and>
     (\<exists>k l. client_in s = us @ replicate k (Ready None) \<and> upstream_in s = vs @ replicate l (Ready None) \<and>
        (if client_disabled s then us = [] \<and> length vs \<le> k else length vs < k) \<and>
        (if upstream_disabled s then vs = [] \<and> length us \<le> l else length us < l))"

lemma ws_closing_start:
  "ws_talk us \<Longrightarrow> ws_talk vs \<Longrightarrow> length vs < k \<Longrightarrow> length us < l \<Longrightarrow>
     ws_closing us vs (ws_start (us @ replicate k (Ready None)) (vs @ replicate l (Ready None)))"
  by (auto simp: ws_closing_def ws_start_def)

lemma ws_client_turn:
  assumes "ws_closing us vs s" "\<forall>n. up n = Ok ()"
  obtains (moves) us' s1 where "proxy_ws up cl (Client_Branch # sched) s = proxy_ws up cl sched s1"
      "ws_closing us' vs s1" "length us' \<le> length us - 1"
      "sent_upstream s1 @ ws_msgs us' = sent_upstream s @ ws_msgs us" "sent_client s1 = sent_client s"
  | (ends) s1 where "us = []" "vs = []"
      "proxy_ws up cl (Client_Branch # sched) s = (Some (Panic select_panic), s1)"
      "sent_upstream s1 = sent_upstream s" "sent_client s1 = sent_client s"
proof (cases "client_disabled s")
  case True
  with assms(1) have "us = []" by (auto simp: ws_closing_def)
  with True assms(1) show thesis by (intro moves [of s us]) simp_all
next
  case False
  with assms(1) obtain k l where st: "client_in s = us @ replicate k (Ready None)" "length vs < k"
    "upstream_in s = vs @ replicate l (Ready None)" "ws_talk us" "ws_talk vs"
    "if upstream_disabled s then vs = [] \<and> length us \<le> l else length us < l"
    by (auto simp: ws_closing_def)
  show thesis
  proof (cases us)
    case Nil
    obtain k' where k': "k = Suc k'" using st(2) by (cases k) auto
    show thesis
    proof (cases "upstream_disabled s")
      case True
      then show thesis using st Nil False k' by (intro ends [of "s\<lparr>client_in := replicate k' (Ready None)\<rparr>"]) simp_all
    next
      case ud: False
      then show thesis using st Nil False k'
        by (intro moves [of "s\<lparr>client_in := replicate k' (Ready None), client_disabled := True\<rparr>" us])
          (auto simp: ws_closing_def)
    qed
  next
    case (Cons p us')
    then consider "p = Pending" | m where "p = Ready (Some (Ok m))"
      using st(4) by (auto simp: ws_talk_def)
    then show thesis
    proof cases
      case 1
      then show thesis using st Cons False
        by (intro moves [of "s\<lparr>client_in := us' @ replicate k (Ready None)\<rparr>" us'])
          (auto simp: ws_closing_def ws_talk_def split: if_splits)
    next
      case 2
      then show thesis using st Cons False assms(2)
        by (intro moves [of "s\<lparr>client_in := us' @ replicate k (Ready None), sent_upstream := sent_upstream s @ [m],
              client_disabled := False, upstream_disabled := False\<rparr>" us'])
          (auto simp: ws_closing_def ws_talk_def split: if_splits)
    qed
  qed
qed

lemma ws_upstream_turn:
  assumes "ws_closing us vs s" "\<forall>n. cl n = Ok ()"
  obtains (moves) vs' s1 where "proxy_ws up cl (Upstream_Branch # sched) s = proxy_ws up cl sched s1"
      "ws_closing us vs' s1" "length vs' \<le> length vs - 1"
      "sent_client s1 @ ws_msgs vs' = sent_client s @ ws_msgs vs" "sent_upstream s1 = sent_upstream s"
  | (ends) s1 where "us = []" "vs = []"
      "proxy_ws up cl (Upstream_Branch # sched) s = (Some (Panic select_panic), s1)"
      "sent_upstream s1 = sent_upstream s" "sent_client s1 = sent_client s"
proof (cases "upstream_disabled s")
  case True
  with assms(1) have "vs = []" by (auto simp: ws_closing_def)
  with True assms(1) show thesis by (intro moves [of s vs]) simp_all
next
  case False
  with assms(1) obtain k l where st: "upstream_in s = vs @ replicate l (Ready None)" "length us < l"
    "client_in s = us @ replicate k (Ready None)" "ws_talk vs" "ws_talk us"
    "if client_disabled s then us = [] \<and> length vs \<le> k else length vs < k"
    by (auto simp: ws_closing_def)
  show thesis
  proof (cases vs)
    case Nil
    obtain l' where l': "l = Suc l'" using st(2) by (cases l) auto
    show thesis
    proof (cases "client_disabled s")
      case True
      then show thesis using st Nil False l' by (intro ends [of "s\<lparr>upstream_in := replicate l' (Ready None)\<rparr>"]) simp_all
    next
      case cd: False
      then show thesis using st Nil False l'
        by (intro moves [of "s\<lparr>upstream_in := replicate l' (Ready None), upstream_disabled := True\<rparr>" vs])
          (auto simp: ws_closing_def)
    qed
  next
    case (Cons p vs')
    then consider "p = Pending" | m where "p = Ready (Some (Ok m))"
      using st(4) by (auto simp: ws_talk_def)
    then show thesis
    proof cases
      case 1
      then show thesis using st Cons False
        by (intro moves [of "s\<lparr>upstream_in := vs' @ replicate l (Ready None)\<rparr>" vs'])
          (auto simp: ws_closing_def ws_talk_def split: if_splits)
    next
      case 2
      then show thesis using st Cons False assms(2)
        by (intro moves [of "s\<lparr>upstream_in := vs' @ replicate l (Ready None), sent_client := sent_client s @ [m],
              client_disabled := False, upstream_disabled := False\<rparr>" vs'])
          (auto simp: ws_closing_def ws_talk_def split: if_splits)
    qed
  qed
qed

text \<open>
  How such a session can stand: ended in the panic with everything delivered, or going on with at
  most \<open>n\<close> polls left before the closes.
\<close>

definition ws_stands ::
  "'m list \<Rightarrow> 'm list \<Rightarrow> nat \<Rightarrow> unit outcome option \<times> 'm ws_session \<Rightarrow> bool" where
  "ws_stands ms ns n res \<longleftrightarrow> (case res of (r, s) \<Rightarrow>
     r = Some (Panic select_panic) \<and> sent_upstream s = ms \<and> sent_client s = ns \<or>
     r = None \<and> (\<exists>us vs. ws_closing us vs s \<and> sent_upstream s @ ws_msgs us = ms \<and>
        sent_client s @ ws_msgs vs = ns \<and> length us + length vs \<le> n))"

lemma ws_stands_mono: "ws_stands ms ns m res \<Longrightarrow> m \<le> n \<Longrightarrow> ws_stands ms ns n res"
  by (fastforce simp: ws_stands_def split: prod.splits)

lemma ws_closing_run:
  assumes "ws_closing us vs s" and ok: "\<forall>n. up n = Ok ()" "\<forall>n. cl n = Ok ()"
  shows "ws_stands (sent_upstream s @ ws_msgs us) (sent_client s @ ws_msgs vs) (length us + length vs)
    (proxy_ws up cl sched s)"
  using assms(1)
proof (induction sched arbitrary: us vs s)
  case Nil
  then show ?case by (auto simp: ws_stands_def)
next
  case (Cons br sched)
  show ?case
  proof (cases br)
    case Client_Branch
    show ?thesis
    proof (cases rule: ws_client_turn [OF Cons.prems ok(1), where cl = cl and sched = sched, case_names moves ends])
      case (moves us' s1)
      with Cons.IH [OF moves(2)] Client_Branch show ?thesis by (auto elim: ws_stands_mono)
    next
      case (ends s1)
      with Client_Branch show ?thesis by (simp add: ws_stands_def)
    qed
  next
    case Upstream_Branch
    show ?thesis
    proof (cases rule: ws_upstream_turn [OF Cons.prems ok(2), where up = up and sched = sched, case_names moves ends])
      case (moves vs' s1)
      with Cons.IH [OF moves(2)] Upstream_Branch show ?thesis by (auto elim: ws_stands_mono)
    next
      case (ends s1)
      with Upstream_Branch show ?thesis by (simp add: ws_stands_def)
    qed
  qed
qed

text \<open>A turn of a side that has something left takes it.\<close>

lemma ws_closing_progress:
  assumes "ws_closing us vs s" and ok: "\<forall>n. up n = Ok ()" "\<forall>n. cl n = Ok ()"
    and "us \<noteq> [] \<and> Client_Branch \<in> set sched \<or> vs \<noteq> [] \<and> Upstream_Branch \<in> set sched"
  shows "ws_stands (sent_upstream s @ ws_msgs us) (sent_client s @ ws_msgs vs) (length us + length vs - 1)
    (proxy_ws up cl sched s)"
  using assms(1,4)
proof (induction sched arbitrary: us vs s)
  case Nil
  then show ?case by simp
next
  case (Cons br sched)
  show ?case
  proof (cases br)
    case Client_Branch
    show ?thesis
    proof (cases rule: ws_client_turn [OF Cons.prems(1) ok(1), where cl = cl and sched = sched, case_names moves ends])
      case (moves us' s1)
      note run = ws_closing_run [OF moves(2) ok, where sched = sched]
      show ?thesis
      proof (cases "us = []")
        case True
        with Cons.prems(2) Client_Branch Cons.IH [OF moves(2)] moves show ?thesis by auto
      next
        case False
        then have "length us' + length vs \<le> length us + length vs - 1" using moves(3) by (cases us) auto
        with run moves Client_Branch show ?thesis by (auto elim: ws_stands_mono)
      qed
    next
      case (ends s1)
      with Client_Branch show ?thesis by (simp add: ws_stands_def)
    qed
  next
    case Upstream_Branch
    show ?thesis
    proof (cases rule: ws_upstream_turn [OF Cons.prems(1) ok(2), where up = up and sched = sched, case_names moves ends])
      case (moves vs' s1)
      note run = ws_closing_run [OF moves(2) ok, where sched = sched]
      show ?thesis
      proof (cases "vs = []")
        case True
        with Cons.prems(2) Upstream_Branch Cons.IH [OF moves(2)] moves show ?thesis by auto
      next
        case False
        then have "length us + length vs' \<le> length us + length vs - 1" using moves(3) by (cases vs) auto
        with run moves Upstream_Branch show ?thesis by (auto elim: ws_stands_mono)
      qed
    next
      case (ends s1)
      with Upstream_Branch show ?thesis by (simp add: ws_stands_def)
    qed
  qed
qed

lemma ws_closing_ends:
  assumes "ws_closing [] [] s" "Client_Branch \<in> set sched" "Upstream_Branch \<in> set sched"
  shows "fst (proxy_ws up cl sched s) = Some (Panic select_panic)"
proof -
  obtain k l where st: "client_in s = replicate k (Ready None)" "upstream_in s = replicate l (Ready None)"
    "client_disabled s \<or> 0 < k" "upstream_disabled s \<or> 0 < l" "\<not> (client_disabled s \<and> upstream_disabled s)"
    using assms(1) by (auto simp: ws_closing_def split: if_splits)
  show ?thesis
  proof (cases "client_disabled s")
    case True
    with st obtain l' where "l = Suc l'" by (cases l) auto
    with True st proxy_ws_client_ended [of s "replicate l' (Ready None)" sched up cl] show ?thesis
      using assms(3) by simp
  next
    case cd: False
    with st obtain k' where k: "k = Suc k'" by (cases k) auto
    show ?thesis
    proof (cases "upstream_disabled s")
      case True
      with cd k st proxy_ws_upstream_ended [of s "replicate k' (Ready None)" sched up cl] show ?thesis
        using assms(2) by simp
    next
      case False
      with st obtain l' where "l = Suc l'" by (cases l) auto
      with k cd False st
        proxy_ws_both_ended [of s "replicate k' (Ready None)" "replicate l' (Ready None)" sched up cl]
      show ?thesis using assms(2,3) by simp
    qed
  qed
qed

text \<open>Rounds in each of which both sides get a turn.\<close>

lemma ws_closing_rounds:
  assumes "ws_closing us vs s" and ok: "\<forall>n. up n = Ok ()" "\<forall>n. cl n = Ok ()"
    and "list_all (\<lambda>r. {Client_Branch, Upstream_Branch} \<subseteq> set r) rounds"
    and "length us + length vs < length rounds"
  shows "\<exists>s'. proxy_ws up cl (concat rounds) s = (Some (Panic select_panic), s') \<and>
    sent_upstream s' = sent_upstream s @ ws_msgs us \<and> sent_client s' = sent_client s @ ws_msgs vs"
  using assms(1,4,5)
proof (induction rounds arbitrary: us vs s)
  case Nil
  then show ?case by simp
next
  case (Cons r rounds)
  have both: "Client_Branch \<in> set r" "Upstream_Branch \<in> set r" using Cons.prems(2) by auto
  obtain res s1 where run: "proxy_ws up cl r s = (res, s1)" by (cases "proxy_ws up cl r s")
  have whole: "proxy_ws up cl (concat (r # rounds)) s =
      (case res of None \<Rightarrow> proxy_ws up cl (concat rounds) s1 | Some x \<Rightarrow> (Some x, s1))"
    using run by (simp add: proxy_ws_append split: option.split)
  show ?case
  proof (cases "us = [] \<and> vs = []")
    case True
    then have "res = Some (Panic select_panic)"
      using ws_closing_ends [of s r up cl] Cons.prems(1) both run by simp
    with ws_closing_run [OF Cons.prems(1) ok, where sched = r] run whole show ?thesis by (simp add: ws_stands_def)
  next
    case False
    then have "us \<noteq> [] \<and> Client_Branch \<in> set r \<or> vs \<noteq> [] \<and> Upstream_Branch \<in> set r" using both by auto
    from ws_closing_progress [OF Cons.prems(1) ok this] run
    consider "res = Some (Panic select_panic)" "sent_upstream s1 = sent_upstream s @ ws_msgs us"
        "sent_client s1 = sent_client s @ ws_msgs vs"
      | us' vs' where "res = None" "ws_closing us' vs' s1"
        "sent_upstream s1 @ ws_msgs us' = sent_upstream s @ ws_msgs us"
        "sent_client s1 @ ws_msgs vs' = sent_client s @ ws_msgs vs"
        "length us' + length vs' \<le> length us + length vs - 1"
      by (auto simp: ws_stands_def)
    then show ?thesis
    proof cases
      case 1
      with whole show ?thesis by simp
    next
      case 2
      have "length us' + length vs' < length rounds"
        using 2(5) False Cons.prems(3) by (cases us; cases vs) auto
      with Cons.IH [OF 2(2)] Cons.prems(2) 2 whole show ?thesis by auto
    qed
  qed
qed

section \<open>Connections\<close>

lemma bind_result_actions: "fst (bind_result r f) = (case r of Ok x \<Rightarrow> fst (f x) | _ \<Rightarrow> [])"
  by (cases r) auto

lemma bind_result_status:
  "snd (bind_result r f) =
     (case r of Ok x \<Rightarrow> snd (f x) | Err e \<Rightarrow> Some (Err e) | Panic p \<Rightarrow> Some (Panic p))"
  by (cases r) auto

lemma await_result_simps [simp]:
  "await_result [] f = ([], None)" "await_result (Pending # ps) f = await_result ps f"
  "await_result (Ready r # ps) f = bind_result r f"
  by (simp_all add: await_result_def)

lemma await_result_actions:
  "fst (await_result ps f) = (case await ps of Some (Ok x) \<Rightarrow> fst (f x) | _ \<Rightarrow> [])"
  by (auto simp: await_result_def bind_result_actions split: option.split outcome.split)

lemma await_result_status:
  "snd (await_result ps f) =
     (case await ps of None \<Rightarrow> None | Some (Ok x) \<Rightarrow> snd (f x) | Some (Err e) \<Rightarrow> Some (Err e)
      | Some (Panic p) \<Rightarrow> Some (Panic p))"
  by (auto simp: await_result_def bind_result_status split: option.split outcome.split)

lemma note_action_simps [simp]:
  "fst (note_action a r) = a # fst r" "snd (note_action a r) = snd r"
  by (simp_all add: note_action_def)

lemma serve_backend_actions:
  "set (fst (serve_backend env proto ts b)) \<subseteq> {Dial (addr b), Ws_Accept, Ws_Dial (ws_url (addr b))}"
  by (cases proto)
    (auto simp: serve_backend_def await_result_actions Let_def case_prod_unfold
      split: option.splits outcome.splits)

lemma handle_connection_no_handshake:
  assumes "\<And>k ts. term (sp_tls_server p) io \<noteq> Some (Ok (k, ts))"
  shows "fst (fst (handle_connection prof term env draw p io)) = []
     \<and> snd (handle_connection prof term env draw p io) = p"
  using assms by (auto simp: handle_connection_def split: option.splits outcome.splits)

lemma handle_connection_handshake:
  assumes "term (sp_tls_server p) io = Some (Ok (k, ts))"
  shows "handle_connection prof term env draw p io =
    (bind_result (fst (lb_select prof draw None (sp_load_balancer p))) (\<lambda>ob.
       case ob of
         Some b \<Rightarrow> serve_backend env (proxy_protocol p) ts b
       | None \<Rightarrow> ([], Some (Err (Msg ''No backends available'')))),
     p\<lparr>sp_load_balancer := snd (lb_select prof draw None (sp_load_balancer p))\<rparr>)"
  using assms by (simp add: handle_connection_def case_prod_unfold Let_def)

lemma handle_connection_contacts:
  assumes lb: "lb_ok (sp_load_balancer p)" "rng_ok draw" "fits_usize (cell (sp_load_balancer p))"
    and a: "a \<in> set (fst (fst (handle_connection prof term env draw p io)))"
  shows "\<exists>k ts b. term (sp_tls_server p) io = Some (Ok (k, ts)) \<and>
    b \<in> set (cell (sp_load_balancer p)) \<and> a \<in> {Dial (addr b), Ws_Accept, Ws_Dial (ws_url (addr b))}"
proof -
  obtain k ts where t: "term (sp_tls_server p) io = Some (Ok (k, ts))"
    using handle_connection_no_handshake [of "term" p io prof env draw] a by (metis empty_iff empty_set)
  have hc: "fst (handle_connection prof term env draw p io) =
      bind_result (fst (lb_select prof draw None (sp_load_balancer p))) (\<lambda>ob.
        case ob of Some b \<Rightarrow> serve_backend env (proxy_protocol p) ts b
        | None \<Rightarrow> ([], Some (Err (Msg ''No backends available''))))"
    using t by (simp add: handle_connection_handshake)
  obtain b where b: "fst (lb_select prof draw None (sp_load_balancer p)) = Ok (Some b)"
    and ab: "a \<in> set (fst (serve_backend env (proxy_protocol p) ts b))"
    using a unfolding hc
    by (auto simp: bind_result_actions split: outcome.splits option.splits dest!: sym [of "Ok _"])
  have "b \<in> set (cell (sp_load_balancer p))"
    by (rule lb_select_mem [OF lb b])
  with t ab serve_backend_actions show ?thesis by blast
qed

lemma handle_connection_ws_not_Ok:
  assumes "proxy_protocol p = Ws"
  shows "snd (fst (handle_connection prof term env draw p io)) \<noteq> Some (Ok ())"
proof -
  have "snd (serve_backend env Ws ts b) \<noteq> Some (Ok ())" for ts b
    by (auto simp: serve_backend_def Let_def case_prod_unfold proxy_ws_not_Ok await_result_status
        split: option.splits outcome.splits)
  then show ?thesis
    using assms
    by (auto simp: handle_connection_def Let_def case_prod_unfold bind_result_status
        split: option.splits outcome.splits)
qed

end
