(* ===== verification/Connection_Tasks.thy ===== *)
theory Connection_Tasks
  imports Proxy_Facts
begin

text \<open>
  \<open>handle_connection\<close> as the asynchronous task it is: one definition step is what the task does
  between two points where it can be suspended. Between the steps of a task the others move, on
  the same balancer: the snapshot of the backends and the pick from it are two steps, so the
  refresh task and other connections may come between them. The contract of the task with the
  functional \<open>handle_connection\<close> of \<open>Stream_Proxy\<close> has two directions: whatever the task did
  when it has finished is what \<open>serve_backend\<close> says for the backend it picked, and a task that
  runs alone computes \<open>handle_connection\<close>.
\<close>

section \<open>Phases\<close>

text \<open>
  The three phases that wait for the network outside the TLS handshake (the dial and the two
  WebSocket handshakes) hold how often their future has been polled so far: its next answer is the
  one at that place in the list of answers the environment gives. The call itself, and with it the
  action, happens at the first poll.
\<close>

datatype ('sn, 'io, 'cws, 'm) phase =
    Handshaking "('sn server_tls \<times> 'io tls_stream) outcome poll list"
  | Loading "'io tls_stream"
  | Choosing "'io tls_stream" "backend btree_set"
  | Connecting "'io tls_stream" backend nat
  | Ws_Accepting "'io tls_stream" backend nat
  | Ws_Connecting 'cws backend nat
  | Tcp_Relaying tcp_session
  | Ws_Relaying "'m ws_session"
  | Finished "unit outcome"

record ('sn, 'io, 'cws, 'm) conn_task =
  task_io :: 'io
  task_phase :: "('sn, 'io, 'cws, 'm) phase"
  task_actions :: "action list"
  task_choice :: "(backend btree_set \<times> backend) option"

text \<open>A task as \<open>run_service\<close> spawns it: the future of the handshake, not yet polled.\<close>

definition task_spawn ::
  "(string \<Rightarrow> 'sn outcome) \<Rightarrow> ('scfg \<Rightarrow> 'io \<Rightarrow> 'io tls_stream outcome poll list)
    \<Rightarrow> ('sn, 'scfg, 'r) stream_proxy \<Rightarrow> 'io \<Rightarrow> ('sn, 'io, 'cws, 'm) conn_task" where
  "task_spawn f accept p io =
     \<lparr>task_io = io, task_phase = Handshaking (tls_call f accept (sp_tls_server p) io),
      task_actions = [], task_choice = None\<rparr>"

definition finish ::
  "unit outcome \<Rightarrow> ('sn, 'io, 'cws, 'm) conn_task \<Rightarrow> ('sn, 'io, 'cws, 'm) conn_task" where
  "finish r t = t\<lparr>task_phase := Finished r\<rparr>"

definition go ::
  "('sn, 'io, 'cws, 'm) phase \<Rightarrow> ('sn, 'io, 'cws, 'm) conn_task \<Rightarrow> ('sn, 'io, 'cws, 'm) conn_task"
  where
  "go ph t = t\<lparr>task_phase := ph\<rparr>"

definition act ::
  "action \<Rightarrow> ('sn, 'io, 'cws, 'm) conn_task \<Rightarrow> ('sn, 'io, 'cws, 'm) conn_task" where
  "act a t = t\<lparr>task_actions := task_actions t @ [a]\<rparr>"

text \<open>Going on with the value of a fallible call, or finishing with its failure.\<close>

fun continue_with ::
  "'a outcome \<Rightarrow> ('a \<Rightarrow> ('sn, 'io, 'cws, 'm) conn_task \<Rightarrow> ('sn, 'io, 'cws, 'm) conn_task)
    \<Rightarrow> ('sn, 'io, 'cws, 'm) conn_task \<Rightarrow> ('sn, 'io, 'cws, 'm) conn_task" where
  "continue_with (Ok x) k t = k x t"
| "continue_with (Err e) k t = finish (Err e) t"
| "continue_with (Panic p) k t = finish (Panic p) t"

text \<open>
  The answer to poll number \<open>n\<close> of a future (pending once its answers run out), the step of
  an \<open>.await?\<close> on it, and what is done at its first poll only.
\<close>

definition poll_answer :: "nat \<Rightarrow> 'a poll list \<Rightarrow> 'a poll" where
  "poll_answer n ps = (case drop n ps of [] \<Rightarrow> Pending | p # _ \<Rightarrow> p)"

definition await_step ::
  "nat \<Rightarrow> 'a outcome poll list \<Rightarrow> (nat \<Rightarrow> ('sn, 'io, 'cws, 'm) phase)
    \<Rightarrow> ('a \<Rightarrow> ('sn, 'io, 'cws, 'm) conn_task \<Rightarrow> ('sn, 'io, 'cws, 'm) conn_task)
    \<Rightarrow> ('sn, 'io, 'cws, 'm) conn_task \<Rightarrow> ('sn, 'io, 'cws, 'm) conn_task" where
  "await_step n ps wait k t =
     (case poll_answer n ps of
        Pending \<Rightarrow> go (wait (Suc n)) t
      | Ready r \<Rightarrow> continue_with r k t)"

definition act_first ::
  "nat \<Rightarrow> action \<Rightarrow> ('sn, 'io, 'cws, 'm) conn_task \<Rightarrow> ('sn, 'io, 'cws, 'm) conn_task" where
  "act_first n a t = (if n = 0 then act a t else t)"

text \<open>The match on the protocol, once a backend is chosen.\<close>

fun dispatch ::
  "protocol \<Rightarrow> 'io tls_stream \<Rightarrow> backend \<Rightarrow> ('sn, 'io, 'cws, 'm) conn_task
    \<Rightarrow> ('sn, 'io, 'cws, 'm) conn_task" where
  "dispatch Tcp ts b t = go (Connecting ts b 0) t"
| "dispatch Ws ts b t = go (Ws_Accepting ts b 0) t"
| "dispatch proto ts b t = finish (Err (Msg ''Unsupported protocol'')) t"

section \<open>Polling a task\<close>

text \<open>
  One poll. \<open>br\<close> is the branch a \<open>select!\<close> of a session polls. The first component is the
  balancer, which only the pick changes.
\<close>

definition pick_backend ::
  "build_profile \<Rightarrow> rng \<Rightarrow> protocol \<Rightarrow> 'io tls_stream \<Rightarrow> backend btree_set
    \<Rightarrow> 'r load_balancer \<times> ('sn, 'io, 'cws, 'm) conn_task
    \<Rightarrow> 'r load_balancer \<times> ('sn, 'io, 'cws, 'm) conn_task" where
  "pick_backend prof draw proto ts bs lt =
     (let (r, sel) = selector_select prof draw (lb_selection (fst lt)) bs in
      ((fst lt)\<lparr>lb_selection := sel\<rparr>,
       continue_with r (\<lambda>ob t.
         case ob of
           Some b \<Rightarrow> dispatch proto ts b (t\<lparr>task_choice := Some (bs, b)\<rparr>)
         | None \<Rightarrow> finish (Err (Msg ''No backends available'')) t) (snd lt)))"

fun task_poll ::
  "build_profile \<Rightarrow> rng \<Rightarrow> ('io, 'up, 'cws, 'uws, 'm) proxy_env \<Rightarrow> protocol \<Rightarrow> branch
    \<Rightarrow> 'r load_balancer \<times> ('sn, 'io, 'cws, 'm) conn_task
    \<Rightarrow> 'r load_balancer \<times> ('sn, 'io, 'cws, 'm) conn_task" where
  "task_poll prof draw env proto br (lb, t) =
     (case task_phase t of
        Handshaking [] \<Rightarrow> (lb, t)
      | Handshaking (Pending # ps) \<Rightarrow> (lb, go (Handshaking ps) t)
      | Handshaking (Ready r # ps) \<Rightarrow> (lb, continue_with r (\<lambda>(k, ts). go (Loading ts)) t)
      | Loading ts \<Rightarrow>
          (let bs = get_backends (lb_backends lb) in
           if bs = [] then (lb, finish (Err (Msg ''No backends available'')) t)
           else (lb, go (Choosing ts bs) t))
      | Choosing ts bs \<Rightarrow> pick_backend prof draw proto ts bs (lb, t)
      | Connecting ts b n \<Rightarrow>
          (lb, await_step n (tcp_connect env (addr b)) (Connecting ts b) (\<lambda>up.
                 go (Tcp_Relaying (case tcp_run env ts up of (_, c2s, s2c) \<Rightarrow> tcp_start c2s s2c)))
               (act_first n (Dial (addr b)) t))
      | Ws_Accepting ts b n \<Rightarrow>
          (lb, await_step n (ws_accept env ts) (Ws_Accepting ts b)
               (\<lambda>client_ws. go (Ws_Connecting client_ws b 0)) (act_first n Ws_Accept t))
      | Ws_Connecting client_ws b n \<Rightarrow>
          (lb, await_step n (ws_connect env (ws_url (addr b))) (Ws_Connecting client_ws b) (\<lambda>upstream_ws.
                 go (Ws_Relaying (case ws_run env client_ws upstream_ws of (_, c, u) \<Rightarrow> ws_start c u)))
               (act_first n (Ws_Dial (ws_url (addr b))) t))
      | Tcp_Relaying s \<Rightarrow>
          (case proxy_tcp [br] s of
             (None, s') \<Rightarrow> (lb, go (Tcp_Relaying s') t)
           | (Some r, s') \<Rightarrow> (lb, finish r t))
      | Ws_Relaying s \<Rightarrow>
          (case proxy_ws (ws_up_send env) (ws_cl_send env) [br] s of
             (None, s') \<Rightarrow> (lb, go (Ws_Relaying s') t)
           | (Some r, s') \<Rightarrow> (lb, finish r t))
      | Finished r \<Rightarrow> (lb, t))"

end
