(* ===== verification/Server.thy ===== *)
theory Server
  imports Proxy_Facts
begin

text \<open>
  \<open>app/server.rs\<close> with \<open>app/mod.rs\<close> and \<open>app/metric.rs\<close>: building the server from the
  configuration, listening and accepting, the service loop, running and shutting down. Sockets,
  the listener and the resolver library are parameters; what the spawned tasks do, interleaved,
  are the step relations of \<open>Server_Runtime\<close> and, coarser, of \<open>Service_System\<close>.
\<close>

section \<open>Selector and discovery\<close>

definition create_selector :: "lb_kind \<Rightarrow> selector outcome" where
  "create_selector k =
     (case k of
        Random \<Rightarrow> Ok Sel_Random
      | RoundRobin \<Rightarrow> Ok (Sel_Round_Robin rr_default)
      | WeightedRoundRobin \<Rightarrow> Ok (Sel_Weighted wrr_default)
      | LeastConn \<Rightarrow> Ok (Sel_Least_Conn lc_default)
      | IpHash \<Rightarrow> Panic ''not yet implemented'')"

record ('cfg, 'opts, 'nm, 'r) resolver_lib =
  rl_api :: "('cfg, 'opts, 'nm) resolver_api"
  rl_tokio :: "'cfg \<times> 'opts \<Rightarrow> 'r"
  rl_system :: "'r outcome"

definition create_discovery ::
  "('cfg, 'opts, 'nm, 'r) resolver_lib \<Rightarrow> upstream \<Rightarrow> 'r discovery outcome" where
  "create_discovery lib config =
     (case up_service_discovery config of
        Dns \<Rightarrow>
          and_then
            (ok_or (Msg ''No servers found'')
               (case up_servers config of [] \<Rightarrow> None | us # _ \<Rightarrow> Some us)) (\<lambda>us.
          and_then (dns_new (rl_api lib) (rl_tokio lib) (rl_system lib) (us_address us) (us_port us) None)
            (\<lambda>d. Ok (Dns_Discovery d)))
      | Local \<Rightarrow>
          and_then
            (try_fold (\<lambda>backends us. and_then (to_socket_addrs us) (\<lambda>a. Ok (backends @ [a])))
               [] (up_servers config)) (\<lambda>backends.
          Ok (Local_Discovery (with_backends backends))))"

definition initialize_load_balancer ::
  "('cfg, 'opts, 'nm, 'r) resolver_lib \<Rightarrow> upstream \<Rightarrow> 'r load_balancer outcome" where
  "initialize_load_balancer lib up =
     and_then (create_discovery lib up) (\<lambda>discovery.
     let bs = backends_new discovery in
     and_then (create_selector (up_load_balancer up)) (\<lambda>sel.
     Ok (lb_new bs sel)))"

definition initialize_tls_server ::
  "('sn, 'sv, 'ccfg, 'scfg) tls_store \<Rightarrow> ('sn, 'scfg) tls_server outcome" where
  "initialize_tls_server store = Ok (tls_server_new (store_server_name store) (server_cfg store))"

section \<open>UmayServer\<close>

text \<open>\<open>f64\<close> as its IEEE 754 bits.\<close>

type_synonym f64 = "64 word"

record metrics =
  metric_name :: string
  metric_value :: f64

definition metrics_new :: "string \<Rightarrow> f64 \<Rightarrow> metrics" where
  "metrics_new nm v = \<lparr>metric_name = nm, metric_value = v\<rparr>"

definition f64_one :: f64 where
  "f64_one = 0x3FF0000000000000"

text \<open>\<open>HttpProxy\<close> has no fields.\<close>

datatype http_proxy = HttpProxy

record ('sn, 'scfg, 'r) umay_server =
  stream_proxies :: "('sn, 'scfg, 'r) stream_proxy list"
  http_proxies :: "http_proxy list"
  server_config_ref :: umay_config
  server_metrics :: metrics

text \<open>The body of the loop of \<open>try_from\<close>, for one stream server.\<close>

definition build_proxy ::
  "('sn, 'key, 'roots, 'sk, 'sv, 'cv, 'ccfg, 'scfg) rustls_api
    \<Rightarrow> ('cfg, 'opts, 'nm, 'r) resolver_lib \<Rightarrow> file_system \<Rightarrow> stream_config \<Rightarrow> stream_server
    \<Rightarrow> ('sn, 'scfg, 'r) stream_proxy outcome" where
  "build_proxy api lib fs sc ss =
     and_then (ok_or (Msg ''No TLS configuration found'') (ss_tls ss)) (\<lambda>tls_config.
     and_then (store_try_from api fs tls_config) (\<lambda>store.
     and_then (initialize_tls_server store) (\<lambda>tls_server.
     and_then (ok_or (Msg ''Failed to find upstream for stream server'')
                 (stream_upstream sc (ss_proxy_pass ss))) (\<lambda>up.
     and_then (initialize_load_balancer lib up) (\<lambda>lb.
     case listen_protocol (ss_listen ss) of
       Tcp \<Rightarrow> Ok (stream_proxy_new ss tls_server lb)
     | Ws \<Rightarrow> Ok (stream_proxy_new ss tls_server lb)
     | Udp \<Rightarrow> Panic ''not yet implemented''
     | Http \<Rightarrow> Panic ''not yet implemented'')))))"

definition server_try_from ::
  "('sn, 'key, 'roots, 'sk, 'sv, 'cv, 'ccfg, 'scfg) rustls_api
    \<Rightarrow> ('cfg, 'opts, 'nm, 'r) resolver_lib \<Rightarrow> file_system \<Rightarrow> umay_config
    \<Rightarrow> ('sn, 'scfg, 'r) umay_server outcome" where
  "server_try_from api lib fs config =
     and_then
       (case stream config of
          None \<Rightarrow> Ok []
        | Some sc \<Rightarrow>
            try_fold (\<lambda>proxies ss. and_then (build_proxy api lib fs sc ss) (\<lambda>p. Ok (proxies @ [p])))
              [] (st_servers sc))
       (\<lambda>proxies.
     Ok \<lparr>stream_proxies = proxies, http_proxies = [], server_config_ref = config,
         server_metrics = metrics_new ''umay'' f64_one\<rparr>)"

section \<open>Sockets\<close>

fun ipv4_mapped :: "socket_addr \<Rightarrow> socket_addr" where
  "ipv4_mapped (SocketV6 ip p fl sc) =
     (case to_ipv4_mapped ip of Some v4 \<Rightarrow> SocketV4 v4 p | None \<Rightarrow> SocketV6 ip p fl sc)"
| "ipv4_mapped (SocketV4 ip p) = SocketV4 ip p"

text \<open>
  The socket options of \<open>tokio\<close> and \<open>socket2\<close>: a setter gives the error it meets, if any, and
  the socket; the conversions may fail. \<open>None\<close> as a keep-alive time leaves the system's.
\<close>

record 'sock socket_ops =
  so_set_nodelay :: "'sock \<Rightarrow> error option \<times> 'sock"
  so_into_std :: "'sock \<Rightarrow> 'sock outcome"
  so_set_keepalive :: "duration option \<Rightarrow> 'sock \<Rightarrow> error option \<times> 'sock"
  so_from_std :: "'sock \<Rightarrow> 'sock outcome"
  so_peer_addr :: "'sock \<Rightarrow> socket_addr outcome"

definition set_nodelay_or_warn :: "'sock socket_ops \<Rightarrow> 'sock \<Rightarrow> 'sock" where
  "set_nodelay_or_warn ops s = snd (so_set_nodelay ops s)"

definition set_keepalive_or_warn ::
  "'sock socket_ops \<Rightarrow> 'sock \<Rightarrow> duration option \<Rightarrow> 'sock outcome" where
  "set_keepalive_or_warn ops tcp keepalive_duration =
     and_then (so_into_std ops tcp) (\<lambda>sock.
     let ka = foldl (\<lambda>k t. Some t) None
                (case keepalive_duration of None \<Rightarrow> [] | Some d \<Rightarrow> [d]);
         sock' = snd (so_set_keepalive ops ka sock)
     in so_from_std ops sock')"

text \<open>The closure \<open>bind_listener\<close> maps over the stream of accepted sockets.\<close>

definition accepted_socket :: "'sock socket_ops \<Rightarrow> 'sock outcome \<Rightarrow> 'sock outcome" where
  "accepted_socket ops res =
     and_then (wrap_err ''Failed to accept connection'' res) (\<lambda>tcp.
     let tcp = set_nodelay_or_warn ops tcp in
     and_then (wrap_err ''Failed to set keepalive'' (set_keepalive_or_warn ops tcp None)) (\<lambda>tcp.
     and_then (wrap_err ''Failed to get peer address'' (so_peer_addr ops tcp)) (\<lambda>client_addr.
     let client = ipv4_mapped client_addr in
     Ok tcp)))"

record 'l listener_ops =
  l_bind :: "string \<Rightarrow> 'l outcome"
  l_set_nonblocking :: "'l \<Rightarrow> unit outcome"
  l_from_std :: "'l \<Rightarrow> 'l outcome"

definition listen_addr :: "u16 \<Rightarrow> string" where
  "listen_addr port = ''0.0.0.0:'' @ show_dec (unat port)"

definition bind_listener :: "'l listener_ops \<Rightarrow> u16 \<Rightarrow> 'l outcome" where
  "bind_listener lo port =
     and_then (l_bind lo (listen_addr port)) (\<lambda>std_tcp_listener.
     and_then (l_set_nonblocking lo std_tcp_listener) (\<lambda>_.
     wrap_err (''Failed to bind to address: '' @ listen_addr port)
       (l_from_std lo std_tcp_listener)))"

section \<open>The service loop\<close>

text \<open>
  What \<open>select!\<close> finds at each turn: an item of the stream of accepted sockets (\<open>None\<close> when it
  ends) or the shutdown notice. Accepted sockets are handed to a spawned task each, in order;
  errors and the end of the stream are logged and the loop goes on.
\<close>

datatype 'sock service_event = Incoming "'sock outcome option" | Shutdown_Notice

record 'sock service_log =
  spawned :: "'sock list"
  accept_errors :: "error list"
  empty_polls :: nat

definition service_start :: "'sock service_log" where
  "service_start = \<lparr>spawned = [], accept_errors = [], empty_polls = 0\<rparr>"

fun service_loop ::
  "'sock socket_ops \<Rightarrow> 'sock service_event list \<Rightarrow> 'sock service_log
    \<Rightarrow> unit outcome option \<times> 'sock service_log" where
  "service_loop ops [] st = (None, st)"
| "service_loop ops (Shutdown_Notice # es) st = (Some (Ok ()), st)"
| "service_loop ops (Incoming None # es) st =
     service_loop ops es (st\<lparr>empty_polls := Suc (empty_polls st)\<rparr>)"
| "service_loop ops (Incoming (Some res) # es) st =
     (case accepted_socket ops res of
        Ok socket \<Rightarrow> service_loop ops es (st\<lparr>spawned := spawned st @ [socket]\<rparr>)
      | Err e \<Rightarrow> service_loop ops es (st\<lparr>accept_errors := accept_errors st @ [e]\<rparr>)
      | Panic p \<Rightarrow> (Some (Panic p), st))"

definition run_service ::
  "'l listener_ops \<Rightarrow> 'sock socket_ops \<Rightarrow> u16 \<Rightarrow> 'sock service_event list
    \<Rightarrow> unit outcome option \<times> 'sock service_log" where
  "run_service lo ops port events =
     (case bind_listener lo port of
        Ok _ \<Rightarrow> service_loop ops events service_start
      | Err e \<Rightarrow> (Some (Err e), service_start)
      | Panic p \<Rightarrow> (Some (Panic p), service_start))"

section \<open>Running and shutting down\<close>

datatype effect = Spawn_Refresh u16 duration | Spawn_Service u16 | Sleep duration

definition shutdown :: "umay_config \<Rightarrow> effect list" where
  "shutdown c = [Sleep (shutdown_grace_period c), Sleep (exit_timeout c)]"

text \<open>\<open>run\<close>, with whether the shutdown notice has come.\<close>

definition server_run ::
  "('sn, 'scfg, 'r) umay_server \<Rightarrow> bool \<Rightarrow> effect list \<times> unit outcome option" where
  "server_run srv notified =
     (let spawns = concat (map (\<lambda>p. [Spawn_Refresh (proxy_port p) (from_secs 30),
                                     Spawn_Service (proxy_port p)])
                             (stream_proxies srv))
      in if notified then (spawns @ shutdown (server_config_ref srv), Some (Ok ()))
         else (spawns, None))"

fun time_slept :: "effect list \<Rightarrow> duration" where
  "time_slept [] = 0"
| "time_slept (Sleep d # es) = d + time_slept es"
| "time_slept (e # es) = time_slept es"

end
