(* ===== verification/Service_System.thy ===== *)
theory Service_System
  imports Server "HOL-Library.Multiset"
begin

text \<open>
  One service, coarsely (\<open>Server_Runtime\<close> has the steps between two suspensions): the accept loop,
  the tasks spawned for its connections and the refresh task, interleaved in any order. A step is
  one of them moving: the listener is bound, a socket is accepted, an accepted socket is served up
  to and including its choice of a backend and the session that follows, the refresh task ticks,
  the shutdown notice arrives. The state keeps a history of what was accepted, answered by
  discovery and done for each connection; \<open>envs n\<close> is what the \<open>n\<close>-th served connection meets
  outside.
\<close>

section \<open>tower::Service\<close>

text \<open>
  The interface \<open>run_service\<close> uses: a service is always ready, and a call keeps its invariant.
\<close>

locale tower_service =
  fixes ready :: "'svc \<Rightarrow> unit outcome poll"
    and call :: "'svc \<Rightarrow> 'io \<Rightarrow> 'res \<times> 'svc"
    and inv :: "'svc \<Rightarrow> bool"
  assumes always_ready: "ready s = Ready (Ok ())"
    and call_inv: "inv s \<Longrightarrow> inv (snd (call s io))"
begin

lemma calls_inv: "inv s \<Longrightarrow> inv (fold (\<lambda>io s. snd (call s io)) ios s)"
  by (induction ios arbitrary: s) (auto simp: call_inv)

end

definition proxy_ok :: "('sn, 'scfg, 'r) stream_proxy \<Rightarrow> bool" where
  "proxy_ok p \<longleftrightarrow> lb_ok (sp_load_balancer p)"

interpretation sp_service: tower_service sp_poll_ready "sp_call prof term env draw" proxy_ok
    for prof and "term" :: "('sn, 'scfg) tls_server \<Rightarrow> 'io \<Rightarrow> ('sn server_tls \<times> 'io tls_stream) outcome option"
    and env :: "('io, 'up, 'cws, 'uws, 'm) proxy_env" and draw
  by unfold_locales
    (auto simp: sp_poll_ready_def sp_call_def proxy_ok_def handle_connection_def Let_def
      case_prod_unfold lb_select_ok split: option.splits outcome.splits)

lemma sp_call_keeps:
  "sp_config (snd (sp_call prof term env draw p io)) = sp_config p"
  "sp_tls_server (snd (sp_call prof term env draw p io)) = sp_tls_server p"
  "lb_backends (sp_load_balancer (snd (sp_call prof term env draw p io)))
     = lb_backends (sp_load_balancer p)"
  by (auto simp: sp_call_def handle_connection_def Let_def case_prod_unfold
      split: option.splits outcome.splits)

section \<open>Steps\<close>

datatype service_status = Starting | Listening | Stopped

record ('io, 'sn, 'scfg, 'r) service_state =
  sv_proxy :: "('sn, 'scfg, 'r) stream_proxy"
  sv_status :: service_status
  sv_waiting :: "'io list"
  sv_accepted :: "'io list"
  sv_results :: "('io \<times> result) list"
  sv_discovered :: "backend btree_set list"

definition sv_start :: "('sn, 'scfg, 'r) stream_proxy \<Rightarrow> ('io, 'sn, 'scfg, 'r) service_state" where
  "sv_start p = \<lparr>sv_proxy = p, sv_status = Starting, sv_waiting = [], sv_accepted = [],
     sv_results = [], sv_discovered = []\<rparr>"

text \<open>A set of backends held in memory has a size that fits in \<open>usize\<close>.\<close>

inductive service_step ::
  "build_profile \<Rightarrow> 'l listener_ops \<Rightarrow> 'io socket_ops
    \<Rightarrow> (('sn, 'scfg) tls_server \<Rightarrow> 'io \<Rightarrow> ('sn server_tls \<times> 'io tls_stream) outcome option)
    \<Rightarrow> (nat \<Rightarrow> ('io, 'up, 'cws, 'uws, 'm) proxy_env)
    \<Rightarrow> ('io, 'sn, 'scfg, 'r) service_state \<Rightarrow> ('io, 'sn, 'scfg, 'r) service_state \<Rightarrow> bool"
  for prof :: build_profile and lo :: "'l listener_ops" and ops :: "'io socket_ops"
    and "term" :: "('sn, 'scfg) tls_server \<Rightarrow> 'io \<Rightarrow> ('sn server_tls \<times> 'io tls_stream) outcome option"
    and envs :: "nat \<Rightarrow> ('io, 'up, 'cws, 'uws, 'm) proxy_env"
where
  bind_ok: "sv_status s = Starting \<Longrightarrow> bind_listener lo (proxy_port (sv_proxy s)) = Ok l \<Longrightarrow>
    service_step prof lo ops term envs s (s\<lparr>sv_status := Listening\<rparr>)"
| bind_err: "sv_status s = Starting \<Longrightarrow> bind_listener lo (proxy_port (sv_proxy s)) = Err e \<Longrightarrow>
    service_step prof lo ops term envs s (s\<lparr>sv_status := Stopped\<rparr>)"
| accept: "sv_status s = Listening \<Longrightarrow> accepted_socket ops res = Ok io \<Longrightarrow>
    service_step prof lo ops term envs s
      (s\<lparr>sv_waiting := sv_waiting s @ [io], sv_accepted := sv_accepted s @ [io]\<rparr>)"
| accept_err: "sv_status s = Listening \<Longrightarrow> accepted_socket ops res = Err e \<Longrightarrow>
    service_step prof lo ops term envs s s"
| serve: "sv_waiting s = us @ io # vs \<Longrightarrow> rng_ok draw \<Longrightarrow>
    sp_call prof term (envs (length (sv_results s))) draw (sv_proxy s) io = (r, p) \<Longrightarrow>
    service_step prof lo ops term envs s
      (s\<lparr>sv_waiting := us @ vs, sv_results := sv_results s @ [(io, r)], sv_proxy := p\<rparr>)"
| tick_ok: "discover l (lb_discovery (sp_load_balancer (sv_proxy s))) = Ok bs \<Longrightarrow>
    refresh l (lb_backends (sp_load_balancer (sv_proxy s))) = (r, b) \<Longrightarrow> fits_usize bs \<Longrightarrow>
    service_step prof lo ops term envs s
      (s\<lparr>sv_proxy := (sv_proxy s)\<lparr>sp_load_balancer :=
            (sp_load_balancer (sv_proxy s))\<lparr>lb_backends := b\<rparr>\<rparr>,
         sv_discovered := bs # sv_discovered s\<rparr>)"
| tick_err: "discover l (lb_discovery (sp_load_balancer (sv_proxy s))) = Err e \<Longrightarrow>
    refresh l (lb_backends (sp_load_balancer (sv_proxy s))) = (r, b) \<Longrightarrow>
    service_step prof lo ops term envs s
      (s\<lparr>sv_proxy := (sv_proxy s)\<lparr>sp_load_balancer :=
            (sp_load_balancer (sv_proxy s))\<lparr>lb_backends := b\<rparr>\<rparr>\<rparr>)"
| stop: "sv_status s = Listening \<Longrightarrow> service_step prof lo ops term envs s (s\<lparr>sv_status := Stopped\<rparr>)"

inductive_cases service_stepE [consumes 1, case_names bind_ok bind_err accept accept_err serve
    tick_ok tick_err stop]: "service_step prof lo ops term envs s s'"

inductive service_reach ::
  "build_profile \<Rightarrow> 'l listener_ops \<Rightarrow> 'io socket_ops
    \<Rightarrow> (('sn, 'scfg) tls_server \<Rightarrow> 'io \<Rightarrow> ('sn server_tls \<times> 'io tls_stream) outcome option)
    \<Rightarrow> (nat \<Rightarrow> ('io, 'up, 'cws, 'uws, 'm) proxy_env)
    \<Rightarrow> ('sn, 'scfg, 'r) stream_proxy \<Rightarrow> ('io, 'sn, 'scfg, 'r) service_state \<Rightarrow> bool"
  for prof :: build_profile and lo :: "'l listener_ops" and ops :: "'io socket_ops"
    and "term" :: "('sn, 'scfg) tls_server \<Rightarrow> 'io \<Rightarrow> ('sn server_tls \<times> 'io tls_stream) outcome option"
    and envs :: "nat \<Rightarrow> ('io, 'up, 'cws, 'uws, 'm) proxy_env"
    and p0 :: "('sn, 'scfg, 'r) stream_proxy"
where
  init: "service_reach prof lo ops term envs p0 (sv_start p0)"
| step: "service_reach prof lo ops term envs p0 s \<Longrightarrow> service_step prof lo ops term envs s s' \<Longrightarrow>
    service_reach prof lo ops term envs p0 s'"

section \<open>Invariants\<close>

definition sv_cell :: "('io, 'sn, 'scfg, 'r) service_state \<Rightarrow> backend btree_set" where
  "sv_cell s = cell (sp_load_balancer (sv_proxy s))"

text \<open>The balancer is well-formed and holds the latest answer of its discovery.\<close>

definition sv_balanced :: "('io, 'sn, 'scfg, 'r) service_state \<Rightarrow> bool" where
  "sv_balanced s \<longleftrightarrow> proxy_ok (sv_proxy s) \<and> fits_usize (sv_cell s) \<and>
     sv_cell s = (case sv_discovered s of [] \<Rightarrow> [] | bs # _ \<Rightarrow> bs)"

text \<open>Every accepted socket is waiting or has been served, once.\<close>

definition sv_conserved :: "('io, 'sn, 'scfg, 'r) service_state \<Rightarrow> bool" where
  "sv_conserved s \<longleftrightarrow>
     mset (sv_accepted s) = mset (sv_waiting s) + mset (map fst (sv_results s))"

text \<open>What was done for a connection concerns one backend that some discovery reported.\<close>

definition contacts_known :: "('io, 'sn, 'scfg, 'r) service_state \<Rightarrow> bool" where
  "contacts_known s \<longleftrightarrow>
     (\<forall>(io, r)\<in>set (sv_results s). \<forall>a\<in>set (fst r). \<exists>bs\<in>set (sv_discovered s). \<exists>b\<in>set bs.
        a \<in> {Dial (addr b), Ws_Accept, Ws_Dial (ws_url (addr b))})"

lemma refresh_lb_ok:
  assumes "lb_ok lb" "refresh l (lb_backends lb) = (r, b)"
  shows "lb_ok (lb\<lparr>lb_backends := b\<rparr>)"
  using lb_step_ok [OF assms(1), of _ "Tick l"] assms(2) by simp

lemma service_step_balanced:
  "service_step prof lo ops term envs s s' \<Longrightarrow> sv_balanced s \<Longrightarrow> sv_balanced s'"
proof (induction rule: service_step.induct)
  case (serve s us io vs draw r p)
  then show ?case
    using sp_service.call_inv [of "sv_proxy s" prof "term" "envs (length (sv_results s))" draw io]
      sp_call_keeps(3) [of prof "term" "envs (length (sv_results s))" draw "sv_proxy s" io]
    by (auto simp: sv_balanced_def sv_cell_def)
next
  case (tick_ok l s bs r b)
  then show ?case
    using refresh_lb_ok [of "sp_load_balancer (sv_proxy s)" l r b]
    by (auto simp: sv_balanced_def sv_cell_def proxy_ok_def refresh_answered)
next
  case (tick_err l s e r b)
  then show ?case
    using refresh_failed [of l "lb_backends (sp_load_balancer (sv_proxy s))"]
    by (auto simp: sv_balanced_def sv_cell_def proxy_ok_def)
qed (auto simp: sv_balanced_def sv_cell_def)

lemma service_step_conserved:
  "service_step prof lo ops term envs s s' \<Longrightarrow> sv_conserved s \<Longrightarrow> sv_conserved s'"
  by (induction rule: service_step.induct) (auto simp: sv_conserved_def)

lemma service_step_contacts:
  "service_step prof lo ops term envs s s' \<Longrightarrow> sv_balanced s \<Longrightarrow> contacts_known s \<Longrightarrow>
     contacts_known s'"
proof (induction rule: service_step.induct)
  case (serve s us io vs draw r p)
  have "\<exists>bs\<in>set (sv_discovered s). \<exists>b\<in>set bs. a \<in> {Dial (addr b), Ws_Accept, Ws_Dial (ws_url (addr b))}"
    if "a \<in> set (fst r)" for a
  proof -
    have h: "a \<in> set (fst (fst (handle_connection prof term (envs (length (sv_results s))) draw (sv_proxy s) io)))"
      using that serve.hyps(3) by (simp add: sp_call_def)
    have "lb_ok (sp_load_balancer (sv_proxy s))" "fits_usize (cell (sp_load_balancer (sv_proxy s)))"
      using serve.prems(1) by (auto simp only: sv_balanced_def sv_cell_def proxy_ok_def)
    from handle_connection_contacts [OF this(1) serve.hyps(2) this(2) h]
    obtain b where "b \<in> set (sv_cell s)" "a \<in> {Dial (addr b), Ws_Accept, Ws_Dial (ws_url (addr b))}"
      unfolding sv_cell_def by blast
    moreover from this have "sv_cell s \<in> set (sv_discovered s)"
      using serve by (auto simp: sv_balanced_def split: list.splits)
    ultimately show ?thesis by blast
  qed
  with serve show ?case by (auto simp: contacts_known_def)
qed (auto simp: contacts_known_def)

lemma service_reach_invariants:
  assumes "service_reach prof lo ops term envs p0 s"
    and "proxy_ok p0" "cell (sp_load_balancer p0) = []"
  shows "sv_balanced s" "sv_conserved s" "contacts_known s"
  using assms
proof (induction rule: service_reach.induct)
  case init
  {
    case 1
    then show ?case by (simp add: sv_start_def sv_balanced_def sv_cell_def fits_usize_def)
  next
    case 2
    then show ?case by (simp add: sv_start_def sv_conserved_def)
  next
    case 3
    then show ?case by (simp add: sv_start_def contacts_known_def)
  }
next
  case (step s s')
  {
    case 1
    then show ?case using step service_step_balanced by blast
  next
    case 2
    then show ?case using step service_step_conserved by blast
  next
    case 3
    then show ?case using step service_step_contacts by blast
  }
qed

text \<open>After the shutdown notice nothing is accepted any more; waiting connections go on.\<close>

lemma service_step_stopped:
  "service_step prof lo ops term envs s s' \<Longrightarrow> sv_status s = Stopped \<Longrightarrow>
     sv_status s' = Stopped \<and> sv_accepted s' = sv_accepted s"
  by (induction rule: service_step.induct) auto

lemma service_step_config:
  "service_step prof lo ops term envs s s' \<Longrightarrow>
     sp_config (sv_proxy s') = sp_config (sv_proxy s)
     \<and> lb_discovery (sp_load_balancer (sv_proxy s')) = lb_discovery (sp_load_balancer (sv_proxy s))"
proof (induction rule: service_step.induct)
  case (serve s us io vs draw r p)
  then show ?case
    using sp_call_keeps [of prof "term" "envs (length (sv_results s))" draw "sv_proxy s" io] by simp
qed (simp_all add: refresh_keeps)

lemma service_reach_config:
  "service_reach prof lo ops term envs p0 s \<Longrightarrow>
     sp_config (sv_proxy s) = sp_config p0
     \<and> lb_discovery (sp_load_balancer (sv_proxy s)) = lb_discovery (sp_load_balancer p0)"
  by (induction rule: service_reach.induct) (auto simp: sv_start_def dest: service_step_config)

text \<open>Each answer in the history is one the proxy's own discovery gave.\<close>

lemma service_reach_discovered:
  "service_reach prof lo ops term envs p0 s \<Longrightarrow> bs \<in> set (sv_discovered s) \<Longrightarrow>
     \<exists>l. discover l (lb_discovery (sp_load_balancer p0)) = Ok bs"
proof (induction rule: service_reach.induct)
  case init
  then show ?case by (simp add: sv_start_def)
next
  case (step s s')
  have d: "lb_discovery (sp_load_balancer (sv_proxy s)) = lb_discovery (sp_load_balancer p0)"
    using service_reach_config [OF step.hyps(1)] by simp
  from step.hyps(2) step.IH step.prems d show ?case
    by (cases rule: service_step.cases) auto
qed

lemma service_steps_stopped:
  "(service_step prof lo ops term envs)\<^sup>*\<^sup>* s s' \<Longrightarrow> sv_status s = Stopped \<Longrightarrow>
     sv_status s' = Stopped \<and> sv_accepted s' = sv_accepted s"
  by (induction rule: rtranclp_induct) (auto dest: service_step_stopped)

end
