(* ===== verification/App.thy ===== *)
theory App
  imports Service_System
begin

text \<open>
  \<open>main.rs\<close> and \<open>app/signal.rs\<close>: the process from loading its configuration to its exit status,
  and the task that turns a signal into the shutdown notice. The tokio runtime builder and the
  tracing library are parameters.
\<close>

section \<open>Signals\<close>

datatype signal = Sigterm | Sigint | Sigquit | Other_Signal

text \<open>The watch channel as a receiver sees it.\<close>

datatype watch_state = Unchanged | Changed | Sender_Dropped

definition handled_signals :: "signal list" where
  "handled_signals = [Sigquit, Sigterm, Sigint]"

text \<open>
  The task registers three handlers, each with \<open>unwrap\<close>: a failure kills the task and drops the
  sender. It then waits for the first of them and sends. \<open>received\<close> are the signals delivered
  since the handlers are registered; \<open>Other_Signal\<close> is a signal without effect on the process. What
  the system does by default with a signal nobody handles is outside the model.
\<close>

definition signal_task :: "(signal \<Rightarrow> unit outcome) \<Rightarrow> signal list \<Rightarrow> watch_state" where
  "signal_task register received =
     (if list_ex (\<lambda>s. \<not> is_ok (register s)) handled_signals then Sender_Dropped
      else if list_ex (\<lambda>s. s \<in> set handled_signals) received then Changed
      else Unchanged)"

text \<open>\<open>changed().await\<close> returns on a change and on a dropped sender; the code ignores which.\<close>

definition changed_returns :: "watch_state \<Rightarrow> bool" where
  "changed_returns w = (case w of Unchanged \<Rightarrow> False | Changed \<Rightarrow> True | Sender_Dropped \<Rightarrow> True)"

section \<open>main\<close>

text \<open>
  \<open>init_logger\<close>: the filter of the environment, or one for the default level when there is none
  or it does not parse; installing a second global subscriber panics.
  \<open>LevelFilter::DEBUG\<close> prints as \<open>debug\<close>.
\<close>

record 'flt tracing_api =
  filter_from_env :: "'flt outcome"
  filter_new :: "string \<Rightarrow> 'flt"
  install :: "'flt \<Rightarrow> unit outcome"

definition init_logger :: "'flt tracing_api \<Rightarrow> string \<Rightarrow> unit outcome" where
  "init_logger tr default_level =
     and_then (case filter_from_env tr of Err _ \<Rightarrow> Ok (filter_new tr default_level) | res \<Rightarrow> res)
       (\<lambda>filter_layer.
     case install tr filter_layer of
       Ok _ \<Rightarrow> Ok ()
     | _ \<Rightarrow> Panic ''failed to set global default subscriber'')"

lemma init_logger_not_Err [simp]: "init_logger tr l \<noteq> Err e"
  by (auto simp: init_logger_def and_then_eq_Err split: outcome.splits)

definition build_runtime :: "(usize \<Rightarrow> usize \<Rightarrow> 'rt outcome) \<Rightarrow> usize \<Rightarrow> 'rt outcome" where
  "build_runtime builder threads = wrap_err ''Failed to build runtime'' (builder threads threads)"

text \<open>What a run shows: its effects, the errors it logged, its result if it has one.\<close>

record run_report =
  effects :: "effect list"
  logged :: "error list"
  outcome_of :: "unit outcome option"

definition run_server ::
  "('sn, 'key, 'roots, 'sk, 'sv, 'cv, 'ccfg, 'scfg) rustls_api
    \<Rightarrow> ('cfg, 'opts, 'nm, 'r) resolver_lib \<Rightarrow> file_system \<Rightarrow> watch_state \<Rightarrow> umay_config
    \<Rightarrow> run_report" where
  "run_server api lib fs watch config =
     (case server_try_from api lib fs config of
        Ok umay \<Rightarrow>
          (let (effs, r) = server_run umay (changed_returns watch) in
           case r of
             None \<Rightarrow> \<lparr>effects = effs, logged = [], outcome_of = None\<rparr>
           | Some (Ok _) \<Rightarrow> \<lparr>effects = effs, logged = [], outcome_of = Some (Ok ())\<rparr>
           | Some (Err e) \<Rightarrow> \<lparr>effects = effs, logged = [e], outcome_of = Some (Ok ())\<rparr>
           | Some (Panic p) \<Rightarrow> \<lparr>effects = effs, logged = [], outcome_of = Some (Panic p)\<rparr>)
      | Err e \<Rightarrow> \<lparr>effects = [], logged = [e], outcome_of = Some (Ok ())\<rparr>
      | Panic p \<Rightarrow> \<lparr>effects = [], logged = [], outcome_of = Some (Panic p)\<rparr>)"

definition umay_main ::
  "'flt tracing_api \<Rightarrow> umay_config outcome \<Rightarrow> (usize \<Rightarrow> usize \<Rightarrow> 'rt outcome)
    \<Rightarrow> ('sn, 'key, 'roots, 'sk, 'sv, 'cv, 'ccfg, 'scfg) rustls_api
    \<Rightarrow> ('cfg, 'opts, 'nm, 'r) resolver_lib \<Rightarrow> file_system \<Rightarrow> watch_state \<Rightarrow> run_report" where
  "umay_main tr loaded builder api lib fs watch =
     (case and_then (init_logger tr ''debug'') (\<lambda>_.
           and_then loaded (\<lambda>config.
           and_then (build_runtime builder (worker_threads config)) (\<lambda>_. Ok config))) of
        Ok config \<Rightarrow> run_server api lib fs watch config
      | Err e \<Rightarrow> \<lparr>effects = [], logged = [], outcome_of = Some (Err e)\<rparr>
      | Panic p \<Rightarrow> \<lparr>effects = [], logged = [], outcome_of = Some (Panic p)\<rparr>)"

text \<open>The exit status of a process whose \<open>main\<close> returns a \<open>Result\<close> or panics.\<close>

fun exit_status :: "unit outcome \<Rightarrow> nat" where
  "exit_status (Ok _) = 0"
| "exit_status (Err e) = 1"
| "exit_status (Panic p) = 101"

section \<open>Building the server\<close>

lemma create_selector_implemented: "create_selector k = Ok sel \<Longrightarrow> implemented sel"
  by (cases k) (auto simp: create_selector_def)

lemma create_selector_eq_Panic: "is_panic (create_selector k) \<longleftrightarrow> k = IpHash"
  by (cases k) (auto simp: create_selector_def)

lemma create_discovery_local:
  "up_service_discovery u = Local \<Longrightarrow> create_discovery lib u =
     and_then (try_map to_socket_addrs (up_servers u)) (\<lambda>addrs. Ok (Local_Discovery (with_backends addrs)))"
  by (simp add: create_discovery_def try_fold_push)

lemma create_discovery_dns:
  "up_service_discovery u = Dns \<Longrightarrow> create_discovery lib u =
     (case up_servers u of
        [] \<Rightarrow> Err (Msg ''No servers found'')
      | us # _ \<Rightarrow> and_then (rl_system lib) (\<lambda>r.
          Ok (Dns_Discovery \<lparr>resolver = r, hostname = us_address us, dns_port = us_port us\<rparr>)))"
  by (auto simp: create_discovery_def dns_new_def and_then_assoc split: list.splits)

lemma create_discovery_ok: "create_discovery lib u = Ok d \<Longrightarrow> discovery_ok d"
  by (cases "up_service_discovery u")
    (auto simp: create_discovery_local create_discovery_dns and_then_eq_Ok split: list.splits)

lemma initialize_load_balancer_eq_Ok:
  "initialize_load_balancer lib u = Ok lb \<longleftrightarrow>
     (\<exists>d sel. create_discovery lib u = Ok d \<and> create_selector (up_load_balancer u) = Ok sel \<and>
        lb = lb_new (backends_new d) sel)"
  by (auto simp: initialize_load_balancer_def and_then_eq_Ok Let_def)

lemma initialize_load_balancer_fresh:
  "initialize_load_balancer lib u = Ok lb \<Longrightarrow> lb_ok lb \<and> cell lb = []"
  by (auto simp: initialize_load_balancer_eq_Ok create_selector_implemented create_discovery_ok)

lemma build_proxy_eq_Ok:
  "build_proxy api lib fs sc ss = Ok p \<longleftrightarrow>
     (\<exists>t store u lb. ss_tls ss = Some t \<and> store_try_from api fs t = Ok store
        \<and> st_upstreams sc (ss_proxy_pass ss) = Some u \<and> initialize_load_balancer lib u = Ok lb
        \<and> listen_protocol (ss_listen ss) \<in> {Tcp, Ws}
        \<and> p = stream_proxy_new ss (tls_server_new (store_server_name store) (server_cfg store)) lb)"
  by (cases "listen_protocol (ss_listen ss)")
    (auto simp: build_proxy_def initialize_tls_server_def stream_upstream_def try_simps)

lemma build_proxy_fresh:
  "build_proxy api lib fs sc ss = Ok p \<Longrightarrow>
     proxy_ok p \<and> cell (sp_load_balancer p) = [] \<and> sp_config p = ss \<and> proxy_protocol p \<in> {Tcp, Ws}"
  by (auto simp: build_proxy_eq_Ok stream_proxy_new_def proxy_ok_def proxy_protocol_def
      dest!: initialize_load_balancer_fresh)

definition config_servers :: "umay_config \<Rightarrow> stream_server list" where
  "config_servers c = (case stream c of None \<Rightarrow> [] | Some sc \<Rightarrow> st_servers sc)"

lemma server_try_from_map:
  "server_try_from api lib fs c =
     and_then (case stream c of None \<Rightarrow> Ok []
               | Some sc \<Rightarrow> try_map (build_proxy api lib fs sc) (st_servers sc)) (\<lambda>proxies.
     Ok \<lparr>stream_proxies = proxies, http_proxies = [], server_config_ref = c,
         server_metrics = metrics_new ''umay'' f64_one\<rparr>)"
  by (simp add: server_try_from_def try_fold_push split: option.split)

lemma server_try_from_proxies:
  assumes "server_try_from api lib fs c = Ok srv"
  shows "map sp_config (stream_proxies srv) = config_servers c"
    and "p \<in> set (stream_proxies srv) \<Longrightarrow>
      proxy_ok p \<and> cell (sp_load_balancer p) = [] \<and> proxy_protocol p \<in> {Tcp, Ws}"
proof -
  have *: "list_all2 (\<lambda>ss p. build_proxy api lib fs (the (stream c)) ss = Ok p)
             (config_servers c) (stream_proxies srv)"
    using assms
    by (auto simp: server_try_from_map config_servers_def and_then_eq_Ok try_map_eq_Ok
        split: option.splits)
  then show "map sp_config (stream_proxies srv) = config_servers c"
    by (induction rule: list_all2_induct) (auto dest: build_proxy_fresh)
  show "proxy_ok p \<and> cell (sp_load_balancer p) = [] \<and> proxy_protocol p \<in> {Tcp, Ws}"
    if "p \<in> set (stream_proxies srv)"
    using * that by (induction rule: list_all2_induct) (auto dest: build_proxy_fresh)
qed

lemma server_run_not_Err: "snd (server_run srv n) \<in> {None, Some (Ok ())}"
  by (simp add: server_run_def Let_def)

end
