(* ===== verification/Server_Runtime.thy ===== *)
theory Server_Runtime
  imports Connection_Tasks App
begin

text \<open>
  The running process: the main task with the shutdown sequence, and for every proxy the accept
  loop, the refresh task and one task per accepted connection, on one shared balancer. A step is
  one task moving from one point of suspension to the next, so every interleaving the runtime may
  choose is a sequence of steps. The states keep histories of what came in, what discovery
  answered and what was picked.
\<close>

section \<open>A service\<close>

text \<open>\<open>Ended\<close> holds the result of \<open>run_service\<close>.\<close>

datatype loop_phase = Binding | Accepting | Ended "unit outcome"

record ('sn, 'scfg, 'r, 'io, 'cws, 'm) service =
  svc_proxy :: "('sn, 'scfg, 'r) stream_proxy"
  svc_loop :: loop_phase
  svc_refreshing :: bool
  svc_tasks :: "('sn, 'io, 'cws, 'm) conn_task list"
  svc_events :: "'io service_event list"
  svc_answers :: "backend btree_set list"
  svc_picks :: "(backend btree_set \<times> backend) list"

definition svc_start :: "('sn, 'scfg, 'r) stream_proxy \<Rightarrow> ('sn, 'scfg, 'r, 'io, 'cws, 'm) service" where
  "svc_start p = \<lparr>svc_proxy = p, svc_loop = Binding, svc_refreshing = True, svc_tasks = [],
     svc_events = [], svc_answers = [], svc_picks = []\<rparr>"

abbreviation svc_balancer :: "('sn, 'scfg, 'r, 'io, 'cws, 'm) service \<Rightarrow> 'r load_balancer" where
  "svc_balancer s \<equiv> sp_load_balancer (svc_proxy s)"

definition set_balancer ::
  "'r load_balancer \<Rightarrow> ('sn, 'scfg, 'r, 'io, 'cws, 'm) service
    \<Rightarrow> ('sn, 'scfg, 'r, 'io, 'cws, 'm) service" where
  "set_balancer lb s = s\<lparr>svc_proxy := (svc_proxy s)\<lparr>sp_load_balancer := lb\<rparr>\<rparr>"

text \<open>The listener is bound, or \<open>run_service\<close> returns its failure.\<close>

definition on_bind ::
  "'l listener_ops \<Rightarrow> ('sn, 'scfg, 'r, 'io, 'cws, 'm) service
    \<Rightarrow> ('sn, 'scfg, 'r, 'io, 'cws, 'm) service" where
  "on_bind lo s =
     s\<lparr>svc_loop :=
        (case bind_listener lo (proxy_port (svc_proxy s)) of
           Ok l \<Rightarrow> Accepting
         | Err e \<Rightarrow> Ended (Err e)
         | Panic p \<Rightarrow> Ended (Panic p))\<rparr>"

text \<open>One turn of the loop of \<open>run_service\<close>.\<close>

fun on_event ::
  "'io socket_ops \<Rightarrow> (string \<Rightarrow> 'sn outcome) \<Rightarrow> ('scfg \<Rightarrow> 'io \<Rightarrow> 'io tls_stream outcome poll list)
    \<Rightarrow> 'io service_event \<Rightarrow> ('sn, 'scfg, 'r, 'io, 'cws, 'm) service
    \<Rightarrow> ('sn, 'scfg, 'r, 'io, 'cws, 'm) service" where
  "on_event ops f accept (Incoming (Some res)) s =
     (case accepted_socket ops res of
        Ok socket \<Rightarrow> s\<lparr>svc_tasks := svc_tasks s @ [task_spawn f accept (stream_proxy_clone (svc_proxy s)) socket]\<rparr>
      | Err e \<Rightarrow> s
      | Panic p \<Rightarrow> s\<lparr>svc_loop := Ended (Panic p)\<rparr>)"
| "on_event ops f accept (Incoming None) s = s"
| "on_event ops f accept Shutdown_Notice s = s\<lparr>svc_loop := Ended (Ok ())\<rparr>"

definition note_event ::
  "'io service_event \<Rightarrow> ('sn, 'scfg, 'r, 'io, 'cws, 'm) service
    \<Rightarrow> ('sn, 'scfg, 'r, 'io, 'cws, 'm) service" where
  "note_event ev s = s\<lparr>svc_events := svc_events s @ [ev]\<rparr>"

text \<open>A poll of connection \<open>i\<close>; a choice it makes goes into the history of picks.\<close>

definition new_pick ::
  "('sn, 'io, 'cws, 'm) conn_task \<Rightarrow> ('sn, 'io, 'cws, 'm) conn_task
    \<Rightarrow> (backend btree_set \<times> backend) list" where
  "new_pick t t' =
     (case (task_choice t, task_choice t') of (None, Some c) \<Rightarrow> [c] | _ \<Rightarrow> [])"

definition on_poll ::
  "build_profile \<Rightarrow> rng \<Rightarrow> ('io, 'up, 'cws, 'uws, 'm) proxy_env \<Rightarrow> branch \<Rightarrow> nat
    \<Rightarrow> ('sn, 'scfg, 'r, 'io, 'cws, 'm) service \<Rightarrow> ('sn, 'scfg, 'r, 'io, 'cws, 'm) service" where
  "on_poll prof draw env br i s =
     (let t = svc_tasks s ! i;
          (lb, t') = task_poll prof draw env (proxy_protocol (svc_proxy s)) br (svc_balancer s, t)
      in (set_balancer lb s)\<lparr>svc_tasks := (svc_tasks s)[i := t'],
           svc_picks := svc_picks s @ new_pick t t'\<rparr>)"

text \<open>
  A tick of the refresh task: an error is logged, a panic ends the task. The history of answers
  holds what \<open>discover\<close> returned, whatever \<open>refresh\<close> made of it.
\<close>

definition on_tick ::
  "'r lookup_ip \<Rightarrow> ('sn, 'scfg, 'r, 'io, 'cws, 'm) service
    \<Rightarrow> ('sn, 'scfg, 'r, 'io, 'cws, 'm) service" where
  "on_tick l s =
     (let (r, b) = refresh l (lb_backends (svc_balancer s));
          s' = (set_balancer ((svc_balancer s)\<lparr>lb_backends := b\<rparr>) s)\<lparr>svc_answers :=
                 (case discover l (lb_discovery (svc_balancer s)) of
                    Ok bs \<Rightarrow> bs # svc_answers s
                  | _ \<Rightarrow> svc_answers s)\<rparr>
      in case r of
           Ok _ \<Rightarrow> s'
         | Err e \<Rightarrow> s'
         | Panic p \<Rightarrow> s'\<lparr>svc_refreshing := False\<rparr>)"

text \<open>
  The steps of a service while the notice is out or not (\<open>notified\<close>); \<open>envs i\<close> is what connection
  \<open>i\<close> meets outside. A set of backends held in memory has a size that fits in \<open>usize\<close>.
\<close>

inductive svc_step ::
  "build_profile \<Rightarrow> 'l listener_ops \<Rightarrow> 'io socket_ops \<Rightarrow> (string \<Rightarrow> 'sn outcome)
    \<Rightarrow> ('scfg \<Rightarrow> 'io \<Rightarrow> 'io tls_stream outcome poll list)
    \<Rightarrow> (nat \<Rightarrow> ('io, 'up, 'cws, 'uws, 'm) proxy_env) \<Rightarrow> bool
    \<Rightarrow> ('sn, 'scfg, 'r, 'io, 'cws, 'm) service \<Rightarrow> ('sn, 'scfg, 'r, 'io, 'cws, 'm) service \<Rightarrow> bool"
  for prof :: build_profile and lo :: "'l listener_ops" and ops :: "'io socket_ops"
    and f :: "string \<Rightarrow> 'sn outcome" and accept :: "'scfg \<Rightarrow> 'io \<Rightarrow> 'io tls_stream outcome poll list"
    and envs :: "nat \<Rightarrow> ('io, 'up, 'cws, 'uws, 'm) proxy_env" and notified :: bool
where
  bind: "svc_loop s = Binding \<Longrightarrow> svc_step prof lo ops f accept envs notified s (on_bind lo s)"
| incoming: "svc_loop s = Accepting \<Longrightarrow>
    svc_step prof lo ops f accept envs notified s
      (note_event (Incoming item) (on_event ops f accept (Incoming item) s))"
| notice: "svc_loop s = Accepting \<Longrightarrow> notified \<Longrightarrow>
    svc_step prof lo ops f accept envs notified s
      (note_event Shutdown_Notice (on_event ops f accept Shutdown_Notice s))"
| poll: "i < length (svc_tasks s) \<Longrightarrow> rng_ok draw \<Longrightarrow>
    svc_step prof lo ops f accept envs notified s (on_poll prof draw (envs i) br i s)"
| tick: "svc_refreshing s \<Longrightarrow> fits_usize (cell (svc_balancer (on_tick l s))) \<Longrightarrow>
    svc_step prof lo ops f accept envs notified s (on_tick l s)"

section \<open>The process\<close>

text \<open>
  The main task: \<open>run\<close> spawns the tasks of one proxy after another, waits for the notice and
  sleeps twice. \<open>Gone\<close> is the process after \<open>main\<close> returned: the runtime is dropped, and with
  it every task.
\<close>

datatype ('sn, 'scfg, 'r) main_phase =
    Spawning "('sn, 'scfg, 'r) stream_proxy list"
  | Waiting
  | Grace_Period
  | Exit_Timeout
  | Gone

record ('sn, 'scfg, 'r, 'io, 'cws, 'm) process =
  pr_main :: "('sn, 'scfg, 'r) main_phase"
  pr_signals :: "signal list"
  pr_services :: "('sn, 'scfg, 'r, 'io, 'cws, 'm) service list"
  pr_effects :: "effect list"

definition pr_start :: "('sn, 'scfg, 'r) umay_server \<Rightarrow> ('sn, 'scfg, 'r, 'io, 'cws, 'm) process" where
  "pr_start srv = \<lparr>pr_main = Spawning (stream_proxies srv), pr_signals = [], pr_services = [],
     pr_effects = []\<rparr>"

text \<open>Every receiver of the watch channel sees the notice as soon as the signal task sent it.\<close>

definition pr_notified ::
  "(signal \<Rightarrow> unit outcome) \<Rightarrow> ('sn, 'scfg, 'r, 'io, 'cws, 'm) process \<Rightarrow> bool" where
  "pr_notified register pr \<longleftrightarrow> changed_returns (signal_task register (pr_signals pr))"

definition spawn_proxy ::
  "('sn, 'scfg, 'r) stream_proxy \<Rightarrow> ('sn, 'scfg, 'r) stream_proxy list
    \<Rightarrow> ('sn, 'scfg, 'r, 'io, 'cws, 'm) process \<Rightarrow> ('sn, 'scfg, 'r, 'io, 'cws, 'm) process" where
  "spawn_proxy p ps pr =
     pr\<lparr>pr_main := Spawning ps,
        pr_effects := pr_effects pr @
          [Spawn_Refresh (proxy_port p) (from_secs 30), Spawn_Service (proxy_port p)],
        pr_services := pr_services pr @ [svc_start (stream_proxy_clone p)]\<rparr>"

definition main_sleeps ::
  "duration \<Rightarrow> ('sn, 'scfg, 'r) main_phase \<Rightarrow> ('sn, 'scfg, 'r, 'io, 'cws, 'm) process
    \<Rightarrow> ('sn, 'scfg, 'r, 'io, 'cws, 'm) process" where
  "main_sleeps d ph pr = pr\<lparr>pr_main := ph, pr_effects := pr_effects pr @ [Sleep d]\<rparr>"

inductive process_step ::
  "build_profile \<Rightarrow> 'l listener_ops \<Rightarrow> 'io socket_ops \<Rightarrow> (string \<Rightarrow> 'sn outcome)
    \<Rightarrow> ('scfg \<Rightarrow> 'io \<Rightarrow> 'io tls_stream outcome poll list)
    \<Rightarrow> (nat \<Rightarrow> nat \<Rightarrow> ('io, 'up, 'cws, 'uws, 'm) proxy_env) \<Rightarrow> (signal \<Rightarrow> unit outcome)
    \<Rightarrow> umay_config
    \<Rightarrow> ('sn, 'scfg, 'r, 'io, 'cws, 'm) process \<Rightarrow> ('sn, 'scfg, 'r, 'io, 'cws, 'm) process \<Rightarrow> bool"
  for prof :: build_profile and lo :: "'l listener_ops" and ops :: "'io socket_ops"
    and f :: "string \<Rightarrow> 'sn outcome" and accept :: "'scfg \<Rightarrow> 'io \<Rightarrow> 'io tls_stream outcome poll list"
    and envs :: "nat \<Rightarrow> nat \<Rightarrow> ('io, 'up, 'cws, 'uws, 'm) proxy_env"
    and register :: "signal \<Rightarrow> unit outcome" and c :: umay_config
where
  spawn: "pr_main pr = Spawning (p # ps) \<Longrightarrow>
    process_step prof lo ops f accept envs register c pr (spawn_proxy p ps pr)"
| spawned: "pr_main pr = Spawning [] \<Longrightarrow>
    process_step prof lo ops f accept envs register c pr (pr\<lparr>pr_main := Waiting\<rparr>)"
| receive: "pr_main pr \<noteq> Gone \<Longrightarrow>
    process_step prof lo ops f accept envs register c pr (pr\<lparr>pr_signals := pr_signals pr @ [sg]\<rparr>)"
| begin_shutdown: "pr_main pr = Waiting \<Longrightarrow> pr_notified register pr \<Longrightarrow>
    process_step prof lo ops f accept envs register c pr (pr\<lparr>pr_main := Grace_Period\<rparr>)"
| grace_over: "pr_main pr = Grace_Period \<Longrightarrow>
    process_step prof lo ops f accept envs register c pr
      (main_sleeps (shutdown_grace_period c) Exit_Timeout pr)"
| exit_over: "pr_main pr = Exit_Timeout \<Longrightarrow>
    process_step prof lo ops f accept envs register c pr (main_sleeps (exit_timeout c) Gone pr)"
| service: "pr_main pr \<noteq> Gone \<Longrightarrow> i < length (pr_services pr) \<Longrightarrow>
    svc_step prof lo ops f accept (envs i) (pr_notified register pr) (pr_services pr ! i) s' \<Longrightarrow>
    process_step prof lo ops f accept envs register c pr
      (pr\<lparr>pr_services := (pr_services pr)[i := s']\<rparr>)"

inductive process_reach ::
  "build_profile \<Rightarrow> 'l listener_ops \<Rightarrow> 'io socket_ops \<Rightarrow> (string \<Rightarrow> 'sn outcome)
    \<Rightarrow> ('scfg \<Rightarrow> 'io \<Rightarrow> 'io tls_stream outcome poll list)
    \<Rightarrow> (nat \<Rightarrow> nat \<Rightarrow> ('io, 'up, 'cws, 'uws, 'm) proxy_env) \<Rightarrow> (signal \<Rightarrow> unit outcome)
    \<Rightarrow> ('sn, 'scfg, 'r) umay_server \<Rightarrow> ('sn, 'scfg, 'r, 'io, 'cws, 'm) process \<Rightarrow> bool"
  for prof :: build_profile and lo :: "'l listener_ops" and ops :: "'io socket_ops"
    and f :: "string \<Rightarrow> 'sn outcome" and accept :: "'scfg \<Rightarrow> 'io \<Rightarrow> 'io tls_stream outcome poll list"
    and envs :: "nat \<Rightarrow> nat \<Rightarrow> ('io, 'up, 'cws, 'uws, 'm) proxy_env"
    and register :: "signal \<Rightarrow> unit outcome" and srv :: "('sn, 'scfg, 'r) umay_server"
where
  start: "process_reach prof lo ops f accept envs register srv (pr_start srv)"
| step: "process_reach prof lo ops f accept envs register srv pr \<Longrightarrow>
    process_step prof lo ops f accept envs register (server_config_ref srv) pr pr' \<Longrightarrow>
    process_reach prof lo ops f accept envs register srv pr'"

inductive_cases svc_stepE: "svc_step prof lo ops f accept envs notified s s'"
inductive_cases process_stepE: "process_step prof lo ops f accept envs register c pr pr'"

end
