(* ===== verification/Task_Facts.thy ===== *)
theory Task_Facts
  imports Connection_Tasks
begin

text \<open>
  What a connection task keeps between polls (\<open>task_ok\<close>), whatever moves in between, and what
  follows when it has finished; and that a task polled alone computes \<open>handle_connection\<close>.
\<close>

section \<open>Sessions under their own schedule\<close>

text \<open>An environment with the schedule a session actually had.\<close>

definition with_schedule ::
  "branch list \<Rightarrow> ('io, 'up, 'cws, 'uws, 'm) proxy_env \<Rightarrow> ('io, 'up, 'cws, 'uws, 'm) proxy_env" where
  "with_schedule sched env =
     env\<lparr>tcp_run := \<lambda>ts up. (sched, snd (tcp_run env ts up)),
         ws_run := \<lambda>c u. (sched, snd (ws_run env c u))\<rparr>"

lemma with_schedule_simps [simp]:
  "tcp_connect (with_schedule sched env) = tcp_connect env"
  "ws_accept (with_schedule sched env) = ws_accept env"
  "ws_connect (with_schedule sched env) = ws_connect env"
  "tcp_run (with_schedule sched env) ts up = (sched, snd (tcp_run env ts up))"
  "ws_run (with_schedule sched env) c u = (sched, snd (ws_run env c u))"
  "ws_up_send (with_schedule sched env) = ws_up_send env"
  "ws_cl_send (with_schedule sched env) = ws_cl_send env"
  by (simp_all add: with_schedule_def)

definition tcp_begin ::
  "('io, 'up, 'cws, 'uws, 'm) proxy_env \<Rightarrow> 'io tls_stream \<Rightarrow> 'up \<Rightarrow> tcp_session" where
  "tcp_begin env ts up = (case tcp_run env ts up of (_, c2s, s2c) \<Rightarrow> tcp_start c2s s2c)"

definition ws_begin ::
  "('io, 'up, 'cws, 'uws, 'm) proxy_env \<Rightarrow> 'cws \<Rightarrow> 'uws \<Rightarrow> 'm ws_session" where
  "ws_begin env c u = (case ws_run env c u of (_, cp, up) \<Rightarrow> ws_start cp up)"

lemma serve_backend_tcp:
  "serve_backend (with_schedule sched env) Tcp ts b =
     note_action (Dial (addr b)) (await_result (tcp_connect env (addr b)) (\<lambda>up.
       ([], fst (proxy_tcp sched (tcp_begin env ts up)))))"
  by (simp add: serve_backend_def tcp_begin_def case_prod_unfold Let_def)

lemma serve_backend_ws:
  "serve_backend (with_schedule sched env) Ws ts b =
     note_action Ws_Accept (await_result (ws_accept env ts) (\<lambda>client_ws.
       note_action (Ws_Dial (ws_url (addr b)))
         (await_result (ws_connect env (ws_url (addr b))) (\<lambda>upstream_ws.
           ([], fst (proxy_ws (ws_up_send env) (ws_cl_send env) sched
                       (ws_begin env client_ws upstream_ws)))))))"
  by (simp add: serve_backend_def ws_begin_def case_prod_unfold Let_def)

lemma serve_backend_other:
  "proto \<notin> {Tcp, Ws} \<Longrightarrow> serve_backend env proto ts b = ([], Some (Err (Msg ''Unsupported protocol'')))"
  by (cases proto) (simp_all add: serve_backend_def)

lemmas task_defs = finish_def go_def act_def

lemma poll_answer_Pending: "poll_answer n ps = Pending \<Longrightarrow> await (drop (Suc n) ps) = await (drop n ps)"
  using tl_drop [of n ps] by (cases "drop n ps") (auto simp: poll_answer_def drop_Suc)

lemma poll_answer_Ready: "poll_answer n ps = Ready r \<Longrightarrow> await (drop n ps) = Some r"
  by (auto simp: poll_answer_def split: list.splits)

lemma poll_answer_length:
  "await (drop n ps) \<noteq> None \<Longrightarrow> n < length ps"
  by (rule ccontr) simp

section \<open>The invariant of a task\<close>

text \<open>What a task has done when its result is \<open>r\<close>; \<open>answers\<close> are those of the discovery.\<close>

definition task_done ::
  "(string \<Rightarrow> 'sn outcome) \<Rightarrow> ('scfg \<Rightarrow> 'io \<Rightarrow> 'io tls_stream outcome poll list)
    \<Rightarrow> ('sn, 'scfg, 'r) stream_proxy \<Rightarrow> ('io, 'up, 'cws, 'uws, 'm) proxy_env
    \<Rightarrow> backend btree_set set \<Rightarrow> ('sn, 'io, 'cws, 'm) conn_task \<Rightarrow> unit outcome \<Rightarrow> bool" where
  "task_done f accept p env answers t r \<longleftrightarrow>
     (case terminate f accept (sp_tls_server p) (task_io t) of
        None \<Rightarrow> False
      | Some (Err e) \<Rightarrow> r = Err e \<and> task_actions t = [] \<and> task_choice t = None
      | Some (Panic q) \<Rightarrow> r = Panic q \<and> task_actions t = [] \<and> task_choice t = None
      | Some (Ok (k, ts)) \<Rightarrow>
          (case task_choice t of
             None \<Rightarrow> r = Err (Msg ''No backends available'') \<and> task_actions t = []
           | Some (bs, b) \<Rightarrow> bs \<in> answers \<and> b \<in> set bs \<and>
               (\<exists>sched. serve_backend (with_schedule sched env) (proxy_protocol p) ts b
                          = (task_actions t, Some r))))"

definition shook ::
  "(string \<Rightarrow> 'sn outcome) \<Rightarrow> ('scfg \<Rightarrow> 'io \<Rightarrow> 'io tls_stream outcome poll list)
    \<Rightarrow> ('sn, 'scfg, 'r) stream_proxy \<Rightarrow> ('sn, 'io, 'cws, 'm) conn_task \<Rightarrow> 'io tls_stream \<Rightarrow> bool" where
  "shook f accept p t ts \<longleftrightarrow>
     (\<exists>k. terminate f accept (sp_tls_server p) (task_io t) = Some (Ok (k, ts)))"

definition chosen :: "backend btree_set set \<Rightarrow> ('sn, 'io, 'cws, 'm) conn_task \<Rightarrow> backend \<Rightarrow> bool" where
  "chosen answers t b \<longleftrightarrow> (\<exists>bs\<in>answers. task_choice t = Some (bs, b) \<and> b \<in> set bs)"

definition task_ok ::
  "(string \<Rightarrow> 'sn outcome) \<Rightarrow> ('scfg \<Rightarrow> 'io \<Rightarrow> 'io tls_stream outcome poll list)
    \<Rightarrow> ('sn, 'scfg, 'r) stream_proxy \<Rightarrow> ('io, 'up, 'cws, 'uws, 'm) proxy_env
    \<Rightarrow> backend btree_set set \<Rightarrow> ('sn, 'io, 'cws, 'm) conn_task \<Rightarrow> bool" where
  "task_ok f accept p env answers t \<longleftrightarrow>
     (case task_phase t of
        Handshaking ps \<Rightarrow> task_actions t = [] \<and> task_choice t = None \<and>
          await ps = terminate f accept (sp_tls_server p) (task_io t)
      | Loading ts \<Rightarrow> task_actions t = [] \<and> task_choice t = None \<and> shook f accept p t ts
      | Choosing ts bs \<Rightarrow> task_actions t = [] \<and> task_choice t = None \<and> shook f accept p t ts \<and>
          bs \<in> answers \<and> bs \<noteq> []
      | Connecting ts b n \<Rightarrow> task_actions t = (if n = 0 then [] else [Dial (addr b)]) \<and>
          chosen answers t b \<and> shook f accept p t ts \<and> proxy_protocol p = Tcp \<and>
          await (drop n (tcp_connect env (addr b))) = await (tcp_connect env (addr b))
      | Ws_Accepting ts b n \<Rightarrow> task_actions t = (if n = 0 then [] else [Ws_Accept]) \<and>
          chosen answers t b \<and> shook f accept p t ts \<and> proxy_protocol p = Ws \<and>
          await (drop n (ws_accept env ts)) = await (ws_accept env ts)
      | Ws_Connecting c b n \<Rightarrow>
          task_actions t = (if n = 0 then [Ws_Accept] else [Ws_Accept, Ws_Dial (ws_url (addr b))]) \<and>
          chosen answers t b \<and> proxy_protocol p = Ws \<and>
          (\<exists>ts. shook f accept p t ts \<and> await (ws_accept env ts) = Some (Ok c)) \<and>
          await (drop n (ws_connect env (ws_url (addr b)))) = await (ws_connect env (ws_url (addr b)))
      | Tcp_Relaying s \<Rightarrow> proxy_protocol p = Tcp \<and>
          (\<exists>b ts up sched. chosen answers t b \<and> shook f accept p t ts \<and>
             task_actions t = [Dial (addr b)] \<and> await (tcp_connect env (addr b)) = Some (Ok up) \<and>
             proxy_tcp sched (tcp_begin env ts up) = (None, s))
      | Ws_Relaying s \<Rightarrow> proxy_protocol p = Ws \<and>
          (\<exists>b ts c u sched. chosen answers t b \<and> shook f accept p t ts \<and>
             task_actions t = [Ws_Accept, Ws_Dial (ws_url (addr b))] \<and>
             await (ws_accept env ts) = Some (Ok c) \<and>
             await (ws_connect env (ws_url (addr b))) = Some (Ok u) \<and>
             proxy_ws (ws_up_send env) (ws_cl_send env) sched (ws_begin env c u) = (None, s))
      | Finished r \<Rightarrow> task_done f accept p env answers t r)"

lemma task_ok_spawn: "task_ok f accept p env answers (task_spawn f accept p io)"
  by (simp add: task_ok_def task_spawn_def terminate_def)

lemma task_ok_mono:
  "task_ok f accept p env A t \<Longrightarrow> A \<subseteq> B \<Longrightarrow> task_ok f accept p env B t"
  unfolding task_ok_def task_done_def chosen_def
  by (cases "task_phase t") (auto split: option.splits outcome.splits, blast+)

lemma task_doneI:
  "shook f accept p t ts \<Longrightarrow> chosen A t b \<Longrightarrow>
     serve_backend (with_schedule sched env) (proxy_protocol p) ts b = (task_actions t, Some r) \<Longrightarrow>
     task_done f accept p env A t r"
  by (auto simp: task_done_def shook_def chosen_def)

section \<open>Every poll keeps the invariant\<close>

text \<open>Answers whose backends any implemented algorithm can pick from.\<close>

definition answers_ok :: "backend btree_set set \<Rightarrow> bool" where
  "answers_ok A \<longleftrightarrow> (\<forall>bs\<in>A. fits_usize bs \<and> unit_weights bs)"

lemma task_ok_handshake:
  assumes ok: "task_ok f accept p env A t" and ph: "task_phase t = Handshaking ps"
  shows "task_ok f accept p env A (snd (task_poll prof draw env proto br (lb, t)))"
proof (cases ps)
  case Nil
  with ok ph show ?thesis by simp
next
  case (Cons q qs)
  show ?thesis
  proof (cases q)
    case Pending
    with ok ph Cons show ?thesis by (simp add: task_ok_def go_def)
  next
    case (Ready r)
    then have "terminate f accept (sp_tls_server p) (task_io t) = Some r"
      using ok ph Cons by (simp add: task_ok_def)
    with ok ph Cons Ready show ?thesis
      by (cases r) (auto simp: task_ok_def go_def finish_def task_done_def shook_def)
  qed
qed

lemma task_ok_loading:
  assumes "task_ok f accept p env A t" "task_phase t = Loading ts"
    and "cell lb = [] \<or> cell lb \<in> A"
  shows "task_ok f accept p env A (snd (task_poll prof draw env proto br (lb, t)))"
  using assms
  by (auto simp: task_ok_def go_def finish_def task_done_def shook_def get_backends_def Let_def)

lemma pick_backend_picks:
  assumes "implemented (lb_selection lb)" "rng_ok draw" "fits_usize bs" "unit_weights bs" "bs \<noteq> []"
  shows "\<exists>b\<in>set bs. fst (selector_select prof draw (lb_selection lb) bs) = Ok (Some b) \<and>
     pick_backend prof draw proto ts bs (lb, t) =
       (lb\<lparr>lb_selection := snd (selector_select prof draw (lb_selection lb) bs)\<rparr>,
        dispatch proto ts b (t\<lparr>task_choice := Some (bs, b)\<rparr>))"
proof -
  let ?s = "selector_select prof draw (lb_selection lb) bs"
  obtain b where b: "fst ?s = Ok (Some b)"
    using selector.select_total [OF assms(2,1,3-5)] by blast
  then have "b \<in> set bs"
    using selector.select_mem [OF assms(2,1,3), of prof b "snd ?s"] by (metis prod.collapse)
  with b show ?thesis by (auto simp: pick_backend_def case_prod_unfold Let_def)
qed

lemma task_ok_choosing:
  assumes ok: "task_ok f accept p env A t" and ph: "task_phase t = Choosing ts bs"
    and A: "answers_ok A" "implemented (lb_selection lb)" "rng_ok draw"
  shows "task_ok f accept p env A (snd (task_poll prof draw env (proxy_protocol p) br (lb, t)))"
proof -
  have bs: "bs \<in> A" "bs \<noteq> []" and sh: "shook f accept p t ts"
    and empty: "task_actions t = []"
    using ok ph by (simp_all add: task_ok_def)
  then have "fits_usize bs" "unit_weights bs" using A(1) by (simp_all add: answers_ok_def)
  with A(2,3) bs(2) obtain b where b: "b \<in> set bs" and
    poll: "snd (pick_backend prof draw (proxy_protocol p) ts bs (lb, t))
       = dispatch (proxy_protocol p) ts b (t\<lparr>task_choice := Some (bs, b)\<rparr>)"
    using pick_backend_picks by (metis snd_conv)
  let ?t = "t\<lparr>task_choice := Some (bs, b)\<rparr>"
  have "chosen A ?t b" "shook f accept p ?t ts"
    using b bs(1) sh by (auto simp: chosen_def shook_def)
  moreover have "task_done f accept p env A (finish r ?t) r" if "proxy_protocol p \<notin> {Tcp, Ws}"
    "r = Err (Msg ''Unsupported protocol'')" for r
    using that sh b bs(1) empty
    by (intro task_doneI [of _ _ _ _ ts _ b "[]"])
      (auto simp: finish_def shook_def chosen_def serve_backend_other)
  ultimately have "task_ok f accept p env A (dispatch (proxy_protocol p) ts b ?t)"
    using empty
    by (cases "proxy_protocol p")
      (auto simp: task_ok_def go_def finish_def chosen_def shook_def)
  with poll ph show ?thesis by simp
qed

lemma task_frame [simp]:
  "chosen A (act a t) b = chosen A t b" "chosen A (go ph t) b = chosen A t b"
  "chosen A (finish r t) b = chosen A t b"
  "shook f accept p (act a t) ts = shook f accept p t ts"
  "shook f accept p (go ph t) ts = shook f accept p t ts"
  "shook f accept p (finish r t) ts = shook f accept p t ts"
  "task_actions (act a t) = task_actions t @ [a]" "task_actions (go ph t) = task_actions t"
  "task_actions (finish r t) = task_actions t"
  "task_phase (go ph t) = ph" "task_phase (finish r t) = Finished r"
  by (simp_all add: task_defs chosen_def shook_def)

lemma task_ok_finish:
  "shook f accept p t ts \<Longrightarrow> chosen A t b \<Longrightarrow>
     serve_backend (with_schedule sched env) (proxy_protocol p) ts b = (task_actions t, Some r) \<Longrightarrow>
     task_ok f accept p env A (finish r t)"
  by (auto simp: task_ok_def intro: task_doneI)

lemma no_polls_yet [simp]:
  "\<exists>sched. proxy_tcp sched s = (None, s)" "\<exists>sched. proxy_ws up cl sched w = (None, w)"
  by (rule exI [of _ "[]"], simp)+

text \<open>The frame of the action noted at a first poll.\<close>

lemma act_first_frame [simp]:
  "chosen A (act_first n a t) b = chosen A t b"
  "shook f accept p (act_first n a t) ts = shook f accept p t ts"
  "task_actions (act_first n a t) = task_actions t @ (if n = 0 then [a] else [])"
  by (simp_all add: act_first_def)

lemma task_ok_connecting:
  assumes ok: "task_ok f accept p env A t" and ph: "task_phase t = Connecting ts b n"
  shows "task_ok f accept p env A (snd (task_poll prof draw env proto br (lb, t)))"
proof -
  let ?ps = "tcp_connect env (addr b)" and ?t = "act_first n (Dial (addr b)) t"
  from ok ph have t: "task_actions ?t = [Dial (addr b)]" "chosen A ?t b" "shook f accept p ?t ts"
    "proxy_protocol p = Tcp" "await (drop n ?ps) = await ?ps"
    by (simp_all add: task_ok_def)
  show ?thesis
  proof (cases "poll_answer n ?ps")
    case Pending
    with t poll_answer_Pending [OF Pending] ph show ?thesis by (simp add: task_ok_def await_step_def)
  next
    case (Ready r)
    with t(5) poll_answer_Ready [OF Ready] have aw: "await ?ps = Some r" by simp
    show ?thesis
    proof (cases r)
      case (Ok up)
      with t aw have "task_ok f accept p env A (go (Tcp_Relaying (tcp_begin env ts up)) ?t)"
        by (simp add: task_ok_def) (metis no_polls_yet(1))
      with ph Ok Ready show ?thesis by (simp add: tcp_begin_def await_step_def)
    qed (use t ph aw Ready in \<open>auto intro!: task_ok_finish [of _ _ _ _ ts _ b "[]"]
          simp: serve_backend_tcp note_action_def await_result_def await_step_def\<close>)
  qed
qed

lemma task_ok_ws_accepting:
  assumes ok: "task_ok f accept p env A t" and ph: "task_phase t = Ws_Accepting ts b n"
  shows "task_ok f accept p env A (snd (task_poll prof draw env proto br (lb, t)))"
proof -
  let ?ps = "ws_accept env ts" and ?t = "act_first n Ws_Accept t"
  from ok ph have t: "task_actions ?t = [Ws_Accept]" "chosen A ?t b" "shook f accept p ?t ts"
    "proxy_protocol p = Ws" "await (drop n ?ps) = await ?ps"
    by (simp_all add: task_ok_def)
  show ?thesis
  proof (cases "poll_answer n ?ps")
    case Pending
    with t poll_answer_Pending [OF Pending] ph show ?thesis by (simp add: task_ok_def await_step_def)
  next
    case (Ready r)
    with t(5) poll_answer_Ready [OF Ready] have aw: "await ?ps = Some r" by simp
    show ?thesis
    proof (cases r)
      case (Ok c)
      with t aw ph Ready show ?thesis by (auto simp: task_ok_def await_step_def)
    qed (use t ph aw Ready in \<open>auto intro!: task_ok_finish [of _ _ _ _ ts _ b "[]"]
          simp: serve_backend_ws note_action_def await_result_def await_step_def\<close>)
  qed
qed

lemma task_ok_ws_connecting:
  assumes ok: "task_ok f accept p env A t" and ph: "task_phase t = Ws_Connecting c b n"
  shows "task_ok f accept p env A (snd (task_poll prof draw env proto br (lb, t)))"
proof -
  let ?ps = "ws_connect env (ws_url (addr b))" and ?t = "act_first n (Ws_Dial (ws_url (addr b))) t"
  from ok ph obtain ts where t: "task_actions ?t = [Ws_Accept, Ws_Dial (ws_url (addr b))]"
    "chosen A ?t b" "shook f accept p ?t ts" "proxy_protocol p = Ws" "await (drop n ?ps) = await ?ps"
    "await (ws_accept env ts) = Some (Ok c)"
    by (auto simp: task_ok_def)
  show ?thesis
  proof (cases "poll_answer n ?ps")
    case Pending
    with t poll_answer_Pending [OF Pending] ph show ?thesis by (auto simp: task_ok_def await_step_def)
  next
    case (Ready r)
    with t(5) poll_answer_Ready [OF Ready] have aw: "await ?ps = Some r" by simp
    show ?thesis
    proof (cases r)
      case (Ok u)
      with t aw have "task_ok f accept p env A (go (Ws_Relaying (ws_begin env c u)) ?t)"
        by (simp add: task_ok_def) (metis no_polls_yet(2))
      with ph Ok Ready show ?thesis by (simp add: ws_begin_def await_step_def)
    qed (use t ph aw Ready in \<open>auto intro!: task_ok_finish [of _ _ _ _ ts _ b "[]"]
          simp: serve_backend_ws note_action_def await_result_def await_step_def\<close>)
  qed
qed

lemma task_ok_tcp_relaying:
  assumes ok: "task_ok f accept p env A t" and ph: "task_phase t = Tcp_Relaying s"
  shows "task_ok f accept p env A (snd (task_poll prof draw env proto br (lb, t)))"
proof -
  from ok ph obtain b ts up sched where t: "chosen A t b" "shook f accept p t ts"
    "task_actions t = [Dial (addr b)]" "await (tcp_connect env (addr b)) = Some (Ok up)" "proxy_protocol p = Tcp"
    and run: "proxy_tcp sched (tcp_begin env ts up) = (None, s)"
    by (auto simp: task_ok_def)
  obtain r s' where poll: "proxy_tcp [br] s = (r, s')" by (cases "proxy_tcp [br] s")
  with run have run': "proxy_tcp (sched @ [br]) (tcp_begin env ts up) = (r, s')"
    by (simp add: proxy_tcp_append)
  show ?thesis
  proof (cases r)
    case None
    with t run' have "task_ok f accept p env A (go (Tcp_Relaying s') t)"
      by (simp add: task_ok_def) blast
    with ph poll None show ?thesis by simp
  next
    case (Some x)
    with t run' have "task_ok f accept p env A (finish x t)"
      by (intro task_ok_finish [of _ _ _ _ ts _ b "sched @ [br]"])
        (simp_all add: serve_backend_tcp note_action_def await_result_def)
    with ph poll Some show ?thesis by simp
  qed
qed

lemma task_ok_ws_relaying:
  assumes ok: "task_ok f accept p env A t" and ph: "task_phase t = Ws_Relaying s"
  shows "task_ok f accept p env A (snd (task_poll prof draw env proto br (lb, t)))"
proof -
  from ok ph obtain b ts c u sched where t: "chosen A t b" "shook f accept p t ts"
    "task_actions t = [Ws_Accept, Ws_Dial (ws_url (addr b))]" "await (ws_accept env ts) = Some (Ok c)"
    "await (ws_connect env (ws_url (addr b))) = Some (Ok u)" "proxy_protocol p = Ws"
    and run: "proxy_ws (ws_up_send env) (ws_cl_send env) sched (ws_begin env c u) = (None, s)"
    by (auto simp: task_ok_def)
  obtain r s' where poll: "proxy_ws (ws_up_send env) (ws_cl_send env) [br] s = (r, s')"
    by (cases "proxy_ws (ws_up_send env) (ws_cl_send env) [br] s")
  with run have run': "proxy_ws (ws_up_send env) (ws_cl_send env) (sched @ [br]) (ws_begin env c u) = (r, s')"
    by (simp add: proxy_ws_append)
  show ?thesis
  proof (cases r)
    case None
    with t run' have "task_ok f accept p env A (go (Ws_Relaying s') t)"
      by (simp add: task_ok_def) blast
    with ph poll None show ?thesis by simp
  next
    case (Some x)
    with t run' have "task_ok f accept p env A (finish x t)"
      by (intro task_ok_finish [of _ _ _ _ ts _ b "sched @ [br]"])
        (simp_all add: serve_backend_ws note_action_def await_result_def)
    with ph poll Some show ?thesis by simp
  qed
qed

lemma task_ok_poll:
  assumes "task_ok f accept p env A t" "answers_ok A" "implemented (lb_selection lb)" "rng_ok draw"
    and "cell lb = [] \<or> cell lb \<in> A"
  shows "task_ok f accept p env A (snd (task_poll prof draw env (proxy_protocol p) br (lb, t)))"
proof (cases "task_phase t")
  case (Finished r)
  with assms(1) show ?thesis by simp
qed (use assms in \<open>blast intro: task_ok_handshake task_ok_loading task_ok_choosing
      task_ok_connecting task_ok_ws_accepting task_ok_ws_connecting task_ok_tcp_relaying
      task_ok_ws_relaying\<close>)+

section \<open>A task on its own\<close>

definition task_result :: "('sn, 'io, 'cws, 'm) conn_task \<Rightarrow> unit outcome option" where
  "task_result t = (case task_phase t of Finished r \<Rightarrow> Some r | _ \<Rightarrow> None)"

definition task_run ::
  "build_profile \<Rightarrow> rng \<Rightarrow> ('io, 'up, 'cws, 'uws, 'm) proxy_env \<Rightarrow> protocol \<Rightarrow> branch list
    \<Rightarrow> 'r load_balancer \<times> ('sn, 'io, 'cws, 'm) conn_task
    \<Rightarrow> 'r load_balancer \<times> ('sn, 'io, 'cws, 'm) conn_task" where
  "task_run prof draw env proto brs lt = fold (task_poll prof draw env proto) brs lt"

lemma task_run_simps [simp]:
  "task_run prof draw env proto [] lt = lt"
  "task_run prof draw env proto (br # brs) lt
     = task_run prof draw env proto brs (task_poll prof draw env proto br lt)"
  by (simp_all add: task_run_def)

lemma task_run_finished [simp]:
  "task_phase t = Finished r \<Longrightarrow> task_run prof draw env proto brs (lb, t) = (lb, t)"
  by (induction brs) simp_all

text \<open>
  Polled often enough, and then as \<open>sched\<close> says, the task ends up with the balancer \<open>lb'\<close>,
  having done \<open>acts\<close> more, with result \<open>res\<close>.
\<close>

definition computes ::
  "build_profile \<Rightarrow> rng \<Rightarrow> ('io, 'up, 'cws, 'uws, 'm) proxy_env \<Rightarrow> protocol \<Rightarrow> branch list
    \<Rightarrow> 'r load_balancer \<times> ('sn, 'io, 'cws, 'm) conn_task \<Rightarrow> 'r load_balancer \<Rightarrow> result \<Rightarrow> bool" where
  "computes prof draw env proto sched lt lb' res \<longleftrightarrow>
     (\<exists>k t'. task_run prof draw env proto (replicate k Client_Branch @ sched) lt = (lb', t') \<and>
        task_actions t' = task_actions (snd lt) @ fst res \<and> task_result t' = snd res)"

lemma computes_poll:
  assumes "task_poll prof draw env proto Client_Branch (lb, t) = (lb1, t1)"
    and "task_actions t1 = task_actions t @ acts"
    and "computes prof draw env proto sched (lb1, t1) lb' res"
  shows "computes prof draw env proto sched (lb, t) lb' (acts @ fst res, snd res)"
proof -
  obtain k t' where "task_run prof draw env proto (replicate k Client_Branch @ sched) (lb1, t1) = (lb', t')"
    "task_actions t' = task_actions t1 @ fst res" "task_result t' = snd res"
    using assms(3) by (auto simp: computes_def)
  with assms(1,2) show ?thesis
    unfolding computes_def by (intro exI [of _ "Suc k"] exI [of _ t']) simp
qed

lemma computes_silent:
  assumes "task_poll prof draw env proto Client_Branch (lb, t) = (lb1, t1)"
    and "task_actions t1 = task_actions t"
    and "computes prof draw env proto sched (lb1, t1) lb' res"
  shows "computes prof draw env proto sched (lb, t) lb' res"
  using computes_poll [OF assms(1) _ assms(3), of "[]"] assms(2) by simp

lemma computes_finish:
  "computes prof draw env proto sched (lb, finish r t) lb ([], Some r)"
  unfolding computes_def
  by (intro exI [of _ 0] exI [of _ "finish r t"]) (simp add: task_result_def)

lemma task_run_tcp:
  "task_phase t = Tcp_Relaying s \<Longrightarrow>
     (\<exists>t'. task_run prof draw env proto sched (lb, t) = (lb, t') \<and> task_actions t' = task_actions t \<and>
        task_result t' = fst (proxy_tcp sched s))"
proof (induction sched arbitrary: t s)
  case Nil
  then show ?case by (simp add: task_result_def)
next
  case (Cons br sched)
  obtain r s' where p: "proxy_tcp [br] s = (r, s')" by (cases "proxy_tcp [br] s")
  have run: "proxy_tcp (br # sched) s = (case r of None \<Rightarrow> proxy_tcp sched s' | Some x \<Rightarrow> (Some x, s'))"
    using proxy_tcp_append [of "[br]" sched s] p by (simp split: option.split)
  show ?case
  proof (cases r)
    case None
    with Cons.prems p run Cons.IH [of "go (Tcp_Relaying s') t" s'] show ?thesis by simp
  next
    case (Some x)
    with Cons.prems p run show ?thesis by (simp add: task_result_def)
  qed
qed

lemma task_run_ws:
  "task_phase t = Ws_Relaying s \<Longrightarrow>
     (\<exists>t'. task_run prof draw env proto sched (lb, t) = (lb, t') \<and> task_actions t' = task_actions t \<and>
        task_result t' = fst (proxy_ws (ws_up_send env) (ws_cl_send env) sched s))"
proof (induction sched arbitrary: t s)
  case Nil
  then show ?case by (simp add: task_result_def)
next
  case (Cons br sched)
  let ?run = "\<lambda>sched s. proxy_ws (ws_up_send env) (ws_cl_send env) sched s"
  obtain r s' where p: "?run [br] s = (r, s')" by (cases "?run [br] s")
  have run: "?run (br # sched) s = (case r of None \<Rightarrow> ?run sched s' | Some x \<Rightarrow> (Some x, s'))"
    using proxy_ws_append [of "ws_up_send env" "ws_cl_send env" "[br]" sched s] p
    by (simp split: option.split)
  show ?case
  proof (cases r)
    case None
    with Cons.prems p run Cons.IH [of "go (Ws_Relaying s') t" s'] show ?thesis by simp
  next
    case (Some x)
    with Cons.prems p run show ?thesis by (simp add: task_result_def)
  qed
qed

lemma computes_session:
  "computes prof draw env proto sched (lb, go (Tcp_Relaying s) t) lb ([], fst (proxy_tcp sched s))"
  "computes prof draw env proto sched (lb, go (Ws_Relaying w) t) lb
     ([], fst (proxy_ws (ws_up_send env) (ws_cl_send env) sched w))"
  using task_run_tcp [of "go (Tcp_Relaying s) t" s prof draw env proto sched lb]
    task_run_ws [of "go (Ws_Relaying w) t" w prof draw env proto sched lb]
  unfolding computes_def by (auto intro!: exI [of _ 0])

text \<open>
  Waiting for a future: \<open>ph\<close> is the phase that waits, \<open>ps\<close> its answers, \<open>a\<close> the action
  of its call, \<open>k\<close> the phase that goes on with its value.
\<close>

lemma task_run_awaiting:
  assumes poll: "\<And>n br u. task_phase u = ph n \<Longrightarrow> task_poll prof draw env proto br (lb, u)
      = (lb, await_step n ps ph (\<lambda>x. go (k x)) (act_first n a u))"
    and opened: "\<And>n r. ph n \<noteq> Finished r"
  shows "task_phase u = ph (Suc n) \<Longrightarrow> await (drop (Suc n) ps) = None \<Longrightarrow>
    \<exists>t'. task_run prof draw env proto brs (lb, u) = (lb, t') \<and> task_actions t' = task_actions u \<and>
      task_result t' = None"
proof (induction brs arbitrary: n u)
  case Nil
  then show ?case using opened by (auto simp: task_result_def split: phase.split)
next
  case (Cons br brs)
  then have pend: "poll_answer (Suc n) ps = Pending"
    using poll_answer_Ready [of "Suc n" ps] by (cases "poll_answer (Suc n) ps") auto
  have run: "task_poll prof draw env proto br (lb, u) = (lb, go (ph (Suc (Suc n))) u)"
    using poll [OF Cons.prems(1)] pend by (simp add: await_step_def act_first_def)
  from Cons.IH [of "go (ph (Suc (Suc n))) u" "Suc n"] Cons.prems(2) poll_answer_Pending [OF pend] run
  show ?case by simp
qed

lemma computes_continue:
  assumes "\<And>x. r = Ok x \<Longrightarrow> computes prof draw env proto sched (lb, go (k x) u) lb (g x)"
  shows "computes prof draw env proto sched (lb, continue_with r (\<lambda>x. go (k x)) u) lb (bind_result r g)"
  using assms by (cases r) (simp_all add: computes_finish)

lemma continue_go_actions [simp]:
  "task_actions (continue_with r (\<lambda>x. go (k x)) u) = task_actions u"
  by (cases r) simp_all

lemma computes_awaiting:
  assumes poll: "\<And>n br u. task_phase u = ph n \<Longrightarrow> task_poll prof draw env proto br (lb, u)
      = (lb, await_step n ps ph (\<lambda>x. go (k x)) (act_first n a u))"
    and opened: "\<And>n r. ph n \<noteq> Finished r"
    and rest: "\<And>x u. computes prof draw env proto sched (lb, go (k x) u) lb (g x)"
  shows "task_phase u = ph (Suc n) \<Longrightarrow>
    computes prof draw env proto sched (lb, u) lb (await_result (drop (Suc n) ps) g)"
proof (induction "length ps - n" arbitrary: n u rule: less_induct)
  case less
  show ?case
  proof (cases "await (drop (Suc n) ps)")
    case None
    from task_run_awaiting [OF poll opened less.prems None, of sched] None show ?thesis
      by (auto simp: computes_def await_result_def intro: exI [of _ 0])
  next
    case (Some r)
    then have "n < length ps" using poll_answer_length [of "Suc n" ps] by simp
    show ?thesis
    proof (cases "poll_answer (Suc n) ps")
      case Pending
      have "computes prof draw env proto sched (lb, go (ph (Suc (Suc n))) u) lb
          (await_result (drop (Suc (Suc n)) ps) g)"
        using \<open>n < length ps\<close> by (intro less.hyps) simp_all
      then have later: "computes prof draw env proto sched (lb, go (ph (Suc (Suc n))) u) lb
          (await_result (drop (Suc n) ps) g)"
        using poll_answer_Pending [OF Pending] by (simp add: await_result_def)
      have "task_poll prof draw env proto Client_Branch (lb, u) = (lb, go (ph (Suc (Suc n))) u)"
        using poll [OF less.prems] Pending by (simp add: await_step_def act_first_def)
      from computes_silent [OF this _ later] show ?thesis by simp
    next
      case (Ready x)
      with Some poll_answer_Ready [OF Ready]
      have later: "computes prof draw env proto sched (lb, continue_with x (\<lambda>x. go (k x)) u) lb
          (await_result (drop (Suc n) ps) g)"
        using rest by (simp add: await_result_def computes_continue)
      have "task_poll prof draw env proto Client_Branch (lb, u) = (lb, continue_with x (\<lambda>x. go (k x)) u)"
        using poll [OF less.prems] Ready by (simp add: await_step_def act_first_def)
      from computes_silent [OF this _ later] show ?thesis by simp
    qed
  qed
qed

lemma computes_await:
  assumes poll: "\<And>n br u. task_phase u = ph n \<Longrightarrow> task_poll prof draw env proto br (lb, u)
      = (lb, await_step n ps ph (\<lambda>x. go (k x)) (act_first n a u))"
    and opened: "\<And>n r. ph n \<noteq> Finished r"
    and rest: "\<And>x u. computes prof draw env proto sched (lb, go (k x) u) lb (g x)"
    and start: "task_phase t = ph 0"
  shows "computes prof draw env proto sched (lb, t) lb (note_action a (await_result ps g))"
proof (cases "poll_answer 0 ps")
  case Pending
  have "computes prof draw env proto sched (lb, go (ph (Suc 0)) (act a t)) lb
      (await_result (drop (Suc 0) ps) g)"
    by (rule computes_awaiting [OF poll opened rest]) simp_all
  then have later: "computes prof draw env proto sched (lb, go (ph (Suc 0)) (act a t)) lb (await_result ps g)"
    using poll_answer_Pending [OF Pending] by (simp add: await_result_def)
  have "task_poll prof draw env proto Client_Branch (lb, t) = (lb, go (ph (Suc 0)) (act a t))"
    using poll [OF start] Pending by (simp add: await_step_def act_first_def)
  from computes_poll [OF this _ later, of "[a]"] show ?thesis by (simp add: note_action_def)
next
  case (Ready r)
  then have aw: "await_result ps g = bind_result r g"
    using poll_answer_Ready [OF Ready] by (simp add: await_result_def)
  have "task_poll prof draw env proto Client_Branch (lb, t) = (lb, continue_with r (\<lambda>x. go (k x)) (act a t))"
    using poll [OF start] Ready by (simp add: await_step_def act_first_def)
  from computes_poll [OF this _ computes_continue [OF rest], of "[a]"] aw show ?thesis
    by (simp add: note_action_def)
qed

lemma computes_dispatch:
  "computes prof draw (with_schedule sched env) proto sched (lb, dispatch proto ts b t) lb
     (serve_backend (with_schedule sched env) proto ts b)"
proof (cases proto)
  case Tcp
  show ?thesis
    unfolding Tcp serve_backend_tcp dispatch.simps
    by (rule computes_await [where ph = "Connecting ts b" and k = "\<lambda>up. Tcp_Relaying (tcp_begin env ts up)"])
      (simp_all add: computes_session tcp_begin_def case_prod_unfold)
next
  case Ws
  have connect: "computes prof draw (with_schedule sched env) Ws sched (lb, go (Ws_Connecting c b 0) u) lb
      (note_action (Ws_Dial (ws_url (addr b))) (await_result (ws_connect env (ws_url (addr b))) (\<lambda>w.
        ([], fst (proxy_ws (ws_up_send env) (ws_cl_send env) sched (ws_begin env c w))))))" for c u
    using computes_session(2) [of prof draw "with_schedule sched env" Ws sched lb]
    by (intro computes_await [where ph = "Ws_Connecting c b" and k = "\<lambda>w. Ws_Relaying (ws_begin env c w)"])
      (simp_all add: ws_begin_def case_prod_unfold)
  show ?thesis
    unfolding Ws serve_backend_ws dispatch.simps
    by (rule computes_await [where ph = "Ws_Accepting ts b" and k = "\<lambda>c. Ws_Connecting c b 0"])
      (simp_all add: connect)
qed (simp_all add: serve_backend_other computes_finish)

text \<open>From the loading of the backends on.\<close>

lemma computes_loading:
  assumes "task_phase t = Loading ts"
  shows "computes prof draw (with_schedule sched env) proto sched (lb, t) (snd (lb_select prof draw None lb))
    (bind_result (fst (lb_select prof draw None lb)) (\<lambda>ob.
       case ob of
         Some b \<Rightarrow> serve_backend (with_schedule sched env) proto ts b
       | None \<Rightarrow> ([], Some (Err (Msg ''No backends available'')))))"
proof (cases "cell lb = []")
  case True
  have "task_poll prof draw (with_schedule sched env) proto Client_Branch (lb, t)
      = (lb, finish (Err (Msg ''No backends available'')) t)"
    using assms True by (simp add: get_backends_def)
  from computes_silent [OF this _ computes_finish] show ?thesis
    using True by (simp add: lb_select_empty)
next
  case False
  let ?s = "selector_select prof draw (lb_selection lb) (cell lb)"
  let ?t = "go (Choosing ts (cell lb)) t"
  let ?r = "fst ?s" and ?lb = "lb\<lparr>lb_selection := snd ?s\<rparr>"
  let ?k = "\<lambda>ob t. case ob of
      Some b \<Rightarrow> dispatch proto ts b (t\<lparr>task_choice := Some (cell lb, b)\<rparr>)
    | None \<Rightarrow> finish (Err (Msg ''No backends available'')) t"
  have load: "task_poll prof draw (with_schedule sched env) proto Client_Branch (lb, t) = (lb, ?t)"
    using assms False by (simp add: get_backends_def)
  have pick: "task_poll prof draw (with_schedule sched env) proto Client_Branch (lb, ?t)
      = (?lb, continue_with ?r ?k ?t)"
    by (simp add: pick_backend_def case_prod_unfold Let_def)
  have acts: "task_actions (continue_with ?r ?k ?t) = task_actions ?t"
    by (cases ?r; cases proto) (auto split: option.split)
  have disp: "computes prof draw (with_schedule sched env) proto sched
      (?lb, dispatch proto ts b (?t\<lparr>task_choice := c\<rparr>)) ?lb (serve_backend (with_schedule sched env) proto ts b)"
    for b c by (rule computes_dispatch)
  have "computes prof draw (with_schedule sched env) proto sched (?lb, continue_with ?r ?k ?t) ?lb
      (bind_result ?r (\<lambda>ob. case ob of
         Some b \<Rightarrow> serve_backend (with_schedule sched env) proto ts b
       | None \<Rightarrow> ([], Some (Err (Msg ''No backends available'')))))"
    using disp by (cases ?r) (auto simp: computes_finish split: option.split)
  from computes_silent [OF load _ computes_silent [OF pick acts this]]
  show ?thesis using False by (simp add: lb_select_nonempty)
qed

lemma task_run_handshaking:
  "task_phase t = Handshaking ps \<Longrightarrow> await ps = None \<Longrightarrow>
     (\<exists>t'. task_run prof draw env proto brs (lb, t) = (lb, t') \<and> task_actions t' = task_actions t \<and>
        task_result t' = None)"
proof (induction brs arbitrary: t ps)
  case Nil
  then show ?case by (simp add: task_result_def)
next
  case (Cons br brs)
  show ?case
  proof (cases ps)
    case Nil
    with Cons.prems Cons.IH [of t ps] show ?thesis by simp
  next
    fix q qs
    assume ps: "ps = q # qs"
    with Cons.prems have q: "q = Pending" "await qs = None" by (cases q; simp)+
    with Cons.prems ps Cons.IH [of "go (Handshaking qs) t" qs] show ?thesis by simp
  qed
qed

lemma computes_handshake:
  fixes t :: "('sn, 'io, 'cws, 'm) conn_task"
  shows "task_phase t = Handshaking ps \<Longrightarrow> await ps = Some r \<Longrightarrow>
     (\<And>u :: ('sn, 'io, 'cws, 'm) conn_task. task_actions u = task_actions t \<Longrightarrow>
        computes prof draw env proto sched (lb, continue_with r (\<lambda>(k, ts). go (Loading ts)) u) lb' res) \<Longrightarrow>
     computes prof draw env proto sched (lb, t) lb' res"
proof (induction ps arbitrary: t)
  case Nil
  then show ?case by simp
next
  case (Cons q ps)
  show ?case
  proof (cases q)
    case Pending
    have poll: "task_poll prof draw env proto Client_Branch (lb, t) = (lb, go (Handshaking ps) t)"
      using Cons.prems(1) Pending by simp
    show ?thesis
      by (rule computes_silent [OF poll]) (use Cons.IH Cons.prems Pending in simp_all)
  next
    case (Ready x)
    then have x: "x = r" using Cons.prems(2) by simp
    have poll: "task_poll prof draw env proto Client_Branch (lb, t)
        = (lb, continue_with r (\<lambda>(k, ts). go (Loading ts)) t)"
      using Cons.prems(1) Ready x by simp
    have "task_actions (continue_with r (\<lambda>(k, ts). go (Loading ts)) t) = task_actions t"
      by (cases r) auto
    then show ?thesis
      by (rule computes_silent [OF poll _ Cons.prems(3) [OF refl]])
  qed
qed

text \<open>The task alone computes \<open>handle_connection\<close>, in an environment with its schedule.\<close>

lemma task_computes_handle_connection:
  fixes p :: "('sn, 'scfg, 'r) stream_proxy" and env :: "('io, 'up, 'cws, 'uws, 'm) proxy_env"
  shows "computes prof draw (with_schedule sched env) (proxy_protocol p) sched
    (sp_load_balancer p, task_spawn f accept p io)
    (sp_load_balancer (snd (handle_connection prof (terminate f accept) (with_schedule sched env) draw p io)))
    (fst (handle_connection prof (terminate f accept) (with_schedule sched env) draw p io))"
proof -
  let ?ps = "tls_call f accept (sp_tls_server p) io"
  let ?t = "task_spawn f accept p io :: ('sn, 'io, 'cws, 'm) conn_task"
  have ph: "task_phase ?t = Handshaking ?ps" and acts: "task_actions ?t = []"
    by (simp_all add: task_spawn_def)
  show ?thesis
  proof (cases "await ?ps")
    case None
    with task_run_handshaking [OF ph None, of prof draw "with_schedule sched env" "proxy_protocol p" sched
        "sp_load_balancer p"] acts
    show ?thesis
      by (auto simp: computes_def handle_connection_def terminate_def intro: exI [of _ 0])
  next
    case (Some r)
    show ?thesis
    proof (rule computes_handshake [OF ph Some])
      fix u :: "('sn, 'io, 'cws, 'm) conn_task"
      show "computes prof draw (with_schedule sched env) (proxy_protocol p) sched
          (sp_load_balancer p, continue_with r (\<lambda>(k, ts). go (Loading ts)) u)
          (sp_load_balancer (snd (handle_connection prof (terminate f accept) (with_schedule sched env) draw p io)))
          (fst (handle_connection prof (terminate f accept) (with_schedule sched env) draw p io))"
      proof (cases r)
        case (Ok kts)
        obtain k ts where kts: "kts = (k, ts)" by (cases kts)
        have "terminate f accept (sp_tls_server p) io = Some (Ok (k, ts))"
          using Some Ok kts by (simp add: terminate_def)
        with computes_loading [of "go (Loading ts) u" ts] Ok kts show ?thesis
          by (simp add: handle_connection_handshake)
      qed (use Some in \<open>simp_all add: handle_connection_def terminate_def computes_finish\<close>)
    qed
  qed
qed

section \<open>TCP tasks finish\<close>

text \<open>
  Polls a TCP task needs, if a dial is settled within \<open>m\<close> polls and a session copies at most
  \<open>n\<close> steps from the client, and that it has them.
\<close>

fun task_fuel ::
  "('io, 'up, 'cws, 'uws, 'm) proxy_env \<Rightarrow> nat \<Rightarrow> nat \<Rightarrow> ('sn, 'io, 'cws, 'm) phase \<Rightarrow> nat" where
  "task_fuel env m n (Handshaking ps) = length ps + 2 + m + n"
| "task_fuel env m n (Loading ts) = 2 + m + n"
| "task_fuel env m n (Choosing ts bs) = 1 + m + n"
| "task_fuel env m n (Connecting ts b j) = length (drop j (tcp_connect env (addr b))) + n"
| "task_fuel env m n (Tcp_Relaying s) = length (client_to_server s)"
| "task_fuel env m n ph = 0"

fun task_moves :: "('io, 'up, 'cws, 'uws, 'm) proxy_env \<Rightarrow> ('sn, 'io, 'cws, 'm) phase \<Rightarrow> bool" where
  "task_moves env (Handshaking ps) \<longleftrightarrow> await ps \<noteq> None"
| "task_moves env (Connecting ts b j) \<longleftrightarrow> await (drop j (tcp_connect env (addr b))) \<noteq> None"
| "task_moves env (Tcp_Relaying s) \<longleftrightarrow> copy_ends (client_to_server s)"
| "task_moves env (Ws_Accepting ts b j) \<longleftrightarrow> False"
| "task_moves env (Ws_Connecting c b j) \<longleftrightarrow> False"
| "task_moves env (Ws_Relaying s) \<longleftrightarrow> False"
| "task_moves env ph \<longleftrightarrow> True"

lemma task_fuel_0: "task_moves env ph \<Longrightarrow> task_fuel env m n ph = 0 \<Longrightarrow> \<exists>r. ph = Finished r"
  by (cases ph) auto

definition spends ::
  "('io, 'up, 'cws, 'uws, 'm) proxy_env \<Rightarrow> nat \<Rightarrow> nat \<Rightarrow> branch
    \<Rightarrow> ('sn, 'io, 'cws, 'm) phase \<Rightarrow> ('sn, 'io, 'cws, 'm) phase \<Rightarrow> bool" where
  "spends env m n br ph ph' \<longleftrightarrow> task_moves env ph' \<and> task_fuel env m n ph' \<le> task_fuel env m n ph \<and>
     (br = Client_Branch \<longrightarrow> task_fuel env m n ph' \<le> task_fuel env m n ph - 1)"

text \<open>
  What the environment of a TCP task settles: dials within \<open>m\<close> polls, and the client side of
  every session within \<open>n\<close>.
\<close>

definition settles :: "('io, 'up, 'cws, 'uws, 'm) proxy_env \<Rightarrow> nat \<Rightarrow> nat \<Rightarrow> bool" where
  "settles env m n \<longleftrightarrow>
     (\<forall>a. await (tcp_connect env a) \<noteq> None \<and> length (tcp_connect env a) \<le> m) \<and>
     (\<forall>ts up. copy_ends (fst (snd (tcp_run env ts up))) \<and> length (fst (snd (tcp_run env ts up))) \<le> n)"

lemma spends_continue:
  assumes "\<And>x. r = Ok x \<Longrightarrow> spends env m n br ph (task_phase (k x t))"
  shows "spends env m n br ph (task_phase (continue_with r k t))"
  using assms by (cases r) (simp_all add: spends_def)

lemma spends_tcp:
  assumes "copy_ends (client_to_server s)" "proxy_tcp [br] s = (r, s')"
  shows "spends env m n br (Tcp_Relaying s) (case r of None \<Rightarrow> Tcp_Relaying s' | Some x \<Rightarrow> Finished x)"
proof (cases br)
  case Client_Branch
  then show ?thesis
    using assms by (cases "client_to_server s" rule: copy_ends.cases) (auto simp: spends_def)
next
  case Upstream_Branch
  then show ?thesis
    using assms by (auto simp: spends_def split: list.splits copy_poll.splits)
qed

lemma spends_poll:
  fixes t :: "('sn, 'io, 'cws, 'm) conn_task"
  assumes settled: "settles env m n"
    and moves: "task_moves env (task_phase t)"
  shows "spends env m n br (task_phase t) (task_phase (snd (task_poll prof draw env Tcp br (lb, t))))"
proof (cases "task_phase t")
  case (Handshaking ps)
  with moves obtain q qs where "ps = q # qs" by (cases ps) auto
  with Handshaking have ph: "task_phase t = Handshaking (q # qs)" by simp
  show ?thesis
  proof (cases q)
    case Pending
    with ph moves show ?thesis by (auto simp: spends_def)
  next
    case (Ready r)
    have "spends env m n br (task_phase t) (task_phase (continue_with r (\<lambda>(k, ts). go (Loading ts)) t))"
      by (rule spends_continue) (auto simp: ph spends_def)
    with ph Ready show ?thesis by simp
  qed
next
  case (Loading ts)
  then show ?thesis by (simp add: spends_def Let_def)
next
  case (Choosing ts bs)
  have "spends env m n br (Choosing ts bs :: ('sn, 'io, 'cws, 'm) phase)
      (task_phase (snd (pick_backend prof draw Tcp ts bs (lb, t))))"
    unfolding pick_backend_def Let_def case_prod_unfold snd_conv
    using settled
    by (intro spends_continue) (auto simp: spends_def settles_def le_SucI trans_le_add1 split: option.split)
  with Choosing show ?thesis by simp
next
  case (Connecting ts b j)
  let ?ps = "tcp_connect env (addr b)" and ?t = "act_first j (Dial (addr b)) t"
  have aw: "await (drop j ?ps) \<noteq> None" and j: "j < length ?ps"
    using moves Connecting poll_answer_length [of j ?ps] by simp_all
  show ?thesis
  proof (cases "poll_answer j ?ps")
    case Pending
    have "length ?ps - Suc j + n \<le> length ?ps - j + n - 1" using j by linarith
    with Connecting aw poll_answer_Pending [OF Pending] Pending show ?thesis
      by (simp add: spends_def await_step_def)
  next
    case (Ready r)
    have "spends env m n br (Connecting ts b j :: ('sn, 'io, 'cws, 'm) phase)
        (task_phase (continue_with r (\<lambda>up. go (Tcp_Relaying (tcp_begin env ts up))) ?t))"
    proof (rule spends_continue)
      fix up
      have "copy_ends (fst (snd (tcp_run env ts up)))" "length (fst (snd (tcp_run env ts up))) \<le> n"
        using settled by (simp_all add: settles_def)
      moreover from this(2) j have "length (fst (snd (tcp_run env ts up))) \<le> length ?ps - j + n - 1"
        "length (fst (snd (tcp_run env ts up))) \<le> length ?ps + n - j" by linarith+
      ultimately show "spends env m n br (Connecting ts b j) (task_phase (go (Tcp_Relaying (tcp_begin env ts up)) ?t))"
        by (simp add: spends_def tcp_begin_def case_prod_unfold)
    qed
    with Connecting Ready show ?thesis by (simp add: tcp_begin_def await_step_def)
  qed
next
  case (Tcp_Relaying s)
  obtain r s' where poll: "proxy_tcp [br] s = (r, s')" by (cases "proxy_tcp [br] s")
  with spends_tcp [OF _ poll, of env m n] Tcp_Relaying moves show ?thesis
    by (cases r) simp_all
qed (use moves in \<open>simp_all add: spends_def\<close>)

lemma task_fuel_enough:
  assumes settled: "settles env m n"
    and "task_moves env (task_phase t)"
    and "task_fuel env m n (task_phase t) \<le> length (filter (\<lambda>(lb, draw, br). br = Client_Branch) polls)"
  shows "\<exists>r. task_phase (fold (\<lambda>(lb, draw, br) t. snd (task_poll prof draw env Tcp br (lb, t))) polls t) = Finished r"
  using assms(2,3)
proof (induction polls arbitrary: t)
  case Nil
  then show ?case using task_fuel_0 by simp
next
  case (Cons poll polls)
  obtain lb draw br where poll: "poll = (lb, draw, br)" by (cases poll)
  let ?t = "snd (task_poll prof draw env Tcp br (lb, t))"
  have "spends env m n br (task_phase t) (task_phase ?t)" by (rule spends_poll [OF settled Cons.prems(1)])
  with Cons.prems(2) poll have "task_moves env (task_phase ?t)"
    "task_fuel env m n (task_phase ?t) \<le> length (filter (\<lambda>(lb, draw, br). br = Client_Branch) polls)"
    by (auto simp: spends_def split: if_splits)
  with Cons.IH poll show ?case by simp
qed

end
