(* ===== verification/Runtime_Facts.thy ===== *)
theory Runtime_Facts
  imports Server_Runtime Task_Facts
begin

text \<open>
  What holds in every reachable state of the process: of each service an invariant made of five
  parts (its settings, its balancer, its connections, its accept loop, its picks), each kept by
  every step; of the process the effects of the main task.
\<close>

lemma set_balancer_simps [simp]:
  "svc_proxy (set_balancer lb s) = (svc_proxy s)\<lparr>sp_load_balancer := lb\<rparr>"
  "svc_loop (set_balancer lb s) = svc_loop s" "svc_tasks (set_balancer lb s) = svc_tasks s"
  "svc_events (set_balancer lb s) = svc_events s" "svc_answers (set_balancer lb s) = svc_answers s"
  "svc_picks (set_balancer lb s) = svc_picks s" "svc_refreshing (set_balancer lb s) = svc_refreshing s"
  by (simp_all add: set_balancer_def)

lemma svc_start_simps [simp]:
  "svc_proxy (svc_start p) = p" "svc_loop (svc_start p) = Binding" "svc_tasks (svc_start p) = []"
  "svc_events (svc_start p) = []" "svc_answers (svc_start p) = []" "svc_picks (svc_start p) = []"
  "svc_refreshing (svc_start p)"
  by (simp_all add: svc_start_def)

lemma on_bind_simps [simp]:
  "svc_proxy (on_bind lo s) = svc_proxy s" "svc_tasks (on_bind lo s) = svc_tasks s"
  "svc_events (on_bind lo s) = svc_events s" "svc_answers (on_bind lo s) = svc_answers s"
  "svc_picks (on_bind lo s) = svc_picks s"
  by (simp_all add: on_bind_def)

lemma on_event_simps [simp]:
  "svc_proxy (on_event ops f accept ev s) = svc_proxy s"
  "svc_events (on_event ops f accept ev s) = svc_events s"
  "svc_answers (on_event ops f accept ev s) = svc_answers s"
  "svc_picks (on_event ops f accept ev s) = svc_picks s"
  by (cases "(ops, f, accept, ev, s)" rule: on_event.cases; auto split: outcome.split)+

lemma note_event_simps [simp]:
  "svc_proxy (note_event ev s) = svc_proxy s" "svc_tasks (note_event ev s) = svc_tasks s"
  "svc_loop (note_event ev s) = svc_loop s" "svc_events (note_event ev s) = svc_events s @ [ev]"
  "svc_answers (note_event ev s) = svc_answers s" "svc_picks (note_event ev s) = svc_picks s"
  by (simp_all add: note_event_def)

lemma on_event_tasks:
  "svc_tasks (on_event ops f accept ev s) = svc_tasks s \<or>
     (\<exists>io. svc_tasks (on_event ops f accept ev s) = svc_tasks s @ [task_spawn f accept (svc_proxy s) io])"
  by (cases "(ops, f, accept, ev, s)" rule: on_event.cases) (auto split: outcome.split)

lemma on_tick_simps [simp]:
  "svc_tasks (on_tick l s) = svc_tasks s" "svc_events (on_tick l s) = svc_events s"
  "svc_picks (on_tick l s) = svc_picks s" "svc_loop (on_tick l s) = svc_loop s"
  "sp_config (svc_proxy (on_tick l s)) = sp_config (svc_proxy s)"
  "sp_tls_server (svc_proxy (on_tick l s)) = sp_tls_server (svc_proxy s)"
  "lb_selection (svc_balancer (on_tick l s)) = lb_selection (svc_balancer s)"
  "lb_discovery (svc_balancer (on_tick l s)) = lb_discovery (svc_balancer s)"
  by (simp_all add: on_tick_def refresh_def split: outcome.split)

lemma on_tick_answers:
  "(\<exists>bs. discover l (lb_discovery (svc_balancer s)) = Ok bs \<and> svc_answers (on_tick l s) = bs # svc_answers s \<and>
      cell (svc_balancer (on_tick l s)) = bs) \<or>
   svc_answers (on_tick l s) = svc_answers s \<and>
      lb_backends (svc_balancer (on_tick l s)) = lb_backends (svc_balancer s)"
  by (cases "discover l (lb_discovery (svc_balancer s))") (simp_all add: on_tick_def refresh_def)

section \<open>Polls and the balancer\<close>

lemma dispatch_simps [simp]:
  "task_io (dispatch proto ts b t) = task_io t" "task_choice (dispatch proto ts b t) = task_choice t"
  by (cases proto; simp add: task_defs)+

lemma continue_with_io:
  "(\<And>x. task_io (k x t) = io) \<Longrightarrow> task_io t = io \<Longrightarrow> task_io (continue_with r k t) = io"
  by (cases r) (simp_all add: finish_def)

lemma continue_with_choice:
  "(\<And>x. task_choice (k x t) = ch) \<Longrightarrow> task_choice t = ch \<Longrightarrow> task_choice (continue_with r k t) = ch"
  by (cases r) (simp_all add: finish_def)

lemma act_first_simps [simp]:
  "task_io (act_first n a t) = task_io t" "task_choice (act_first n a t) = task_choice t"
  by (simp_all add: act_first_def act_def)

lemma task_poll_io [simp]: "task_io (snd (task_poll prof draw env proto br (lb, t))) = task_io t"
  by (auto simp: pick_backend_def get_backends_def case_prod_unfold Let_def task_defs await_step_def
      intro!: continue_with_io split: phase.split list.split poll.split option.split)

text \<open>Only a pick touches the balancer and the choice.\<close>

lemma task_poll_still:
  assumes "\<And>ts bs. task_phase t \<noteq> Choosing ts bs"
  shows "fst (task_poll prof draw env proto br (lb, t)) = lb"
    and "task_choice (snd (task_poll prof draw env proto br (lb, t))) = task_choice t"
  using assms
  by (auto simp: case_prod_unfold Let_def task_defs await_step_def
      intro!: continue_with_choice split: phase.split list.split poll.split option.split)

lemma task_poll_choosing:
  assumes "task_phase t = Choosing ts bs" "implemented (lb_selection lb)" "rng_ok draw"
    and "fits_usize bs" "unit_weights bs" "bs \<noteq> []"
  shows "\<exists>b\<in>set bs. fst (selector_select prof draw (lb_selection lb) bs) = Ok (Some b) \<and>
    fst (task_poll prof draw env proto br (lb, t))
      = lb\<lparr>lb_selection := snd (selector_select prof draw (lb_selection lb) bs)\<rparr> \<and>
    task_choice (snd (task_poll prof draw env proto br (lb, t))) = Some (bs, b)"
  using pick_backend_picks [OF assms(2-6), of prof proto ts t] assms(1) by auto

declare task_poll.simps [simp del]

section \<open>The invariant of a service\<close>

text \<open>Its settings are those of the proxy it was spawned with.\<close>

definition svc_settled ::
  "('sn, 'scfg, 'r) stream_proxy \<Rightarrow> ('sn, 'scfg, 'r, 'io, 'cws, 'm) service \<Rightarrow> bool" where
  "svc_settled p s \<longleftrightarrow> sp_config (svc_proxy s) = sp_config p \<and>
     sp_tls_server (svc_proxy s) = sp_tls_server p \<and>
     lb_discovery (svc_balancer s) = lb_discovery (sp_load_balancer p)"

text \<open>The balancer is well-formed and holds the latest answer of its discovery.\<close>

definition svc_balanced :: "('sn, 'scfg, 'r, 'io, 'cws, 'm) service \<Rightarrow> bool" where
  "svc_balanced s \<longleftrightarrow> lb_ok (svc_balancer s) \<and> answers_ok (set (svc_answers s)) \<and>
     cell (svc_balancer s) = (case svc_answers s of [] \<Rightarrow> [] | bs # _ \<Rightarrow> bs) \<and>
     (\<forall>bs\<in>set (svc_answers s). \<exists>l. discover l (lb_discovery (svc_balancer s)) = Ok bs)"

definition svc_serves ::
  "(string \<Rightarrow> 'sn outcome) \<Rightarrow> ('scfg \<Rightarrow> 'io \<Rightarrow> 'io tls_stream outcome poll list)
    \<Rightarrow> (nat \<Rightarrow> ('io, 'up, 'cws, 'uws, 'm) proxy_env) \<Rightarrow> ('sn, 'scfg, 'r) stream_proxy
    \<Rightarrow> ('sn, 'scfg, 'r, 'io, 'cws, 'm) service \<Rightarrow> bool" where
  "svc_serves f accept envs p s \<longleftrightarrow>
     (\<forall>i<length (svc_tasks s). task_ok f accept p (envs i) (set (svc_answers s)) (svc_tasks s ! i))"

text \<open>
  The accept loop has done what \<open>run_service\<close> does on what came in, and has ended if that
  includes the notice, with nothing after it.
\<close>

fun loop_result :: "loop_phase \<Rightarrow> unit outcome option" where
  "loop_result (Ended r) = Some r"
| "loop_result ph = None"

definition svc_looped ::
  "'l listener_ops \<Rightarrow> 'io socket_ops \<Rightarrow> ('sn, 'scfg, 'r) stream_proxy
    \<Rightarrow> ('sn, 'scfg, 'r, 'io, 'cws, 'm) service \<Rightarrow> bool" where
  "svc_looped lo ops p s \<longleftrightarrow>
     (if svc_loop s = Binding then svc_events s = [] \<and> svc_tasks s = []
      else \<exists>log. run_service lo ops (proxy_port p) (svc_events s) = (loop_result (svc_loop s), log) \<and>
             spawned log = map task_io (svc_tasks s)) \<and>
     (Shutdown_Notice \<in> set (svc_events s) \<longrightarrow>
        svc_loop s = Ended (Ok ()) \<and> Shutdown_Notice \<notin> set (butlast (svc_events s)))"

text \<open>The picks are the choices of the connections; those of round robin go round.\<close>

definition svc_picked ::
  "('sn, 'scfg, 'r) stream_proxy \<Rightarrow> ('sn, 'scfg, 'r, 'io, 'cws, 'm) service \<Rightarrow> bool" where
  "svc_picked p s \<longleftrightarrow>
     mset (svc_picks s) = mset (List.map_filter task_choice (svc_tasks s)) \<and>
     (\<forall>rr. lb_selection (sp_load_balancer p) = Sel_Round_Robin rr \<longrightarrow>
        lb_selection (svc_balancer s)
          = Sel_Round_Robin \<lparr>rr_index = rr_index rr + of_nat (length (svc_picks s))\<rparr> \<and>
        (\<forall>j<length (svc_picks s). case svc_picks s ! j of (bs, b) \<Rightarrow>
           b = bs ! (unat (rr_index rr + of_nat j) mod length bs)))"

definition svc_inv ::
  "'l listener_ops \<Rightarrow> 'io socket_ops \<Rightarrow> (string \<Rightarrow> 'sn outcome)
    \<Rightarrow> ('scfg \<Rightarrow> 'io \<Rightarrow> 'io tls_stream outcome poll list)
    \<Rightarrow> (nat \<Rightarrow> ('io, 'up, 'cws, 'uws, 'm) proxy_env) \<Rightarrow> ('sn, 'scfg, 'r) stream_proxy
    \<Rightarrow> ('sn, 'scfg, 'r, 'io, 'cws, 'm) service \<Rightarrow> bool" where
  "svc_inv lo ops f accept envs p s \<longleftrightarrow> svc_settled p s \<and> svc_balanced s \<and>
     svc_serves f accept envs p s \<and> svc_looped lo ops p s \<and> svc_picked p s"

lemma svc_balanced_cong:
  "svc_balanced s \<Longrightarrow> lb_backends (svc_balancer s') = lb_backends (svc_balancer s) \<Longrightarrow>
     implemented (lb_selection (svc_balancer s')) \<Longrightarrow> svc_answers s' = svc_answers s \<Longrightarrow> svc_balanced s'"
  unfolding svc_balanced_def lb_ok_def by metis

lemma svc_balanced_implemented: "svc_balanced s \<Longrightarrow> implemented (lb_selection (svc_balancer s))"
  by (simp add: svc_balanced_def lb_ok_def)

lemma svc_inv_start:
  assumes "lb_ok (sp_load_balancer p)" "cell (sp_load_balancer p) = []"
  shows "svc_inv lo ops f accept envs p (svc_start p)"
  using assms
  by (simp add: svc_inv_def svc_settled_def svc_balanced_def svc_serves_def svc_looped_def
      svc_picked_def answers_ok_def List.map_filter_def)

section \<open>The accept loop\<close>

lemma service_loop_append:
  "service_loop ops (es @ [ev]) st =
     (case service_loop ops es st of (None, st') \<Rightarrow> service_loop ops [ev] st' | done \<Rightarrow> done)"
  by (induction ops es st rule: service_loop.induct) (auto split: outcome.split)

lemma run_service_append:
  "run_service lo ops port es = (None, log) \<Longrightarrow>
     run_service lo ops port (es @ [ev]) = service_loop ops [ev] log"
  by (auto simp: run_service_def service_loop_append split: outcome.splits)

lemma svc_looped_bind: "svc_looped lo ops p s \<Longrightarrow> svc_loop s = Binding \<Longrightarrow> svc_settled p s \<Longrightarrow>
    svc_looped lo ops p (on_bind lo s)"
  by (auto simp: svc_looped_def svc_settled_def on_bind_def run_service_def proxy_port_def
      service_start_def split: outcome.split)

lemma svc_looped_event:
  assumes "svc_looped lo ops p s" "svc_loop s = Accepting"
  shows "svc_looped lo ops p (note_event ev (on_event ops f accept ev s))"
proof -
  from assms obtain log where run: "run_service lo ops (proxy_port p) (svc_events s) = (None, log)"
    and sp: "spawned log = map task_io (svc_tasks s)"
    by (auto simp: svc_looped_def)
  have "\<exists>log'. service_loop ops [ev] log
        = (loop_result (svc_loop (on_event ops f accept ev s)), log') \<and>
      spawned log' = map task_io (svc_tasks (on_event ops f accept ev s)) \<and>
      svc_loop (on_event ops f accept ev s) \<noteq> Binding"
    using sp assms(2)
    by (cases "(ops, f, accept, ev, s)" rule: on_event.cases)
      (auto simp: task_spawn_def split: outcome.split)
  moreover have "svc_loop (on_event ops f accept ev s) = Ended (Ok ())" if "ev = Shutdown_Notice"
    using that by simp
  moreover have "Shutdown_Notice \<notin> set (svc_events s)" using assms by (auto simp: svc_looped_def)
  ultimately show ?thesis
    using run by (auto simp: svc_looped_def run_service_append)
qed

lemma map_filter_snoc [simp]:
  "List.map_filter g (xs @ [x]) = List.map_filter g xs @ (case g x of None \<Rightarrow> [] | Some y \<Rightarrow> [y])"
  by (simp add: List.map_filter_def split: option.split)

lemma task_spawn_settled:
  "svc_settled p s \<Longrightarrow> task_spawn f accept (svc_proxy s) io = task_spawn f accept p io"
  by (simp add: svc_settled_def task_spawn_def)

lemma task_spawn_simps [simp]:
  "task_io (task_spawn f accept p io) = io" "task_choice (task_spawn f accept p io) = None"
  by (simp_all add: task_spawn_def)

lemma on_event_loop_tasks:
  assumes "svc_settled p s"
  obtains "svc_tasks (on_event ops f accept ev s) = svc_tasks s"
  | io where "svc_tasks (on_event ops f accept ev s) = svc_tasks s @ [task_spawn f accept p io]"
  using on_event_tasks [of ops f accept ev s] by (auto simp: task_spawn_settled [OF assms])

lemma svc_inv_event:
  assumes inv: "svc_inv lo ops f accept envs p s" and "svc_loop s = Accepting"
  shows "svc_inv lo ops f accept envs p (note_event ev (on_event ops f accept ev s))"
proof -
  from inv have parts: "svc_settled p s" "svc_balanced s" "svc_serves f accept envs p s"
    "svc_looped lo ops p s" "svc_picked p s"
    by (simp_all add: svc_inv_def)
  have "svc_serves f accept envs p (note_event ev (on_event ops f accept ev s)) \<and>
      svc_picked p (note_event ev (on_event ops f accept ev s))"
    using parts(3,5)
    by (cases rule: on_event_loop_tasks [OF parts(1), of ops f accept ev])
      (auto simp: svc_serves_def svc_picked_def nth_append task_ok_spawn less_Suc_eq)
  moreover have "svc_settled p (note_event ev (on_event ops f accept ev s))"
    "svc_balanced (note_event ev (on_event ops f accept ev s))"
    using parts(1,2) by (simp_all add: svc_settled_def svc_balanced_def)
  ultimately show ?thesis
    using svc_looped_event [OF parts(4) assms(2)] by (simp add: svc_inv_def)
qed

lemma svc_inv_bind:
  assumes "svc_inv lo ops f accept envs p s" "svc_loop s = Binding"
  shows "svc_inv lo ops f accept envs p (on_bind lo s)"
  using assms svc_looped_bind [of lo ops p s]
  by (auto simp: svc_inv_def svc_settled_def svc_balanced_def svc_serves_def svc_picked_def)

section \<open>Connections and ticks\<close>

lemma map_filter_append [simp]:
  "List.map_filter g (xs @ ys) = List.map_filter g xs @ List.map_filter g ys"
  by (simp add: List.map_filter_def)

lemma map_filter_update:
  assumes "i < length xs"
  shows "mset (List.map_filter g (xs[i := y])) + (case g (xs ! i) of None \<Rightarrow> {#} | Some z \<Rightarrow> {#z#})
    = mset (List.map_filter g xs) + (case g y of None \<Rightarrow> {#} | Some z \<Rightarrow> {#z#})"
proof -
  have one: "mset (List.map_filter g (z # zs)) = (case g z of None \<Rightarrow> {#} | Some z' \<Rightarrow> {#z'#})
      + mset (List.map_filter g zs)" for z zs
    by (simp add: List.map_filter_def split: option.split)
  have "mset (List.map_filter g xs) = mset (List.map_filter g (take i xs @ xs ! i # drop (Suc i) xs))"
    using assms by (simp add: id_take_nth_drop [symmetric])
  then show ?thesis
    using assms by (auto simp: upd_conv_take_nth_drop one split: option.split)
qed

text \<open>What a poll of a connection does to a service that satisfies its invariant.\<close>

lemma on_poll_eq:
  "on_poll prof draw env br i s =
     (let r = task_poll prof draw env (proxy_protocol (svc_proxy s)) br (svc_balancer s, svc_tasks s ! i)
      in (set_balancer (fst r) s)\<lparr>svc_tasks := (svc_tasks s)[i := snd r],
           svc_picks := svc_picks s @ new_pick (svc_tasks s ! i) (snd r)\<rparr>)"
  by (simp add: on_poll_def case_prod_unfold Let_def)

lemma svc_settled_protocol: "svc_settled p s \<Longrightarrow> proxy_protocol (svc_proxy s) = proxy_protocol p"
  by (simp add: svc_settled_def proxy_protocol_def)

lemma svc_poll_cases:
  assumes inv: "svc_inv lo ops f accept envs p s" and i: "i < length (svc_tasks s)" and draw: "rng_ok draw"
  obtains (still)
      "svc_balancer (on_poll prof draw (envs i) br i s) = svc_balancer s"
      "svc_picks (on_poll prof draw (envs i) br i s) = svc_picks s"
      "mset (List.map_filter task_choice (svc_tasks (on_poll prof draw (envs i) br i s)))
         = mset (List.map_filter task_choice (svc_tasks s))"
  | (pick) bs b where
      "bs \<in> set (svc_answers s)" "bs \<noteq> []"
      "fst (selector_select prof draw (lb_selection (svc_balancer s)) bs) = Ok (Some b)"
      "svc_balancer (on_poll prof draw (envs i) br i s) = (svc_balancer s)\<lparr>lb_selection :=
         snd (selector_select prof draw (lb_selection (svc_balancer s)) bs)\<rparr>"
      "svc_picks (on_poll prof draw (envs i) br i s) = svc_picks s @ [(bs, b)]"
      "mset (List.map_filter task_choice (svc_tasks (on_poll prof draw (envs i) br i s)))
         = mset (List.map_filter task_choice (svc_tasks s)) + {#(bs, b)#}"
proof -
  let ?t = "svc_tasks s ! i"
  let ?r = "task_poll prof draw (envs i) (proxy_protocol (svc_proxy s)) br (svc_balancer s, ?t)"
  have ok: "task_ok f accept p (envs i) (set (svc_answers s)) ?t"
    using inv i by (simp add: svc_inv_def svc_serves_def)
  show thesis
  proof (cases "\<exists>ts bs. task_phase ?t = Choosing ts bs")
    case False
    then have "fst ?r = svc_balancer s" "task_choice (snd ?r) = task_choice ?t"
      by (simp_all add: task_poll_still)
    with still show ?thesis
      using map_filter_update [OF i, of task_choice "snd ?r"]
      by (auto simp: on_poll_eq Let_def new_pick_def split: option.splits)
  next
    case True
    then obtain ts bs where ph: "task_phase ?t = Choosing ts bs" by blast
    with ok have bs: "bs \<in> set (svc_answers s)" "bs \<noteq> []" and none: "task_choice ?t = None"
      by (simp_all add: task_ok_def)
    have lb: "implemented (lb_selection (svc_balancer s))" "fits_usize bs" "unit_weights bs"
      using inv bs(1) by (auto simp: svc_inv_def svc_balanced_def lb_ok_def answers_ok_def)
    from task_poll_choosing [OF ph lb(1) draw lb(2,3) bs(2)] obtain b where
      "fst (selector_select prof draw (lb_selection (svc_balancer s)) bs) = Ok (Some b)"
      "fst ?r = (svc_balancer s)\<lparr>lb_selection := snd (selector_select prof draw (lb_selection (svc_balancer s)) bs)\<rparr>"
      "task_choice (snd ?r) = Some (bs, b)"
      by metis
    with pick [OF bs, of b] none show ?thesis
      using map_filter_update [OF i, of task_choice "snd ?r"]
      by (auto simp: on_poll_eq Let_def new_pick_def)
  qed
qed

lemma on_poll_simps [simp]:
  "svc_loop (on_poll prof draw env br i s) = svc_loop s"
  "svc_events (on_poll prof draw env br i s) = svc_events s"
  "svc_answers (on_poll prof draw env br i s) = svc_answers s"
  "sp_config (svc_proxy (on_poll prof draw env br i s)) = sp_config (svc_proxy s)"
  "sp_tls_server (svc_proxy (on_poll prof draw env br i s)) = sp_tls_server (svc_proxy s)"
  by (simp_all add: on_poll_eq Let_def)

lemma on_poll_ios [simp]:
  "map task_io (svc_tasks (on_poll prof draw env br i s)) = map task_io (svc_tasks s)"
  "length (svc_tasks (on_poll prof draw env br i s)) = length (svc_tasks s)"
proof -
  show l: "length (svc_tasks (on_poll prof draw env br i s)) = length (svc_tasks s)"
    by (simp add: on_poll_eq Let_def)
  show "map task_io (svc_tasks (on_poll prof draw env br i s)) = map task_io (svc_tasks s)"
    by (rule nth_equalityI; cases "i < length (svc_tasks s)")
      (auto simp: l on_poll_eq Let_def nth_list_update list_update_beyond)
qed

lemma svc_picked_pick:
  assumes "svc_picked p s"
    and "fst (selector_select prof draw (lb_selection (svc_balancer s)) bs) = Ok (Some b)" "bs \<noteq> []"
    and "lb_selection (svc_balancer s') = snd (selector_select prof draw (lb_selection (svc_balancer s)) bs)"
    and "svc_picks s' = svc_picks s @ [(bs, b)]"
    and "mset (List.map_filter task_choice (svc_tasks s'))
      = mset (List.map_filter task_choice (svc_tasks s)) + {#(bs, b)#}"
  shows "svc_picked p s'"
proof -
  have "lb_selection (svc_balancer s')
        = Sel_Round_Robin \<lparr>rr_index = rr_index rr + of_nat (length (svc_picks s'))\<rparr> \<and>
      (\<forall>j<length (svc_picks s'). case svc_picks s' ! j of (bs, b) \<Rightarrow>
         b = bs ! (unat (rr_index rr + of_nat j) mod length bs))"
    if rr: "lb_selection (sp_load_balancer p) = Sel_Round_Robin rr" for rr
  proof -
    let ?j = "length (svc_picks s)"
    have sel: "lb_selection (svc_balancer s) = Sel_Round_Robin \<lparr>rr_index = rr_index rr + of_nat ?j\<rparr>"
      and old: "\<And>j. j < ?j \<Longrightarrow> case svc_picks s ! j of (bs, b) \<Rightarrow>
         b = bs ! (unat (rr_index rr + of_nat j) mod length bs)"
      using assms(1) rr by (simp_all add: svc_picked_def)
    have b: "b = bs ! (unat (rr_index rr + of_nat ?j) mod length bs)"
      using assms(2,3) by (simp add: sel rr_select_nonempty)
    have "lb_selection (svc_balancer s')
        = Sel_Round_Robin \<lparr>rr_index = rr_index rr + of_nat (length (svc_picks s'))\<rparr>"
      using assms(3-5) by (simp add: sel rr_select_nonempty)
    with old b assms(5) show ?thesis by (simp add: nth_append less_Suc_eq)
  qed
  with assms show ?thesis by (simp add: svc_picked_def)
qed

lemma svc_inv_poll:
  assumes inv: "svc_inv lo ops f accept envs p s" and i: "i < length (svc_tasks s)" and draw: "rng_ok draw"
  shows "svc_inv lo ops f accept envs p (on_poll prof draw (envs i) br i s)"
proof -
  let ?s = "on_poll prof draw (envs i) br i s"
  from inv have parts: "svc_settled p s" "svc_balanced s" "svc_serves f accept envs p s"
    "svc_looped lo ops p s" "svc_picked p s"
    by (simp_all add: svc_inv_def)
  have lb: "lb_ok (svc_balancer s)" and ans: "answers_ok (set (svc_answers s))"
    and c: "cell (svc_balancer s) = [] \<or> cell (svc_balancer s) \<in> set (svc_answers s)"
    using parts(2) by (auto simp: svc_balanced_def split: list.splits)
  have imp: "implemented (lb_selection (svc_balancer s))" using lb by (simp add: lb_ok_def)
  have "task_ok f accept p (envs i) (set (svc_answers s))
      (snd (task_poll prof draw (envs i) (proxy_protocol (svc_proxy s)) br (svc_balancer s, svc_tasks s ! i)))"
    unfolding svc_settled_protocol [OF parts(1)]
    using parts(3) i by (intro task_ok_poll ans imp draw c) (simp add: svc_serves_def)
  then have serves: "svc_serves f accept envs p ?s"
    using parts(3) i by (auto simp: svc_serves_def on_poll_eq Let_def nth_list_update)
  have looped: "svc_looped lo ops p ?s"
    using parts(4) i by (cases "svc_loop s = Binding") (simp_all add: svc_looped_def)
  have "svc_balanced ?s \<and> svc_picked p ?s \<and> lb_backends (svc_balancer ?s) = lb_backends (svc_balancer s)"
  proof (cases rule: svc_poll_cases [OF inv i draw, where prof = prof and br = br, case_names still pick])
    case still
    then have "svc_balanced ?s" using imp by (intro svc_balanced_cong [OF parts(2)]) simp_all
    with still parts(5) show ?thesis by (simp add: svc_picked_def)
  next
    case (pick bs b)
    have "implemented (lb_selection (svc_balancer ?s))"
      using selector.select_ok [OF imp, of prof draw bs] pick(4) by simp
    then have "svc_balanced ?s"
      using pick(4) by (intro svc_balanced_cong [OF parts(2)]) simp_all
    moreover have "svc_picked p ?s"
      by (rule svc_picked_pick [OF parts(5) pick(3,2)]) (simp_all add: pick(4-6))
    ultimately show ?thesis using pick(4) by simp
  qed
  moreover from this have "svc_settled p ?s"
    using parts(1) by (simp add: svc_settled_def)
  ultimately show ?thesis using serves looped by (simp add: svc_inv_def)
qed

lemma svc_inv_tick:
  assumes inv: "svc_inv lo ops f accept envs p s" and fits: "fits_usize (cell (svc_balancer (on_tick l s)))"
  shows "svc_inv lo ops f accept envs p (on_tick l s)"
proof -
  from inv have parts: "svc_settled p s" "svc_balanced s" "svc_serves f accept envs p s"
    "svc_looped lo ops p s" "svc_picked p s"
    by (simp_all add: svc_inv_def)
  have d: "discovery_ok (lb_discovery (svc_balancer s))"
    using parts(2) by (simp add: svc_balanced_def lb_ok_def)
  have "svc_balanced (on_tick l s) \<and> svc_serves f accept envs p (on_tick l s)"
    using on_tick_answers [of l s]
  proof (elim disjE exE conjE)
    fix bs
    assume bs: "discover l (lb_discovery (svc_balancer s)) = Ok bs"
      "svc_answers (on_tick l s) = bs # svc_answers s" "cell (svc_balancer (on_tick l s)) = bs"
    have "bt_ok bs" "unit_weights bs"
      using dyn_disc.discover_ascending [OF d bs(1)] dyn_disc.discover_unit_weights [OF d bs(1)] by auto
    then show ?thesis
      using parts(2,3) bs fits
      by (auto simp: svc_balanced_def svc_serves_def answers_ok_def lb_ok_def elim!: task_ok_mono)
  next
    assume "svc_answers (on_tick l s) = svc_answers s"
      "lb_backends (svc_balancer (on_tick l s)) = lb_backends (svc_balancer s)"
    moreover from this have "svc_balanced (on_tick l s)"
      using parts(2) by (intro svc_balanced_cong [OF parts(2)]) (simp_all add: svc_balanced_implemented)
    ultimately show ?thesis using parts(3) by (simp add: svc_serves_def)
  qed
  moreover have "svc_settled p (on_tick l s)" "svc_looped lo ops p (on_tick l s)"
    "svc_picked p (on_tick l s)"
    using parts by (simp_all add: svc_settled_def svc_looped_def svc_picked_def)
  ultimately show ?thesis by (simp add: svc_inv_def)
qed

lemma svc_inv_step:
  "svc_step prof lo ops f accept envs notified s s' \<Longrightarrow> svc_inv lo ops f accept envs p s \<Longrightarrow>
     svc_inv lo ops f accept envs p s'"
  by (induction rule: svc_step.induct)
    (blast intro: svc_inv_bind svc_inv_event svc_inv_poll svc_inv_tick)+

section \<open>How a service ends\<close>

lemma svc_step_ended:
  "svc_step prof lo ops f accept envs notified s s' \<Longrightarrow> svc_loop s = Ended r \<Longrightarrow>
     svc_loop s' = Ended r \<and> svc_events s' = svc_events s \<and>
     map task_io (svc_tasks s') = map task_io (svc_tasks s)"
  by (induction rule: svc_step.induct) auto

lemma svc_step_ends_ok:
  "svc_step prof lo ops f accept envs notified s s' \<Longrightarrow> svc_loop s' = Ended (Ok ()) \<Longrightarrow>
     svc_loop s = Ended (Ok ()) \<or> notified"
proof (induction rule: svc_step.induct)
  case (bind s)
  then show ?case by (simp add: on_bind_def split: outcome.splits)
next
  case (incoming s item)
  then show ?case by (cases item) (simp_all split: outcome.splits)
qed auto

section \<open>The invariant of the process\<close>

lemma spawn_proxy_simps [simp]:
  "pr_main (spawn_proxy p ps pr) = Spawning ps" "pr_signals (spawn_proxy p ps pr) = pr_signals pr"
  "pr_services (spawn_proxy p ps pr) = pr_services pr @ [svc_start p]"
  "pr_effects (spawn_proxy p ps pr) = pr_effects pr @
     [Spawn_Refresh (proxy_port p) (from_secs 30), Spawn_Service (proxy_port p)]"
  by (simp_all add: spawn_proxy_def)

lemma main_sleeps_simps [simp]:
  "pr_main (main_sleeps d ph pr) = ph" "pr_signals (main_sleeps d ph pr) = pr_signals pr"
  "pr_services (main_sleeps d ph pr) = pr_services pr"
  "pr_effects (main_sleeps d ph pr) = pr_effects pr @ [Sleep d]"
  by (simp_all add: main_sleeps_def)

lemma pr_notified_mono:
  "pr_notified register pr \<Longrightarrow> pr_notified register (pr\<lparr>pr_signals := pr_signals pr @ [sg]\<rparr>)"
  by (auto simp: pr_notified_def signal_task_def changed_returns_def split: if_splits)

lemma pr_notified_cong: "pr_signals pr' = pr_signals pr \<Longrightarrow> pr_notified register pr' = pr_notified register pr"
  by (simp add: pr_notified_def)

definition spawn_effects :: "('sn, 'scfg, 'r) stream_proxy list \<Rightarrow> effect list" where
  "spawn_effects ps = concat (map (\<lambda>p. [Spawn_Refresh (proxy_port p) (from_secs 30),
     Spawn_Service (proxy_port p)]) ps)"

lemma spawn_effects_simps [simp]:
  "spawn_effects [] = []"
  "spawn_effects (ps @ [p]) = spawn_effects ps @
     [Spawn_Refresh (proxy_port p) (from_secs 30), Spawn_Service (proxy_port p)]"
  by (simp_all add: spawn_effects_def)

text \<open>Where the main task is, and what it has done.\<close>

fun still_to_spawn :: "('sn, 'scfg, 'r) main_phase \<Rightarrow> ('sn, 'scfg, 'r) stream_proxy list" where
  "still_to_spawn (Spawning ps) = ps"
| "still_to_spawn ph = []"

fun past_notice :: "('sn, 'scfg, 'r) main_phase \<Rightarrow> bool" where
  "past_notice (Spawning ps) = False"
| "past_notice Waiting = False"
| "past_notice ph = True"

fun slept :: "umay_config \<Rightarrow> ('sn, 'scfg, 'r) main_phase \<Rightarrow> effect list" where
  "slept c Exit_Timeout = [Sleep (shutdown_grace_period c)]"
| "slept c Gone = shutdown c"
| "slept c ph = []"

definition main_inv ::
  "(signal \<Rightarrow> unit outcome) \<Rightarrow> ('sn, 'scfg, 'r) umay_server
    \<Rightarrow> ('sn, 'scfg, 'r, 'io, 'cws, 'm) process \<Rightarrow> bool" where
  "main_inv register srv pr \<longleftrightarrow>
     still_to_spawn (pr_main pr) = drop (length (pr_services pr)) (stream_proxies srv) \<and>
     length (pr_services pr) \<le> length (stream_proxies srv) \<and>
     pr_effects pr = spawn_effects (take (length (pr_services pr)) (stream_proxies srv))
       @ slept (server_config_ref srv) (pr_main pr) \<and>
     (past_notice (pr_main pr) \<longrightarrow> pr_notified register pr)"

definition services_inv ::
  "'l listener_ops \<Rightarrow> 'io socket_ops \<Rightarrow> (string \<Rightarrow> 'sn outcome)
    \<Rightarrow> ('scfg \<Rightarrow> 'io \<Rightarrow> 'io tls_stream outcome poll list)
    \<Rightarrow> (nat \<Rightarrow> nat \<Rightarrow> ('io, 'up, 'cws, 'uws, 'm) proxy_env) \<Rightarrow> (signal \<Rightarrow> unit outcome)
    \<Rightarrow> ('sn, 'scfg, 'r) umay_server \<Rightarrow> ('sn, 'scfg, 'r, 'io, 'cws, 'm) process \<Rightarrow> bool" where
  "services_inv lo ops f accept envs register srv pr \<longleftrightarrow>
     (\<forall>i<length (pr_services pr).
        svc_inv lo ops f accept (envs i) (stream_proxies srv ! i) (pr_services pr ! i) \<and>
        (svc_loop (pr_services pr ! i) = Ended (Ok ()) \<longrightarrow> pr_notified register pr))"

lemma main_inv_spawn:
  assumes "main_inv register srv pr" "pr_main pr = Spawning (p # ps)"
  shows "length (pr_services pr) < length (stream_proxies srv)"
    and "p = stream_proxies srv ! length (pr_services pr)"
    and "main_inv register srv (spawn_proxy p ps pr)"
proof -
  let ?n = "length (pr_services pr)"
  have d: "drop ?n (stream_proxies srv) = p # ps"
    and e: "pr_effects pr = spawn_effects (take ?n (stream_proxies srv))"
    using assms by (simp_all add: main_inv_def)
  from d show n: "?n < length (stream_proxies srv)" by (metis drop_eq_Nil2 list.distinct(1) not_le)
  from d n show p: "p = stream_proxies srv ! ?n" by (metis hd_drop_conv_nth list.sel(1))
  have "ps = drop (Suc ?n) (stream_proxies srv)" using d by (metis drop_Suc list.sel(3) tl_drop)
  with n p e show "main_inv register srv (spawn_proxy p ps pr)"
    by (simp add: main_inv_def take_Suc_conv_app_nth)
qed

lemma process_step_main:
  "process_step prof lo ops f accept envs register (server_config_ref srv) pr pr' \<Longrightarrow>
     main_inv register srv pr \<Longrightarrow> main_inv register srv pr'"
proof (induction rule: process_step.induct)
  case (spawn pr p ps)
  then show ?case by (blast intro: main_inv_spawn(3))
next
  case (receive pr sg)
  then show ?case using pr_notified_mono by (auto simp: main_inv_def)
next
  case (service pr i s')
  then show ?case by (simp add: main_inv_def pr_notified_def)
qed (auto simp: main_inv_def shutdown_def pr_notified_def)

lemma process_step_services:
  assumes "process_step prof lo ops f accept envs register (server_config_ref srv) pr pr'"
    and "main_inv register srv pr" "services_inv lo ops f accept envs register srv pr"
    and ps: "\<And>p. p \<in> set (stream_proxies srv) \<Longrightarrow>
      lb_ok (sp_load_balancer p) \<and> cell (sp_load_balancer p) = []"
  shows "services_inv lo ops f accept envs register srv pr'"
  using assms(1-3)
proof (induction rule: process_step.induct)
  case (spawn pr p ps')
  note p = main_inv_spawn(1,2) [OF spawn.prems(1) spawn.hyps]
  have "svc_inv lo ops f accept (envs (length (pr_services pr))) p (svc_start p)"
    using ps p by (intro svc_inv_start) auto
  with spawn.prems(2) p show ?case
    by (auto simp: services_inv_def nth_append less_Suc_eq pr_notified_def)
next
  case (receive pr sg)
  then show ?case using pr_notified_mono by (auto simp: services_inv_def)
next
  case (service pr i s')
  have "svc_inv lo ops f accept (envs i) (stream_proxies srv ! i) s'"
    using service.prems(2) service.hyps(2) by (intro svc_inv_step [OF service.hyps(3)]) (simp add: services_inv_def)
  moreover have "svc_loop s' = Ended (Ok ()) \<Longrightarrow> pr_notified register pr"
    using svc_step_ends_ok [OF service.hyps(3)] service.prems(2) service.hyps(2)
    by (auto simp: services_inv_def)
  ultimately show ?case
    using service.prems(2) service.hyps(2)
    by (auto simp: services_inv_def nth_list_update pr_notified_def)
qed (simp_all add: services_inv_def pr_notified_def)

lemma process_reach_inv:
  assumes "process_reach prof lo ops f accept envs register srv pr"
    and "\<And>p. p \<in> set (stream_proxies srv) \<Longrightarrow>
      lb_ok (sp_load_balancer p) \<and> cell (sp_load_balancer p) = []"
  shows "main_inv register srv pr" "services_inv lo ops f accept envs register srv pr"
proof -
  have "main_inv register srv pr \<and> services_inv lo ops f accept envs register srv pr"
    using assms(1)
  proof (induction rule: process_reach.induct)
    case start
    then show ?case by (simp add: main_inv_def services_inv_def pr_start_def)
  next
    case (step pr pr')
    then show ?case using process_step_main process_step_services [OF step.hyps(2)] assms(2) by blast
  qed
  then show "main_inv register srv pr" "services_inv lo ops f accept envs register srv pr" by simp_all
qed

text \<open>The process of a server that was built from a configuration.\<close>

lemma started_service:
  assumes "server_try_from api lib fs c = Ok srv"
    and "process_reach prof lo ops f accept envs register srv pr" "i < length (pr_services pr)"
  shows "i < length (stream_proxies srv)"
    and "svc_inv lo ops f accept (envs i) (stream_proxies srv ! i) (pr_services pr ! i)"
    and "svc_loop (pr_services pr ! i) = Ended (Ok ()) \<Longrightarrow> pr_notified register pr"
    and "proxy_protocol (stream_proxies srv ! i) \<in> {Tcp, Ws}"
    and "main_inv register srv pr"
proof -
  have ps: "p \<in> set (stream_proxies srv) \<Longrightarrow> lb_ok (sp_load_balancer p) \<and> cell (sp_load_balancer p) = []" for p
    using server_try_from_proxies(2) [OF assms(1)] by (simp add: proxy_ok_def)
  note inv = process_reach_inv [OF assms(2) ps]
  show "main_inv register srv pr" by (rule inv(1))
  then show i: "i < length (stream_proxies srv)" using assms(3) by (simp add: main_inv_def)
  show "svc_inv lo ops f accept (envs i) (stream_proxies srv ! i) (pr_services pr ! i)"
    "svc_loop (pr_services pr ! i) = Ended (Ok ()) \<Longrightarrow> pr_notified register pr"
    using inv(2) assms(3) by (simp_all add: services_inv_def)
  show "proxy_protocol (stream_proxies srv ! i) \<in> {Tcp, Ws}"
    using server_try_from_proxies(2) [OF assms(1)] i by simp
qed

text \<open>What a connection of such a process has done is about the backend it chose.\<close>

lemma task_ok_actions:
  assumes "task_ok f accept p env A t" "a \<in> set (task_actions t)"
  obtains k ts bs b where "terminate f accept (sp_tls_server p) (task_io t) = Some (Ok (k, ts))"
    "task_choice t = Some (bs, b)" "bs \<in> A" "b \<in> set bs"
    "a \<in> {Dial (addr b), Ws_Accept, Ws_Dial (ws_url (addr b))}"
proof (cases "task_phase t")
  case (Finished r)
  with assms obtain k ts bs b sched where "terminate f accept (sp_tls_server p) (task_io t) = Some (Ok (k, ts))"
    "task_choice t = Some (bs, b)" "bs \<in> A" "b \<in> set bs"
    "serve_backend (with_schedule sched env) (proxy_protocol p) ts b = (task_actions t, Some r)"
    by (auto simp: task_ok_def task_done_def split: option.splits outcome.splits)
  with that assms(2) show thesis
    using serve_backend_actions [of "with_schedule sched env" "proxy_protocol p" ts b] by fastforce
qed (use assms that in \<open>auto simp: task_ok_def chosen_def shook_def split: if_splits\<close>)

lemma task_ok_choice:
  assumes "task_ok f accept p env A t" "task_choice t = Some (bs, b)"
  shows "bs \<in> A \<and> b \<in> set bs"
proof (cases "task_phase t")
  case (Finished r)
  with assms show ?thesis by (auto simp: task_ok_def task_done_def split: option.splits outcome.splits)
qed (use assms in \<open>auto simp: task_ok_def chosen_def\<close>)

lemma task_ok_relays:
  assumes "task_ok f accept p env A t"
  shows "case task_phase t of
      Tcp_Relaying s \<Rightarrow> \<exists>k ts (b :: backend) up.
        terminate f accept (sp_tls_server p) (task_io t) = Some (Ok (k, ts)) \<and>
        task_actions t = [Dial (addr b)] \<and>
        await (tcp_connect env (addr b)) = Some (Ok up) \<and>
        (\<forall>src_c src_s. faithful_copy src_c (fst (snd (tcp_run env ts up))) \<longrightarrow>
           faithful_copy src_s (snd (snd (tcp_run env ts up))) \<longrightarrow>
           prefix (to_server s) src_c \<and> prefix (to_client s) src_s)
    | Ws_Relaying s \<Rightarrow> \<exists>k ts (b :: backend) ws up.
        terminate f accept (sp_tls_server p) (task_io t) = Some (Ok (k, ts)) \<and>
        task_actions t = [Ws_Accept, Ws_Dial (ws_url (addr b))] \<and>
        await (ws_accept env ts) = Some (Ok ws) \<and>
        await (ws_connect env (ws_url (addr b))) = Some (Ok up) \<and>
        ws_msgs (fst (snd (ws_run env ws up))) = sent_upstream s @ ws_msgs (client_in s) \<and>
        ws_msgs (snd (snd (ws_run env ws up))) = sent_client s @ ws_msgs (upstream_in s)
    | _ \<Rightarrow> True"
proof (cases "task_phase t")
  case (Tcp_Relaying s)
  have "proxy_tcp sched (tcp_begin env ts up) = (None, s) \<Longrightarrow>
      faithful_copy src_c (fst (snd (tcp_run env ts up))) \<Longrightarrow>
      faithful_copy src_s (snd (snd (tcp_run env ts up))) \<Longrightarrow>
      prefix (to_server s) src_c \<and> prefix (to_client s) src_s" for ts up sched src_c src_s
    using proxy_tcp_relays [of src_c "fst (snd (tcp_run env ts up))" src_s "snd (snd (tcp_run env ts up))" sched None s]
    by (simp add: tcp_begin_def case_prod_unfold)
  then show ?thesis
    using assms Tcp_Relaying unfolding task_ok_def shook_def by simp blast
next
  case (Ws_Relaying s)
  have "proxy_ws (ws_up_send env) (ws_cl_send env) sched (ws_begin env c u) = (None, s) \<Longrightarrow>
      ws_msgs (fst (snd (ws_run env c u))) = sent_upstream s @ ws_msgs (client_in s) \<and>
      ws_msgs (snd (snd (ws_run env c u))) = sent_client s @ ws_msgs (upstream_in s)" for sched c u
    using proxy_ws_relays [of "ws_up_send env" "ws_cl_send env" sched "ws_begin env c u" None s]
    by (auto simp: relayed_def ws_begin_def case_prod_unfold ws_start_def)
  then show ?thesis
    using assms Ws_Relaying unfolding task_ok_def shook_def by simp metis
qed simp_all

lemma svc_inv_task:
  assumes "svc_inv lo ops f accept envs p s" "j < length (svc_tasks s)"
  shows "task_ok f accept p (envs j) (set (svc_answers s)) (svc_tasks s ! j)"
  using assms by (simp add: svc_inv_def svc_serves_def)

lemma svc_inv_answer:
  assumes "svc_inv lo ops f accept envs p s" "bs \<in> set (svc_answers s)"
  shows "\<exists>l. discover l (lb_discovery (sp_load_balancer p)) = Ok bs" "bt_ok bs" "unit_weights bs"
proof -
  have d: "lb_discovery (svc_balancer s) = lb_discovery (sp_load_balancer p)"
    "discovery_ok (lb_discovery (svc_balancer s))"
    using assms(1) by (auto simp only: svc_inv_def svc_settled_def svc_balanced_def lb_ok_def)
  then show l: "\<exists>l. discover l (lb_discovery (sp_load_balancer p)) = Ok bs"
    using assms by (auto simp: svc_inv_def svc_balanced_def)
  then show "bt_ok bs" "unit_weights bs"
    using d dyn_disc.discover_ascending dyn_disc.discover_unit_weights by metis+
qed

lemma svc_picked_index:
  assumes "svc_picked p s" "lb_selection (sp_load_balancer p) = Sel_Round_Robin rr_default"
    and "x < length (svc_picks s)" "x < 2 ^ 64"
  shows "snd (svc_picks s ! x) = fst (svc_picks s ! x) ! (x mod length (fst (svc_picks s ! x)))"
  using assms by (auto simp: svc_picked_def rr_default_def unat_of_nat_usize split: prod.splits)

lemma svc_picks_answers:
  assumes "svc_inv lo ops f accept envs p s" "(bs, b) \<in> set (svc_picks s)"
  shows "bs \<in> set (svc_answers s)" "b \<in> set bs"
proof -
  have "set (svc_picks s) = set (List.map_filter task_choice (svc_tasks s))"
    using assms(1) by (intro mset_eq_setD) (simp add: svc_inv_def svc_picked_def)
  then obtain t where "t \<in> set (svc_tasks s)" "task_choice t = Some (bs, b)"
    using assms(2) by (auto simp: List.map_filter_def)
  then show "bs \<in> set (svc_answers s)" "b \<in> set bs"
    using svc_inv_task [OF assms(1)] task_ok_choice by (metis in_set_conv_nth)+
qed

text \<open>A window of picks from the same backends walks round them.\<close>

lemma window_walks_round:
  assumes w: "map fst (take m (drop j ps)) = replicate m bs" and bound: "j + m \<le> 2 ^ 64"
    and idx: "\<And>x. x < length ps \<Longrightarrow> x < 2 ^ 64 \<Longrightarrow> snd (ps ! x) = fst (ps ! x) ! (x mod length (fst (ps ! x)))"
  shows "map snd (take m (drop j ps)) = map (\<lambda>x. bs ! ((j + x) mod length bs)) [0..<m]"
proof (rule nth_equalityI)
  have len: "length (take m (drop j ps)) = m" using w by (metis length_map length_replicate)
  then show "length (map snd (take m (drop j ps))) = length (map (\<lambda>x. bs ! ((j + x) mod length bs)) [0..<m])"
    by simp
  fix x
  assume "x < length (map snd (take m (drop j ps)))"
  then have x: "x < m" using len by simp
  then have "fst (take m (drop j ps) ! x) = bs" using w len by (metis nth_map nth_replicate)
  moreover have "take m (drop j ps) ! x = ps ! (j + x)" using x len by simp
  moreover have "j + x < length ps" using x len by simp
  ultimately show "map snd (take m (drop j ps)) ! x = map (\<lambda>x. bs ! ((j + x) mod length bs)) [0..<m] ! x"
    using idx [of "j + x"] x len bound by simp
qed

lemma task_ok_well_formed:
  assumes "task_ok f accept p env A t"
  shows "(case task_phase t of
        Connecting ts b n \<Rightarrow> proxy_protocol p = Tcp
      | Tcp_Relaying r \<Rightarrow> proxy_protocol p = Tcp
      | Ws_Accepting ts b n \<Rightarrow> proxy_protocol p = Ws
      | Ws_Connecting ws b n \<Rightarrow> proxy_protocol p = Ws
      | Ws_Relaying r \<Rightarrow> proxy_protocol p = Ws
      | _ \<Rightarrow> True) \<and>
    (case task_choice t of None \<Rightarrow> True | Some (bs, b) \<Rightarrow> b \<in> set bs)"
  using assms task_ok_choice [OF assms] unfolding task_ok_def
  by (auto split: phase.split option.split)

section \<open>Whole runs\<close>

lemma process_step_ended:
  assumes "process_step prof lo ops f accept envs register c pr pr'"
    and "i < length (pr_services pr)" "svc_loop (pr_services pr ! i) = Ended r"
  shows "i < length (pr_services pr') \<and> svc_loop (pr_services pr' ! i) = Ended r \<and>
    svc_events (pr_services pr' ! i) = svc_events (pr_services pr ! i) \<and>
    map task_io (svc_tasks (pr_services pr' ! i)) = map task_io (svc_tasks (pr_services pr ! i))"
  using assms
proof (induction rule: process_step.induct)
  case (service pr j s')
  then show ?case
    using svc_step_ended [OF service.hyps(3)] by (cases "i = j") simp_all
qed (simp_all add: nth_append)

lemma process_steps_ended:
  assumes "(process_step prof lo ops f accept envs register c)\<^sup>*\<^sup>* pr pr'"
    and "i < length (pr_services pr)" "svc_loop (pr_services pr ! i) = Ended r"
  shows "i < length (pr_services pr') \<and> svc_loop (pr_services pr' ! i) = Ended r \<and>
    svc_events (pr_services pr' ! i) = svc_events (pr_services pr ! i) \<and>
    map task_io (svc_tasks (pr_services pr' ! i)) = map task_io (svc_tasks (pr_services pr ! i))"
  using assms
proof (induction rule: rtranclp_induct)
  case (step pr' pr'')
  then show ?case using process_step_ended [OF step.hyps(2), of i r] by simp
qed simp

lemma service_steps_run:
  assumes "(svc_step prof lo ops f accept (envs i) (pr_notified register pr))\<^sup>*\<^sup>* s s'"
    and "pr_main pr \<noteq> Gone" "i < length (pr_services pr)"
  shows "(process_step prof lo ops f accept envs register c)\<^sup>*\<^sup>*
    (pr\<lparr>pr_services := (pr_services pr)[i := s]\<rparr>) (pr\<lparr>pr_services := (pr_services pr)[i := s']\<rparr>)"
  using assms(1)
proof (induction rule: rtranclp_induct)
  case (step u v)
  let ?pr = "pr\<lparr>pr_services := (pr_services pr)[i := u]\<rparr>"
  have "process_step prof lo ops f accept envs register c ?pr (?pr\<lparr>pr_services := (pr_services ?pr)[i := v]\<rparr>)"
    using assms(2,3) step.hyps(2) by (intro process_step.service) (simp_all add: pr_notified_def)
  with step.IH show ?case by simp
qed simp

lemma process_steps_reach:
  assumes "(process_step prof lo ops f accept envs register (server_config_ref srv))\<^sup>*\<^sup>* pr pr'"
    and "process_reach prof lo ops f accept envs register srv pr"
  shows "process_reach prof lo ops f accept envs register srv pr'"
  using assms by (induction rule: rtranclp_induct) (auto intro: process_reach.step)

lemma time_slept_append [simp]: "time_slept (xs @ ys) = time_slept xs + time_slept ys"
  by (induction xs rule: time_slept.induct) simp_all

lemma time_slept_spawn_effects [simp]: "time_slept (spawn_effects ps) = 0"
  by (induction ps) (simp_all add: spawn_effects_def)

lemma server_run_spawns:
  "server_run srv notified =
     (if notified
      then (spawn_effects (stream_proxies srv) @ shutdown (server_config_ref srv), Some (Ok ()))
      else (spawn_effects (stream_proxies srv), None))"
  by (simp add: server_run_def spawn_effects_def Let_def)

lemma main_inv_effects:
  assumes "main_inv register srv pr" "server_config_ref srv = c"
  shows "(pr_main pr = Waiting \<longrightarrow> server_run srv False = (pr_effects pr, None)) \<and>
    (pr_main pr = Gone \<longrightarrow> server_run srv True = (pr_effects pr, Some (Ok ()))) \<and>
    (pr_main pr \<in> {Grace_Period, Exit_Timeout, Gone} \<longrightarrow>
       changed_returns (signal_task register (pr_signals pr)) \<and>
       length (pr_services pr) = length (stream_proxies srv)) \<and>
    time_slept (pr_effects pr) =
      (if pr_main pr = Gone then unat (shutdown_grace_period_secs c) + unat (exit_timeout_secs c)
       else if pr_main pr = Exit_Timeout then unat (shutdown_grace_period_secs c) else 0)"
  using assms
  by (cases "pr_main pr")
    (auto simp: main_inv_def server_run_spawns pr_notified_def shutdown_def shutdown_grace_period_def exit_timeout_def from_secs_def)

lemma server_try_from_config: "server_try_from api lib fs c = Ok srv \<Longrightarrow> server_config_ref srv = c"
  by (auto simp: server_try_from_map and_then_eq_Ok)

end
