(* ===== verification/Proxy_Theorems.thy ===== *)
theory Proxy_Theorems
  imports Proxy_Facts
begin

text \<open>
  The properties of one connection: when it reaches a backend and which, what a TCP and a
  WebSocket session relay under every schedule, and how they can end.
\<close>

section \<open>Reaching a backend\<close>

text \<open>
  C16. A connection reaches out only after its TLS handshake, and then to one backend of the set
  the balancer holds, whichever algorithm is used; with no backends it fails without reaching
  out. Before the handshake nothing is contacted and the balancer is untouched.
\<close>

theorem connection_reaches_known_backend:
  assumes "lb_ok (sp_load_balancer p)" "rng_ok draw" "fits_usize (cell (sp_load_balancer p))"
  shows "case hs (sp_tls_server p) io of
      Some (Ok (k, ts)) \<Rightarrow>
        (if cell (sp_load_balancer p) = []
         then fst (handle_connection prof hs env draw p io) = ([], Some (Err (Msg ''No backends available'')))
         else \<exists>b\<in>set (cell (sp_load_balancer p)).
                fst (handle_connection prof hs env draw p io)
                  = serve_backend env (proxy_protocol p) ts b)
    | _ \<Rightarrow> fst (fst (handle_connection prof hs env draw p io)) = [] \<and>
          snd (handle_connection prof hs env draw p io) = p"
proof -
  let ?lb = "sp_load_balancer p" and ?h = "handle_connection prof hs env draw p io"
  have "if cell ?lb = [] then fst ?h = ([], Some (Err (Msg ''No backends available'')))
      else \<exists>b\<in>set (cell ?lb). fst ?h = serve_backend env (proxy_protocol p) ts b"
    if t: "hs (sp_tls_server p) io = Some (Ok (k, ts))" for k ts
  proof (cases "cell ?lb = []")
    case True
    then show ?thesis using handle_connection_handshake [of hs p io k ts prof env draw] t
      by (simp add: lb_select_empty)
  next
    case False
    then obtain b where "b \<in> set (cell ?lb)" "fst (lb_select prof draw None ?lb) = Ok (Some b)"
      using lb_select_some [OF assms False, of prof None] by blast
    then show ?thesis using handle_connection_handshake [of hs p io k ts prof env draw] t False
      by auto
  qed
  then show ?thesis
    using handle_connection_no_handshake [of hs p io prof env draw]
    by (auto split: option.splits outcome.splits)
qed

text \<open>A proxy with two backends, and an environment in which every connection succeeds.\<close>

definition sample_proxy :: "protocol \<Rightarrow> (unit, unit, unit) stream_proxy" where
  "sample_proxy proto =
     \<lparr>sp_config = \<lparr>ss_name = ''s'', ss_listen = \<lparr>listen_port = 443, listen_protocol = proto\<rparr>,
        ss_proxy_pass = ''u'', ss_tls = None\<rparr>,
      sp_tls_server = \<lparr>server_name = (), acceptor = ()\<rparr>,
      sp_load_balancer = \<lparr>lb_selection = Sel_Round_Robin rr_default,
        lb_backends = \<lparr>bk_discovery = Local_Discovery local_default,
                       bk_cell = [sample_backend 1, sample_backend 2]\<rparr>\<rparr>\<rparr>"

definition sample_stream :: "'io \<Rightarrow> 'io tls_stream" where
  "sample_stream io = \<lparr>ts_io = io, ts_server_name = None, ts_peer_certificates = None,
     ts_alpn_protocol = None\<rparr>"

definition sample_env :: "('io, unit, unit, unit, nat) proxy_env" where
  "sample_env = \<lparr>tcp_connect = \<lambda>_. [Pending, Ready (Ok ())], ws_accept = \<lambda>_. [Ready (Ok ())],
     ws_connect = \<lambda>_. [Pending, Ready (Ok ())],
     tcp_run = \<lambda>_ _. ([Client_Branch, Client_Branch], [Wrote [1, 2], Copied], [Copied]),
     ws_run = \<lambda>_ _. ([Client_Branch], [Ready (Some (Ok 7))], []),
     ws_up_send = \<lambda>_. Ok (), ws_cl_send = \<lambda>_. Ok ()\<rparr>"

lemma sample_proxy_lb [simp]:
  "lb_ok (sp_load_balancer (sample_proxy proto))"
  "cell (sp_load_balancer (sample_proxy proto)) = [sample_backend 1, sample_backend 2]"
  "proxy_protocol (sample_proxy proto) = proto"
  by (simp_all add: sample_proxy_def lb_ok_def bt_ok_def local_ok_def local_default_def proxy_protocol_def)

theorem connection_reaches_known_backend_witness:
  "\<exists>b\<in>{sample_backend 1, sample_backend 2}.
     fst (handle_connection Release (\<lambda>_ _. Some (Ok (Established None None, sample_stream ())))
            sample_env (\<lambda>_. 0) (sample_proxy Tcp) ()) = ([Dial (addr b)], Some (Ok ()))"
  using connection_reaches_known_backend [where p = "sample_proxy Tcp" and draw = "\<lambda>_. 0"
      and hs = "\<lambda>_ _. Some (Ok (Established None None, sample_stream ()))" and io = "()"
      and prof = Release and env = sample_env]
  by (simp add: rng_ok_def fits_usize_def serve_backend_def note_action_def sample_env_def
      tcp_start_def)

section \<open>TCP sessions\<close>

text \<open>
  C17. A TCP session relays faithfully under every schedule: at any moment each side has received,
  in order, a prefix of what the other sent; and when the session is over without a logged
  error, one of the two has received all of it.
\<close>

theorem tcp_relay_integrity:
  assumes "faithful_copy src_c c2s" "faithful_copy src_s s2c"
    and "proxy_tcp sched (tcp_start c2s s2c) = (r, s')"
  shows "prefix (to_server s') src_c \<and> prefix (to_client s') src_s \<and>
    (r \<noteq> None \<and> tcp_log s' = [] \<longrightarrow> to_server s' = src_c \<or> to_client s' = src_s)"
  by (rule proxy_tcp_relays [OF assms])

theorem tcp_relay_integrity_witness:
  "prefix (to_server (snd (proxy_tcp [Client_Branch, Upstream_Branch, Client_Branch]
     (tcp_start [Wrote [1], Wrote [2], Copied] [Wrote [3], Copied])))) [1, 2]"
proof -
  have "faithful_copy [1, 2] [Wrote [1], Wrote [2], Copied]" "faithful_copy [3] [Wrote [3], Copied]"
    by (simp_all add: faithful_copy_def)
  from tcp_relay_integrity [OF this prod.collapse [symmetric]] show ?thesis by simp
qed

text \<open>
  C30. A TCP session terminates: as soon as either copy, ending in success or in an error, has been
  polled as often as it has steps, the session has ended with \<open>Ok\<close>.
\<close>

theorem tcp_session_ends:
  assumes "copy_ends c2s \<and> length c2s \<le> count_list sched Client_Branch \<or>
           copy_ends s2c \<and> length s2c \<le> count_list sched Upstream_Branch"
  shows "fst (proxy_tcp sched (tcp_start c2s s2c)) = Some (Ok ())"
  using assms proxy_tcp_ends_client [of "tcp_start c2s s2c" sched]
    proxy_tcp_ends_server [of "tcp_start c2s s2c" sched] by auto

theorem tcp_session_ends_witness:
  "fst (proxy_tcp [Upstream_Branch, Client_Branch, Client_Branch]
     (tcp_start [Wrote [1], Copy_Failed (Msg ''reset'')] [Wrote [2], Wrote [3], Copied])) = Some (Ok ())"
  by (rule tcp_session_ends) simp

text \<open>
  Half-closing loses the answer: when a client sends its request and closes its sending side,
  the session ends on the next poll of that copy, successfully and with nothing logged, although
  the answer \<open>bs\<close> was still to be relayed.
\<close>

theorem tcp_half_close_truncates:
  "faithful_copy req [Wrote req, Copied] \<and> faithful_copy bs [Wrote bs, Copied] \<and>
   proxy_tcp (Client_Branch # Client_Branch # sched) (tcp_start [Wrote req, Copied] [Wrote bs, Copied])
     = (Some (Ok ()), \<lparr>client_to_server = [Copied], server_to_client = [Wrote bs, Copied],
                       to_server = req, to_client = [], tcp_log = []\<rparr>)"
  by (simp add: faithful_copy_def tcp_start_def)

section \<open>WebSocket sessions\<close>

text \<open>
  C18. A WebSocket session relays messages in both directions without loss, duplication or
  reordering as long as it runs, under every schedule; when it ends, at most one message a
  direction has been taken from a side and not been delivered to the other.
\<close>

theorem ws_relays_in_order:
  assumes "proxy_ws up_send cl_send sched (ws_start c u) = (r, s')"
  shows "\<exists>lost_c lost_u.
     ws_msgs c = sent_upstream s' @ lost_c @ ws_msgs (client_in s') \<and> length lost_c \<le> 1 \<and>
     ws_msgs u = sent_client s' @ lost_u @ ws_msgs (upstream_in s') \<and> length lost_u \<le> 1 \<and>
     (r = None \<longrightarrow> lost_c = [] \<and> lost_u = [])"
  using proxy_ws_relays [OF assms] by (auto simp: relayed_def ws_start_def)

theorem ws_relays_in_order_witness:
  "ws_msgs [Ready (Some (Ok (1::nat))), Pending, Ready (Some (Ok 2))] = [1, 2] \<and>
   sent_upstream (snd (proxy_ws (\<lambda>_. Ok ()) (\<lambda>_. Ok ()) [Client_Branch, Client_Branch, Client_Branch]
     (ws_start [Ready (Some (Ok 1)), Pending, Ready (Some (Ok 2))] []))) = [1, 2::nat]"
  using ws_relays_in_order [of "\<lambda>_. Ok ()" "\<lambda>_. Ok ()" "[Client_Branch, Client_Branch, Client_Branch]"
      "[Ready (Some (Ok 1)), Pending, Ready (Some (Ok 2))]" "[]" None]
  by (simp add: ws_start_def)



text \<open>
  C37. No WebSocket connection is ever reported as served: whatever happens, the result of a
  connection of a WebSocket proxy, if it has one, is an error or a panic.
\<close>

theorem ws_connection_never_ok:
  assumes "proxy_protocol p = Ws"
  shows "snd (fst (handle_connection prof hs env draw p io)) \<noteq> Some (Ok ())"
  by (rule handle_connection_ws_not_Ok [OF assms])

theorem ws_connection_never_ok_witness:
  "snd (fst (handle_connection Release (\<lambda>_ _. Some (Ok (Established None None, sample_stream ())))
     sample_env (\<lambda>_. 0) (sample_proxy Ws) ())) \<noteq> Some (Ok ())"
  by (rule ws_connection_never_ok) simp

text \<open>
  C40. The upstream URL of an IPv4 backend names its address and port; that of an IPv6 backend
  lacks the brackets a URL needs, so that port 80 of \<open>::1\<close> reads as the address \<open>::1:80\<close>.
\<close>

theorem ws_url_reads_back:
  "parse_socket_addr (drop 5 (ws_url (SocketV4 ip p))) = Ok (SocketV4 ip p) \<and>
   CHR ''['' \<notin> set (ws_url (SocketV6 ip6 p fl sc)) \<and>
   ws_url (SocketV6 (Ipv6Addr 0 0 0 0 0 0 0 1) 80 fl sc)
     = ''ws://'' @ show_ip (V6 (Ipv6Addr 0 0 0 0 0 0 1 0x80))"
proof (intro conjI)
  show "parse_socket_addr (drop 5 (ws_url (SocketV4 ip p))) = Ok (SocketV4 ip p)"
    using parse_socket_v4 [of ip p] by (simp add: ws_url_def)
  have "CHR ''['' \<notin> set (fmt_subslice gs)" for gs
    by (cases gs) (auto simp: fmt_subslice_def bracket_not_mem)
  moreover have "CHR ''['' \<notin> set (show_ipv4 a)" for a
    by (cases a) (auto simp: bracket_not_mem)
  ultimately show "CHR ''['' \<notin> set (ws_url (SocketV6 ip6 p fl sc))"
    by (auto simp: ws_url_def show_ipv6_def bracket_not_mem Let_def split: option.splits prod.splits if_splits)
  show "ws_url (SocketV6 (Ipv6Addr 0 0 0 0 0 0 0 1) 80 fl sc)
     = ''ws://'' @ show_ip (V6 (Ipv6Addr 0 0 0 0 0 0 1 0x80))"
    by (simp add: ws_url_def) code_simp
qed

end
