(* ===== verification/Samples.thy ===== *)
theory Samples
  imports App Proxy_Theorems
begin

text \<open>
  Surroundings for concrete instances: libraries, files, a configuration and sockets with which a
  server starts, and the balancer and the proxy it then has.
\<close>

section \<open>A server that starts\<close>

text \<open>Libraries, files and a configuration that let a server start; used in concrete instances.\<close>

definition sample_rustls ::
  "(string, u8 list, u8 list list, u8 list, unit, unit, unit, unit) rustls_api" where
  "sample_rustls =
     \<lparr>server_name_try_from = \<lambda>nm. Ok nm, pem_certs = \<lambda>pem. [Ok pem],
      pem_private_key = \<lambda>key. Ok (Some key), any_ecdsa_type = \<lambda>key. Ok key, roots_empty = [],
      add_parsable_certificates = \<lambda>roots certs. roots @ certs, build_server_verifier = \<lambda>_. Ok (),
      build_client_verifier = \<lambda>_ _. Ok (), client_config = \<lambda>_ _. (), disable_resumption = \<lambda>c. c,
      server_config = \<lambda>_ _. ()\<rparr>"

definition sample_resolver :: "(unit, unit, string, unit) resolver_lib" where
  "sample_resolver =
     \<lparr>rl_api = \<lparr>new_config = (), default_opts = (), add_name_server = \<lambda>c _. c,
        add_search = \<lambda>c _. c, set_ndots = \<lambda>o' _. o', parse_name = \<lambda>nm. Ok nm\<rparr>,
      rl_tokio = \<lambda>_. (), rl_system = Ok ()\<rparr>"

definition sample_fs :: file_system where
  "sample_fs = (\<lambda>_. Ok [65])"

definition sample_tls :: tls_config where
  "sample_tls =
     \<lparr>tls_enabled = True, certificate_path = ''c'', certificate_key_path = ''k'',
      trusted_certificate_path = ''t'', tls_verify = True, tls_verify_depth = 1,
      tls_session_reuse = True, tls_protocols = [], tls_ciphers = []\<rparr>"

definition sample_tracing :: "string tracing_api" where
  "sample_tracing = \<lparr>filter_from_env = Err (Msg ''no filter''), filter_new = \<lambda>l. l,
     install = \<lambda>_. Ok ()\<rparr>"

definition sample_server :: "protocol \<Rightarrow> tls_config option \<Rightarrow> stream_server" where
  "sample_server proto tls =
     \<lparr>ss_name = ''s'', ss_listen = \<lparr>listen_port = 443, listen_protocol = proto\<rparr>,
      ss_proxy_pass = ''u'', ss_tls = tls\<rparr>"

definition sample_upstream :: "lb_kind \<Rightarrow> upstream" where
  "sample_upstream k =
     \<lparr>up_load_balancer = k, up_service_discovery = Local,
      up_servers = [\<lparr>us_address = show_ip (V4 (Ipv4Addr 10 0 0 1)), us_port = 80\<rparr>]\<rparr>"

definition sample_config :: "lb_kind \<Rightarrow> stream_server \<Rightarrow> umay_config" where
  "sample_config k ss =
     \<lparr>worker_threads = 4, close_timeout_secs = 1, exit_timeout_secs = 2,
      shutdown_grace_period_secs = 3,
      stream = Some \<lparr>st_upstreams = [''u'' \<mapsto> sample_upstream k], st_servers = [ss]\<rparr>,
      http = None\<rparr>"

lemma sample_load_balancer:
  "initialize_load_balancer lib (sample_upstream RoundRobin) =
     Ok (lb_new (backends_new (Local_Discovery (with_backends
            [socket_new (V4 (Ipv4Addr 10 0 0 1)) 80]))) (Sel_Round_Robin rr_default))"
  by (simp add: initialize_load_balancer_def create_discovery_local sample_upstream_def
      to_socket_addrs_show create_selector_def del: show_ip.simps)

lemma sample_store: "store_try_from sample_rustls sample_fs sample_tls =
    Ok \<lparr>store_server_name = default_server_name, server_cert_verifier = (), client_cfg = (),
        server_cfg = ()\<rparr>"
  by (simp add: store_try_from_def store_new_def create_root_store_def create_certified_key_def
      extract_private_key_def create_client_config_def create_server_config_def Let_def
      proxy_tls_certificate_def proxy_tls_certificate_key_def proxy_tls_trusted_certificate_def
      sample_rustls_def sample_fs_def sample_tls_def)

definition sample_stream_proxy :: "(string, unit, unit) stream_proxy" where
  "sample_stream_proxy =
     stream_proxy_new (sample_server Tcp (Some sample_tls)) (tls_server_new default_server_name ())
       (lb_new (backends_new (Local_Discovery (with_backends
            [socket_new (V4 (Ipv4Addr 10 0 0 1)) 80]))) (Sel_Round_Robin rr_default))"

lemma sample_started:
  "server_try_from sample_rustls sample_resolver sample_fs
       (sample_config RoundRobin (sample_server Tcp (Some sample_tls))) =
     Ok \<lparr>stream_proxies = [sample_stream_proxy], http_proxies = [],
         server_config_ref = sample_config RoundRobin (sample_server Tcp (Some sample_tls)),
         server_metrics = metrics_new ''umay'' f64_one\<rparr>"
  by (simp add: server_try_from_map sample_config_def build_proxy_def sample_server_def
      sample_store initialize_tls_server_def stream_upstream_def sample_load_balancer
      sample_stream_proxy_def)

section \<open>Sockets\<close>

definition sample_ops :: "nat socket_ops" where
  "sample_ops = \<lparr>so_set_nodelay = \<lambda>s. (Some (Msg ''no''), s), so_into_std = \<lambda>s. Ok s,
     so_set_keepalive = \<lambda>_ s. (None, s), so_from_std = \<lambda>s. Ok s,
     so_peer_addr = \<lambda>s. if s = 0 then Err (Msg ''gone'') else Ok (sample_addr 9)\<rparr>"

lemma sample_accepted: "accepted_socket sample_ops (Ok s) =
    (if s = 0 then Err (Context ''Failed to get peer address'' (Msg ''gone'')) else Ok s)"
  by (simp add: accepted_socket_def set_nodelay_or_warn_def set_keepalive_or_warn_def Let_def
      sample_ops_def)

definition sample_listener :: "unit listener_ops" where
  "sample_listener = \<lparr>l_bind = \<lambda>_. Ok (), l_set_nonblocking = \<lambda>_. Ok (), l_from_std = \<lambda>_. Ok ()\<rparr>"

end
