(* ===== verification/Sample_Run.thy ===== *)
theory Sample_Run
  imports Runtime_Facts Samples
begin

text \<open>
  A run of the process of the sample server: the one service binds, accepts socket 1 and refreshes;
  the connection shakes hands, chooses and is about to dial when SIGTERM stops the service; during
  the grace period it dials, relays and finishes; then the process is gone.
\<close>

section \<open>The service\<close>

definition sample_accept :: "unit \<Rightarrow> nat \<Rightarrow> nat tls_stream outcome poll list" where
  "sample_accept a io = [Pending, Ready (Ok (sample_stream io))]"

type_synonym sample_service = "(string, unit, unit, nat, unit, nat) service"

definition sample_waiting :: sample_service where
  "sample_waiting = note_event (Incoming (Some (Ok 1)))
     (on_event sample_ops Ok sample_accept (Incoming (Some (Ok 1)))
        (on_bind sample_listener (svc_start sample_stream_proxy)))"

definition sample_poll :: "sample_service \<Rightarrow> sample_service" where
  "sample_poll = on_poll Release (\<lambda>_. 0) sample_env Client_Branch 0"

definition sample_refreshed :: sample_service where
  "sample_refreshed = on_tick (\<lambda>_ _. Ok []) sample_waiting"

definition sample_ended :: sample_service where
  "sample_ended = note_event Shutdown_Notice
     (on_event sample_ops Ok sample_accept Shutdown_Notice ((sample_poll ^^ 4) sample_refreshed))"

definition sample_done :: sample_service where
  "sample_done = (sample_poll ^^ 4) sample_ended"

lemma sample_cell:
  "discover l (lb_discovery (sp_load_balancer sample_stream_proxy)) = Ok [sample_backend 1]"
  "lb_selection (sp_load_balancer sample_stream_proxy) = Sel_Round_Robin rr_default"
  "cell (sp_load_balancer sample_stream_proxy) = []"
  "proxy_protocol sample_stream_proxy = Tcp"
  by (simp_all add: sample_stream_proxy_def stream_proxy_new_def local_discover_def with_backends_def
      sample_backend_def sample_addr_def bt_collect_def proxy_protocol_def sample_server_def)

lemma sample_waiting_eq: "sample_waiting =
   \<lparr>svc_proxy = sample_stream_proxy, svc_loop = Accepting, svc_refreshing = True,
    svc_tasks = [\<lparr>task_io = 1, task_phase = Handshaking [Pending, Ready (Ok (Established None None, sample_stream 1))],
       task_actions = [], task_choice = None\<rparr>],
    svc_events = [Incoming (Some (Ok 1))], svc_answers = [], svc_picks = []\<rparr>"
  by (simp add: sample_waiting_def note_event_def on_bind_def svc_start_def bind_listener_def
      sample_listener_def sample_accepted task_spawn_def tls_call_def sample_accept_def
      terminate_poll_def classify_def sample_stream_def client_identity_def)

definition sample_picked_lb :: "unit load_balancer" where
  "sample_picked_lb = (sp_load_balancer sample_stream_proxy)\<lparr>lb_selection := Sel_Round_Robin \<lparr>rr_index = 1\<rparr>,
     lb_backends := (lb_backends (sp_load_balancer sample_stream_proxy))\<lparr>bk_cell := [sample_backend 1]\<rparr>\<rparr>"

lemma sample_refreshed_eq: "sample_refreshed = sample_waiting
   \<lparr>svc_proxy := sample_stream_proxy\<lparr>sp_load_balancer := (sp_load_balancer sample_stream_proxy)\<lparr>lb_backends :=
       (lb_backends (sp_load_balancer sample_stream_proxy))\<lparr>bk_cell := [sample_backend 1]\<rparr>\<rparr>\<rparr>,
     svc_answers := [[sample_backend 1]]\<rparr>"
  by (simp add: sample_refreshed_def on_tick_def refresh_answered sample_cell set_balancer_def sample_waiting_eq)

lemma sample_ended_eq: "sample_ended =
   \<lparr>svc_proxy = sample_stream_proxy\<lparr>sp_load_balancer := sample_picked_lb\<rparr>, svc_loop = Ended (Ok ()),
    svc_refreshing = True,
    svc_tasks = [\<lparr>task_io = 1, task_phase = Connecting (sample_stream 1) (sample_backend 1) 0,
       task_actions = [], task_choice = Some ([sample_backend 1], sample_backend 1)\<rparr>],
    svc_events = [Incoming (Some (Ok 1)), Shutdown_Notice], svc_answers = [[sample_backend 1]],
    svc_picks = [([sample_backend 1], sample_backend 1)]\<rparr>"
  by (simp add: sample_ended_def eval_nat_numeral sample_poll_def on_poll_eq Let_def sample_refreshed_eq
      sample_waiting_eq task_poll.simps task_defs await_step_def act_first_def poll_answer_def new_pick_def set_balancer_def proxy_protocol_def
      get_backends_def pick_backend_def sample_cell rr_default_def rr_select_nonempty note_event_def
      sample_picked_lb_def sample_cell(4) [unfolded proxy_protocol_def])

lemma sample_done_eq: "sample_done = sample_ended
   \<lparr>svc_tasks := [\<lparr>task_io = 1, task_phase = Finished (Ok ()), task_actions = [Dial (sample_addr 1)],
       task_choice = Some ([sample_backend 1], sample_backend 1)\<rparr>]\<rparr>"
  by (simp add: sample_done_def eval_nat_numeral sample_poll_def on_poll_eq Let_def sample_ended_eq
      task_poll.simps task_defs await_step_def act_first_def poll_answer_def new_pick_def set_balancer_def proxy_protocol_def
      sample_env_def tcp_start_def sample_cell(4) [unfolded proxy_protocol_def])

section \<open>The process\<close>

definition sample_umay :: "(string, unit, unit) umay_server" where
  "sample_umay = \<lparr>stream_proxies = [sample_stream_proxy], http_proxies = [],
     server_config_ref = sample_config RoundRobin (sample_server Tcp (Some sample_tls)),
     server_metrics = metrics_new ''umay'' f64_one\<rparr>"

abbreviation sample_proc_step where
  "sample_proc_step \<equiv> process_step Release sample_listener sample_ops Ok sample_accept (\<lambda>_ _. sample_env)
     (\<lambda>_. Ok ()) (sample_config RoundRobin (sample_server Tcp (Some sample_tls)))"

abbreviation sample_proc_reach where
  "sample_proc_reach \<equiv> process_reach Release sample_listener sample_ops Ok sample_accept (\<lambda>_ _. sample_env)
     (\<lambda>_. Ok ()) sample_umay"

definition sample_process ::
  "(string, unit, unit) main_phase \<Rightarrow> sample_service \<Rightarrow> effect list
    \<Rightarrow> (string, unit, unit, nat, unit, nat) process" where
  "sample_process ph s sleeps = \<lparr>pr_main = ph, pr_signals = [Sigterm], pr_services = [s],
     pr_effects = [Spawn_Refresh 443 30, Spawn_Service 443] @ sleeps\<rparr>"

lemma sample_spawned: "sample_proc_reach (sample_process Waiting (svc_start sample_stream_proxy) [])"
proof -
  let ?pr = "spawn_proxy sample_stream_proxy [] (pr_start sample_umay)"
  have "sample_proc_reach ?pr"
    by (rule process_reach.step [OF process_reach.start], rule process_step.spawn)
      (simp add: pr_start_def sample_umay_def)
  then have "sample_proc_reach (?pr\<lparr>pr_main := Waiting\<rparr>)"
    by (rule process_reach.step, intro process_step.spawned) simp
  moreover have add: "sample_proc_reach (pr\<lparr>pr_signals := pr_signals pr @ [Sigterm]\<rparr>)"
    if "sample_proc_reach pr" "pr_main pr \<noteq> Gone" for pr
    using that by (blast intro: process_reach.step process_step.receive)
  ultimately show ?thesis
    using add [of "?pr\<lparr>pr_main := Waiting\<rparr>"]
    by (simp add: pr_start_def sample_process_def spawn_proxy_def proxy_port_def sample_stream_proxy_def
        stream_proxy_new_def sample_server_def from_secs_def)
qed

abbreviation sample_svc_step where
  "sample_svc_step \<equiv> svc_step Release sample_listener sample_ops Ok sample_accept (\<lambda>_. sample_env) True"

lemma sample_poll_step: "svc_tasks s \<noteq> [] \<Longrightarrow> sample_svc_step s (sample_poll s)"
  unfolding sample_poll_def by (rule svc_step.poll) (simp_all add: rng_ok_def)

lemma sample_polls: "svc_tasks s \<noteq> [] \<Longrightarrow> sample_svc_step\<^sup>*\<^sup>* s ((sample_poll ^^ n) s)"
proof (induction n)
  case (Suc n)
  have "length (svc_tasks ((sample_poll ^^ n) s)) = length (svc_tasks s)"
    by (induction n) (simp_all add: sample_poll_def)
  then have "svc_tasks ((sample_poll ^^ n) s) \<noteq> []" using Suc.prems by auto
  then show ?case using Suc sample_poll_step by (auto intro: rtranclp.rtrancl_into_rtrancl)
qed simp

lemma sample_service_run:
  "sample_svc_step\<^sup>*\<^sup>* (svc_start sample_stream_proxy) sample_ended"
  "sample_svc_step\<^sup>*\<^sup>* sample_ended sample_done"
proof -
  let ?bound = "on_bind sample_listener (svc_start sample_stream_proxy)"
  have "sample_svc_step (svc_start sample_stream_proxy) ?bound"
    by (rule svc_step.bind) simp
  moreover have "sample_svc_step ?bound sample_waiting"
    unfolding sample_waiting_def
    by (rule svc_step.incoming) (simp add: on_bind_def bind_listener_def sample_listener_def)
  moreover have "sample_svc_step sample_waiting sample_refreshed"
    unfolding sample_refreshed_def
    by (rule svc_step.tick)
      (simp_all add: sample_refreshed_def [symmetric], simp_all add: sample_refreshed_eq sample_waiting_eq fits_usize_def)
  moreover have "sample_svc_step\<^sup>*\<^sup>* sample_refreshed ((sample_poll ^^ 4) sample_refreshed)"
    by (rule sample_polls) (simp add: sample_refreshed_eq sample_waiting_eq)
  moreover have "sample_svc_step ((sample_poll ^^ 4) sample_refreshed) sample_ended"
  proof -
    have "svc_loop ((sample_poll ^^ n) sample_refreshed) = Accepting" for n
      by (induction n) (simp_all add: sample_refreshed_eq sample_waiting_eq sample_poll_def)
    then show ?thesis unfolding sample_ended_def by (intro svc_step.notice) simp_all
  qed
  ultimately show "sample_svc_step\<^sup>*\<^sup>* (svc_start sample_stream_proxy) sample_ended"
    by (meson converse_rtranclp_into_rtranclp rtranclp.rtrancl_into_rtrancl rtranclp_trans r_into_rtranclp)
  show "sample_svc_step\<^sup>*\<^sup>* sample_ended sample_done"
    unfolding sample_done_def by (rule sample_polls) (simp add: sample_ended_eq)
qed

lemma sample_service_lifted:
  assumes "sample_svc_step\<^sup>*\<^sup>* s s'" "ph \<noteq> Gone"
  shows "sample_proc_step\<^sup>*\<^sup>* (sample_process ph s sl) (sample_process ph s' sl)"
  using service_steps_run [of Release sample_listener sample_ops Ok sample_accept "\<lambda>_ _. sample_env" 0
      "\<lambda>_. Ok ()" "sample_process ph s sl" s s'] assms
  by (simp add: sample_process_def pr_notified_def signal_task_def handled_signals_def changed_returns_def)

lemma sample_runs:
  "sample_proc_reach (sample_process Waiting sample_ended [])"
  "sample_proc_step\<^sup>*\<^sup>* (sample_process Waiting sample_ended []) (sample_process Gone sample_done [Sleep 3, Sleep 2])"
  "sample_proc_reach (sample_process Gone sample_done [Sleep 3, Sleep 2])"
proof -
  have cfg: "server_config_ref sample_umay = sample_config RoundRobin (sample_server Tcp (Some sample_tls))"
    by (simp add: sample_umay_def)
  show a: "sample_proc_reach (sample_process Waiting sample_ended [])"
    using process_steps_reach [of Release sample_listener sample_ops Ok sample_accept "\<lambda>_ _. sample_env"
        "\<lambda>_. Ok ()" sample_umay, OF _ sample_spawned]
      sample_service_lifted [OF sample_service_run(1), of Waiting] cfg by simp
  let ?grace = "sample_process Grace_Period sample_ended []"
  have "sample_proc_step (sample_process Waiting sample_ended []) ?grace"
    using process_step.begin_shutdown [of "sample_process Waiting sample_ended []" "\<lambda>_. Ok ()"]
    by (simp add: sample_process_def pr_notified_def signal_task_def handled_signals_def changed_returns_def)
  moreover have "sample_proc_step\<^sup>*\<^sup>* ?grace (sample_process Grace_Period sample_done [])"
    by (rule sample_service_lifted [OF sample_service_run(2)]) simp
  moreover have "sample_proc_step (sample_process Grace_Period sample_done []) (sample_process Exit_Timeout sample_done [Sleep 3])"
    using process_step.grace_over [of "sample_process Grace_Period sample_done []" Release sample_listener sample_ops Ok
        sample_accept "\<lambda>_ _. sample_env" "\<lambda>_. Ok ()"
        "sample_config RoundRobin (sample_server Tcp (Some sample_tls))"]
    by (simp add: sample_process_def main_sleeps_def shutdown_grace_period_def from_secs_def sample_config_def)
  moreover have "sample_proc_step (sample_process Exit_Timeout sample_done [Sleep 3]) (sample_process Gone sample_done [Sleep 3, Sleep 2])"
    using process_step.exit_over [of "sample_process Exit_Timeout sample_done [Sleep 3]" Release sample_listener sample_ops Ok
        sample_accept "\<lambda>_ _. sample_env" "\<lambda>_. Ok ()"
        "sample_config RoundRobin (sample_server Tcp (Some sample_tls))"]
    by (simp add: sample_process_def main_sleeps_def exit_timeout_def from_secs_def sample_config_def)
  ultimately show b: "sample_proc_step\<^sup>*\<^sup>* (sample_process Waiting sample_ended [])
      (sample_process Gone sample_done [Sleep 3, Sleep 2])"
    by (meson converse_rtranclp_into_rtranclp rtranclp.rtrancl_into_rtrancl)
  show "sample_proc_reach (sample_process Gone sample_done [Sleep 3, Sleep 2])"
    by (rule process_steps_reach [OF _ a]) (use b cfg in simp)
qed

text \<open>While the connection is relayed.\<close>

lemma sample_relaying: "sample_proc_reach (sample_process Waiting ((sample_poll ^^ 3) sample_ended) [])"
proof -
  have "sample_svc_step\<^sup>*\<^sup>* sample_ended ((sample_poll ^^ 3) sample_ended)"
    by (rule sample_polls) (simp add: sample_ended_eq)
  from sample_service_lifted [OF this, of Waiting "[]"] show ?thesis
    using process_steps_reach [OF _ sample_runs(1)] by (simp add: sample_umay_def)
qed

lemma sample_relaying_eq: "svc_tasks ((sample_poll ^^ 3) sample_ended) =
   [\<lparr>task_io = 1, task_phase = Tcp_Relaying \<lparr>client_to_server = [Copied], server_to_client = [Copied],
        to_server = [1, 2], to_client = [], tcp_log = []\<rparr>,
     task_actions = [Dial (sample_addr 1)], task_choice = Some ([sample_backend 1], sample_backend 1)\<rparr>]"
  by (simp add: eval_nat_numeral sample_poll_def on_poll_eq Let_def sample_ended_eq
      task_poll.simps task_defs await_step_def act_first_def poll_answer_def new_pick_def set_balancer_def proxy_protocol_def
      sample_env_def tcp_start_def sample_cell(4) [unfolded proxy_protocol_def])

lemma sample_umay_started:
  "server_try_from sample_rustls sample_resolver sample_fs
     (sample_config RoundRobin (sample_server Tcp (Some sample_tls))) = Ok sample_umay"
  unfolding sample_umay_def by (rule sample_started)

lemma sample_terminate:
  "terminate Ok sample_accept (sp_tls_server sample_stream_proxy) 1
     = Some (Ok (Established None None, sample_stream 1))"
  by (simp add: terminate_def tls_call_def sample_accept_def terminate_poll_def classify_def
      sample_stream_def client_identity_def)

end
