(* ===== verification/Runtime_Theorems.thy ===== *)
theory Runtime_Theorems
  imports Sample_Run
begin

text \<open>
  The properties of the running process, over every interleaving of its tasks.
\<close>

section \<open>Connections\<close>

text \<open>
  C1. Safety of the whole process: whatever a connection has done outside at any moment was done
  after its own TLS handshake succeeded, and was to dial, or to accept the client's WebSocket and
  dial the URL of, the one backend it chose; that backend is a member of an answer this proxy's
  own discovery gave, which is strictly ascending with weights 1.
\<close>

theorem process_contacts_discovered:
  assumes "server_try_from api lib fs c = Ok srv"
    and "process_reach prof lo ops f accept envs register srv pr" "i < length (pr_services pr)"
    and "t \<in> set (svc_tasks (pr_services pr ! i))" "a \<in> set (task_actions t)"
  shows "\<exists>k ts l bs b.
    terminate f accept (sp_tls_server (stream_proxies srv ! i)) (task_io t) = Some (Ok (k, ts)) \<and>
    discover l (lb_discovery (sp_load_balancer (stream_proxies srv ! i))) = Ok bs \<and>
    task_choice t = Some (bs, b) \<and> b \<in> set bs \<and>
    a \<in> {Dial (addr b), Ws_Accept, Ws_Dial (ws_url (addr b))} \<and> sorted_wrt (<) bs \<and> unit_weights bs"
proof -
  note inv = started_service(2) [OF assms(1-3)]
  obtain j where "j < length (svc_tasks (pr_services pr ! i))" "t = svc_tasks (pr_services pr ! i) ! j"
    using assms(4) by (auto simp: in_set_conv_nth)
  then have "task_ok f accept (stream_proxies srv ! i) (envs i j) (set (svc_answers (pr_services pr ! i))) t"
    using svc_inv_task [OF inv] by simp
  then obtain k ts bs b where
    "terminate f accept (sp_tls_server (stream_proxies srv ! i)) (task_io t) = Some (Ok (k, ts))"
    "task_choice t = Some (bs, b)" "b \<in> set bs"
    "a \<in> {Dial (addr b), Ws_Accept, Ws_Dial (ws_url (addr b))}"
    and bs: "bs \<in> set (svc_answers (pr_services pr ! i))"
    using assms(5) by (rule task_ok_actions)
  with svc_inv_answer [OF inv bs] show ?thesis by (auto simp: bt_ok_def)
qed

theorem process_contacts_discovered_witness:
  "\<exists>k ts l bs b.
    terminate Ok sample_accept (sp_tls_server sample_stream_proxy) 1 = Some (Ok (k, ts)) \<and>
    discover l (lb_discovery (sp_load_balancer sample_stream_proxy)) = Ok bs \<and> b \<in> set bs \<and>
    addr b = sample_addr 1 \<and> sorted_wrt (<) bs"
  using process_contacts_discovered [OF sample_umay_started sample_runs(3), of 0 _ "Dial (sample_addr 1)"]
  by (fastforce simp: sample_process_def sample_done_eq sample_umay_def)

text \<open>
  C2. A connection that has finished was served as the sequential \<open>handle_connection\<close> says: if its
  handshake failed, with that failure and nothing done; otherwise it found no backends, or did
  exactly what serving the one backend it chose does and returned, under the schedule its session had.
\<close>

theorem finished_connection_served:
  assumes "server_try_from api lib fs c = Ok srv"
    and "process_reach prof lo ops f accept envs register srv pr" "i < length (pr_services pr)"
    and "j < length (svc_tasks (pr_services pr ! i))" "t = svc_tasks (pr_services pr ! i) ! j"
    and "task_phase t = Finished r"
  shows "case terminate f accept (sp_tls_server (stream_proxies srv ! i)) (task_io t) of
      None \<Rightarrow> False
    | Some (Err e) \<Rightarrow> r = Err e \<and> task_actions t = []
    | Some (Panic q) \<Rightarrow> r = Panic q \<and> task_actions t = []
    | Some (Ok (k, ts)) \<Rightarrow>
        (case task_choice t of
           None \<Rightarrow> r = Err (Msg ''No backends available'') \<and> task_actions t = []
         | Some (bs, b) \<Rightarrow> bs \<in> set (svc_answers (pr_services pr ! i)) \<and> b \<in> set bs \<and>
             (\<exists>sched. serve_backend (with_schedule sched (envs i j))
                (proxy_protocol (stream_proxies srv ! i)) ts b = (task_actions t, Some r)))"
  using svc_inv_task [OF started_service(2) [OF assms(1-3)] assms(4)] assms(5,6)
  by (auto simp: task_ok_def task_done_def split: option.splits outcome.splits)

theorem finished_connection_served_witness:
  "\<exists>sched. serve_backend (with_schedule sched (sample_env :: (nat, unit, unit, unit, nat) proxy_env))
     Tcp (sample_stream 1) (sample_backend 1) = ([Dial (sample_addr 1)], Some (Ok ()))"
  using finished_connection_served [OF sample_umay_started sample_runs(3), of 0 0 "svc_tasks sample_done ! 0" "Ok ()"]
  by (simp add: sample_process_def sample_done_eq sample_umay_def sample_terminate sample_cell del: One_nat_def)

text \<open>
  C9. Equivalence of the asynchronous task and the sequential function: a connection task polled
  alone, \<open>k\<close> times up to its session and then as \<open>sched\<close> says, leaves the balancer, the actions
  and the result of \<open>handle_connection\<close> in the environment whose sessions have that schedule.
\<close>

theorem task_alone_is_handle_connection:
  fixes p :: "('sn, 'scfg, 'r) stream_proxy" and env :: "('io, 'up, 'cws, 'uws, 'm) proxy_env"
  shows "\<exists>k t'. fold (task_poll prof draw (with_schedule sched env) (proxy_protocol p))
      (replicate k Client_Branch @ sched) (sp_load_balancer p, task_spawn f accept p io)
    = (sp_load_balancer (snd (handle_connection prof (terminate f accept) (with_schedule sched env) draw p io)), t') \<and>
    (task_actions t', task_result t')
    = fst (handle_connection prof (terminate f accept) (with_schedule sched env) draw p io)"
proof -
  let ?h = "handle_connection prof (terminate f accept) (with_schedule sched env) draw p io"
  obtain k and t' :: "('sn, 'io, 'cws, 'm) conn_task"
    where run: "task_run prof draw (with_schedule sched env) (proxy_protocol p)
        (replicate k Client_Branch @ sched) (sp_load_balancer p, task_spawn f accept p io)
        = (sp_load_balancer (snd ?h), t')"
      and res: "task_actions t' = fst (fst ?h)" "task_result t' = snd (fst ?h)"
    using task_computes_handle_connection [of prof draw sched env p f accept io]
    by (auto simp: computes_def task_spawn_def)
  then show ?thesis
    by (intro exI [of _ k] exI [of _ t']) (simp add: task_run_def)
qed

text \<open>
  C10. A TCP connection finishes under every interleaving: whatever states of the balancer its polls
  meet, a task whose handshake settles, whose dials settle within \<open>m\<close> polls and whose sessions
  copy at most \<open>n\<close> steps from the client has finished after \<open>length hs + 2 + m + n\<close> polls of it
  with the client's copy in turn, where \<open>hs\<close> are the polls of the handshake.
\<close>

theorem tcp_task_finishes:
  assumes "proxy_protocol p = Tcp" "await (tls_call f accept (sp_tls_server p) io) \<noteq> None"
    and "\<And>a. await (tcp_connect env a) \<noteq> None \<and> length (tcp_connect env a) \<le> m"
    and "\<And>ts up. copy_ends (fst (snd (tcp_run env ts up))) \<and> length (fst (snd (tcp_run env ts up))) \<le> n"
    and "length (tls_call f accept (sp_tls_server p) io) + 2 + m + n
      \<le> length (filter (\<lambda>(lb, draw, br). br = Client_Branch) polls)"
  shows "\<exists>r. task_phase (fold (\<lambda>(lb, draw, br) t. snd (task_poll prof draw env Tcp br (lb, t))) polls
    (task_spawn f accept p io)) = Finished r"
proof (rule task_fuel_enough)
  show "settles env m n" using assms(3,4) by (simp add: settles_def)
qed (use assms(2,5) in \<open>simp_all add: task_spawn_def\<close>)

theorem tcp_task_finishes_witness:
  "\<exists>r. task_phase (fold (\<lambda>(lb, draw, br) t. snd (task_poll Release draw sample_env Tcp br (lb, t)))
     (replicate 8 (sp_load_balancer sample_stream_proxy, \<lambda>_. 0, Client_Branch))
     (task_spawn Ok sample_accept sample_stream_proxy 1)) = Finished r"
  by (rule tcp_task_finishes [where m = 2 and n = 2])
    (simp_all add: sample_cell sample_env_def tls_call_def sample_accept_def terminate_poll_def classify_def
      sample_stream_def)



section \<open>Services\<close>

text \<open>
  C4. Fair sharing under concurrency: in the order in which the connections of a round robin
  service chose, \<open>k\<close> rounds of choices from the same backends give each of them exactly \<open>k\<close>
  connections, however choices, refreshes, relaying and new connections interleave, until
  \<open>2^64\<close> choices have been made; every connection that has chosen counts once.
\<close>

theorem concurrent_round_robin_fair:
  assumes "server_try_from api lib fs c = Ok srv"
    and "process_reach prof lo ops f accept envs register srv pr" "i < length (pr_services pr)"
    and "s = pr_services pr ! i"
    and "lb_selection (sp_load_balancer (stream_proxies srv ! i)) = Sel_Round_Robin rr_default"
    and "map fst (take (k * length bs) (drop j (svc_picks s))) = replicate (k * length bs) bs"
    and "b \<in> set bs" "j + k * length bs \<le> 2 ^ 64"
  shows "count_list (map snd (take (k * length bs) (drop j (svc_picks s)))) b = k \<and>
    mset (svc_picks s) = mset (List.map_filter task_choice (svc_tasks s))"
proof -
  note inv = started_service(2) [OF assms(1-3), folded assms(4)]
  have picked: "svc_picked (stream_proxies srv ! i) s" using inv by (simp add: svc_inv_def)
  then have m: "mset (svc_picks s) = mset (List.map_filter task_choice (svc_tasks s))"
    by (simp add: svc_picked_def)
  let ?w = "take (k * length bs) (drop j (svc_picks s))"
  have walk: "map snd ?w = map (\<lambda>x. bs ! ((j + x) mod length bs)) [0..<k * length bs]"
    by (rule window_walks_round [OF assms(6,8) svc_picked_index [OF picked assms(5)]])
  have ne: "0 < length bs" using assms(7) by (rule length_pos_if_in_set)
  have "count_list (map snd ?w) b = k"
  proof (cases "k = 0")
    case True
    then show ?thesis by simp
  next
    case False
    with ne have "bs \<in> set (replicate (k * length bs) bs)" by simp
    then obtain pb where "pb \<in> set ?w" "fst pb = bs" unfolding assms(6) [symmetric] by auto
    then have "(bs, snd pb) \<in> set (svc_picks s)" by (metis in_set_takeD in_set_dropD prod.collapse)
    then have "bt_ok bs" by (intro svc_inv_answer(2) [OF inv] svc_picks_answers(1) [OF inv])
    then have "distinct bs" by (rule bts.distinct_iter)
    then have "count_list bs b = 1" using assms(7) by (rule count_list_distinct)
    then show ?thesis unfolding walk count_list_cyclic [OF ne] by simp
  qed
  with m show ?thesis by simp
qed

theorem concurrent_round_robin_fair_witness:
  "count_list (map snd (take (1 * length [sample_backend 1]) (drop 0 (svc_picks sample_done)))) (sample_backend 1) = 1 \<and>
   mset (svc_picks sample_done) = mset (List.map_filter task_choice (svc_tasks sample_done))"
  by (rule concurrent_round_robin_fair [OF sample_umay_started sample_runs(3), of 0])
    (simp_all add: sample_process_def sample_umay_def sample_cell sample_done_eq sample_ended_eq)

text \<open>
  C5. The accept loop of every service of a running process refines \<open>run_service\<close>: with its tasks
  and the others interleaved, it has spawned one task per socket accepted and set up, in order,
  and has ended, or not, as \<open>run_service\<close> does on what came in; it ends well only on the
  shutdown notice, and before the listener is bound nothing was accepted.
\<close>

theorem service_refines_accept_loop:
  assumes "server_try_from api lib fs c = Ok srv"
    and "process_reach prof lo ops f accept envs register srv pr" "i < length (pr_services pr)"
    and "s = pr_services pr ! i"
  shows "(svc_loop s = Binding \<longrightarrow> svc_tasks s = []) \<and>
    (svc_loop s \<noteq> Binding \<longrightarrow>
       (\<exists>log. run_service lo ops (proxy_port (stream_proxies srv ! i)) (svc_events s)
          = (loop_result (svc_loop s), log) \<and> map task_io (svc_tasks s) = spawned log)) \<and>
    (svc_loop s = Ended (Ok ()) \<longrightarrow> changed_returns (signal_task register (pr_signals pr)))"
proof -
  have "svc_looped lo ops (stream_proxies srv ! i) s"
    using started_service(2) [OF assms(1-3)] assms(4) by (simp add: svc_inv_def)
  then show ?thesis
    using started_service(3) [OF assms(1-3)] assms(4)
    by (auto simp: svc_looped_def pr_notified_def split: if_splits)
qed

theorem service_refines_accept_loop_witness:
  "\<exists>log. run_service sample_listener sample_ops (proxy_port sample_stream_proxy)
     [Incoming (Some (Ok 1)), Shutdown_Notice] = (Some (Ok ()), log) \<and> spawned log = [1]"
  using service_refines_accept_loop [OF sample_umay_started sample_runs(3), of 0 sample_done]
  by (auto simp: sample_process_def sample_umay_def sample_done_eq sample_ended_eq)

text \<open>
  C12. The shutdown notice stops a service for good: once the notice has come to the accept loop of a
  service, \<open>run_service\<close> has returned \<open>Ok\<close>, the notice is the last thing that came in, and
  however long the process goes on the service accepts nothing more and spawns no further task.
\<close>

theorem notice_stops_accepting:
  assumes "server_try_from api lib fs c = Ok srv"
    and "process_reach prof lo ops f accept envs register srv pr" "i < length (pr_services pr)"
    and "Shutdown_Notice \<in> set (svc_events (pr_services pr ! i))"
    and "(process_step prof lo ops f accept envs register c)\<^sup>*\<^sup>* pr pr'"
  shows "svc_loop (pr_services pr' ! i) = Ended (Ok ()) \<and>
    svc_events (pr_services pr' ! i) = svc_events (pr_services pr ! i) \<and>
    map task_io (svc_tasks (pr_services pr' ! i)) = map task_io (svc_tasks (pr_services pr ! i)) \<and>
    (\<exists>items. svc_events (pr_services pr ! i) = items @ [Shutdown_Notice] \<and> Shutdown_Notice \<notin> set items)"
proof -
  let ?s = "pr_services pr ! i"
  have "svc_looped lo ops (stream_proxies srv ! i) ?s"
    using started_service(2) [OF assms(1-3)] by (simp add: svc_inv_def)
  then have ended: "svc_loop ?s = Ended (Ok ())" and last: "Shutdown_Notice \<notin> set (butlast (svc_events ?s))"
    using assms(4) by (simp_all add: svc_looped_def)
  then have "svc_events ?s = butlast (svc_events ?s) @ [Shutdown_Notice]"
    using assms(4) by (cases "svc_events ?s" rule: rev_cases) auto
  with last process_steps_ended [OF assms(5,3) ended] show ?thesis by blast
qed

theorem notice_stops_accepting_witness:
  "svc_loop sample_done = Ended (Ok ()) \<and>
   (\<exists>items. [Incoming (Some (Ok 1)), Shutdown_Notice] = items @ [Shutdown_Notice] \<and>
      Shutdown_Notice \<notin> set (items :: nat service_event list))"
  using notice_stops_accepting [OF sample_umay_started sample_runs(1) _ _ sample_runs(2), of 0]
  by (simp add: sample_process_def sample_ended_eq)

text \<open>
  C11. Well-formedness of the data of every service at every moment: its balancer holds the latest
  answer of its discovery, an ascending set of distinct addresses with weights 1, and an
  algorithm that is implemented; its protocol is TCP or WebSocket, and a connection is in a phase
  of that protocol only, with a choice from the set it chose from.
\<close>

theorem running_service_well_formed:
  assumes "server_try_from api lib fs c = Ok srv"
    and "process_reach prof lo ops f accept envs register srv pr" "i < length (pr_services pr)"
    and "s = pr_services pr ! i"
  shows "sorted_wrt (<) (cell (svc_balancer s)) \<and> unit_weights (cell (svc_balancer s)) \<and>
    distinct (map addr (cell (svc_balancer s))) \<and> implemented (lb_selection (svc_balancer s)) \<and>
    cell (svc_balancer s) = (case svc_answers s of [] \<Rightarrow> [] | bs # _ \<Rightarrow> bs) \<and>
    proxy_protocol (svc_proxy s) \<in> {Tcp, Ws} \<and>
    list_all (\<lambda>t. (case task_phase t of
          Connecting ts b n \<Rightarrow> proxy_protocol (svc_proxy s) = Tcp
        | Tcp_Relaying r \<Rightarrow> proxy_protocol (svc_proxy s) = Tcp
        | Ws_Accepting ts b n \<Rightarrow> proxy_protocol (svc_proxy s) = Ws
        | Ws_Connecting ws b n \<Rightarrow> proxy_protocol (svc_proxy s) = Ws
        | Ws_Relaying r \<Rightarrow> proxy_protocol (svc_proxy s) = Ws
        | _ \<Rightarrow> True) \<and>
      (case task_choice t of None \<Rightarrow> True | Some (bs, b) \<Rightarrow> b \<in> set bs)) (svc_tasks s)"
proof -
  let ?p = "stream_proxies srv ! i"
  note inv = started_service(2) [OF assms(1-3), folded assms(4)]
  have lb: "bt_ok (cell (svc_balancer s))" "unit_weights (cell (svc_balancer s))"
    "implemented (lb_selection (svc_balancer s))"
    "cell (svc_balancer s) = (case svc_answers s of [] \<Rightarrow> [] | bs # _ \<Rightarrow> bs)"
    using inv unfolding svc_inv_def svc_balanced_def lb_ok_def by blast+
  have addrs: "distinct (map addr (cell (svc_balancer s)))"
    using bts.distinct_iter [OF lb(1)] lb(2) by (simp add: distinct_map unit_weights_addr_inj)
  have proto: "proxy_protocol (svc_proxy s) = proxy_protocol ?p"
    using inv by (simp add: svc_inv_def svc_settled_protocol)
  have tcp: "proxy_protocol (svc_proxy s) \<in> {Tcp, Ws}"
    using proto started_service(4) [OF assms(1-3)] by simp
  show ?thesis
    unfolding list_all_length proto
    using lb addrs tcp task_ok_well_formed [OF svc_inv_task [OF inv]] by (simp add: bt_ok_def proto)
qed

theorem running_service_well_formed_witness:
  "distinct (map addr (cell (svc_balancer sample_done))) \<and> proxy_protocol (svc_proxy sample_done) \<in> {Tcp, Ws}"
proof -
  let ?pr = "sample_process Gone sample_done [Sleep 3, Sleep 2]"
  have "0 < length (pr_services ?pr)" "sample_done = pr_services ?pr ! 0"
    by (simp_all add: sample_process_def)
  from running_service_well_formed [OF sample_umay_started sample_runs(3) this] show ?thesis by blast
qed

section \<open>The main task\<close>

text \<open>
  C6. The main task refines \<open>run\<close>: when all proxies are spawned and it waits, it has done what
  \<open>run\<close> does without the notice, and when it is gone what \<open>run\<close> does with it; it leaves the
  wait only on the notice of the signal task, and before it ends it sleeps the grace period and
  the exit timeout, during which connections go on.
\<close>

theorem main_refines_run:
  assumes "server_try_from api lib fs c = Ok srv"
    and "process_reach prof lo ops f accept envs register srv pr"
  shows "(pr_main pr = Waiting \<longrightarrow> server_run srv False = (pr_effects pr, None)) \<and>
    (pr_main pr = Gone \<longrightarrow> server_run srv True = (pr_effects pr, Some (Ok ()))) \<and>
    (pr_main pr \<in> {Grace_Period, Exit_Timeout, Gone} \<longrightarrow>
       changed_returns (signal_task register (pr_signals pr)) \<and>
       length (pr_services pr) = length (stream_proxies srv)) \<and>
    time_slept (pr_effects pr) =
      (if pr_main pr = Gone then unat (shutdown_grace_period_secs c) + unat (exit_timeout_secs c)
       else if pr_main pr = Exit_Timeout then unat (shutdown_grace_period_secs c) else 0)"
  using main_inv_effects [OF process_reach_inv(1) [OF assms(2)] server_try_from_config [OF assms(1)]]
    server_try_from_proxies(2) [OF assms(1)]
  by (auto simp: proxy_ok_def)

theorem main_refines_run_witness:
  "server_run sample_umay True = ([Spawn_Refresh 443 30, Spawn_Service 443, Sleep 3, Sleep 2], Some (Ok ()))"
  using main_refines_run [OF sample_umay_started sample_runs(3)]
  by (simp add: sample_process_def)

end
