(* ===== verification/Balance_Theorems.thy ===== *)
theory Balance_Theorems
  imports Balancer
begin

text \<open>
  The properties of load balancing: what the algorithms pick, that picks come from the latest
  successful discovery, and that the refresh task keeps it through failures.
\<close>

section \<open>A sample balancer\<close>

text \<open>A balancer over two local backends, before and after its first tick.\<close>

definition sample_local :: "unit discovery" where
  "sample_local = Local_Discovery (with_backends [sample_addr 2, sample_addr 1])"

definition sample_balancer :: "selector \<Rightarrow> unit load_balancer" where
  "sample_balancer sel =
     \<lparr>lb_selection = sel,
      lb_backends = \<lparr>bk_discovery = sample_local, bk_cell = [sample_backend 1, sample_backend 2]\<rparr>\<rparr>"

lemma sample_balancer_reached:
  "lb_reach prof (lb_new (backends_new sample_local) sel)
     [[sample_backend 1, sample_backend 2]] (sample_balancer sel)"
proof -
  let ?b = "backends_new sample_local"
  have "discover (\<lambda>_ _. Ok []) (bk_discovery ?b) = Ok [sample_backend 1, sample_backend 2]"
    by (simp add: sample_local_def local_discover_def with_backends_def bt_collect_def sample_backend_def [symmetric])
  then show ?thesis
    using lb_reach.tick_ok [OF lb_reach.start [of prof "lb_new ?b sel"], of "\<lambda>_ _. Ok []"]
    by (fastforce simp: sample_balancer_def lb_new_def backends_new_def refresh_answered)
qed

lemma sample_balancer_simps [simp]:
  "cell (sample_balancer sel) = [sample_backend 1, sample_backend 2]"
  "lb_selection (sample_balancer sel) = sel" "discovery_ok sample_local"
  "fits_usize [sample_backend 1, sample_backend 2]"
  by (simp_all add: sample_balancer_def sample_local_def fits_usize_def)

section \<open>Round robin\<close>

text \<open>
  C13. Round robin is fair: while the backends stay the same, every \<open>k\<close> rounds of picks through
  the balancer give each backend exactly \<open>k\<close> connections, wherever the index starts, unless the
  index wraps round on the way and the number of backends does not divide its range.
\<close>

theorem round_robin_fair:
  assumes "lb_selection lb = Sel_Round_Robin rr" "bt_ok (cell lb)" "b \<in> set (cell lb)"
    and "no_harmful_wrap (rr_index rr) (length (cell lb)) (k * length (cell lb))"
  shows "count_list (fst (calls (lb_select prof draw key) (k * length (cell lb)) lb)) (Ok (Some b)) = k"
proof -
  have ne: "cell lb \<noteq> []" using assms(3) by auto
  have inj: "count_list (map Ok xs) (Ok x) = count_list xs x" for xs and x :: "backend option"
    by (induction xs) auto
  have "count_list (cell lb) b = 1"
    using assms(2,3) count_list_distinct [of "cell lb" b] bts.distinct_iter [of "cell lb"] by simp
  then show ?thesis
    using rr_calls_count [OF ne assms(4), of b] calls_lb_round_robin [OF ne assms(1)]
    by (simp add: inj)
qed

theorem round_robin_fair_witness:
  "count_list (fst (calls (lb_select Release (\<lambda>_. 0) None) (2 * 2) (sample_balancer (Sel_Round_Robin rr_default))))
     (Ok (Some (sample_backend 2))) = 2"
  using round_robin_fair [of "sample_balancer (Sel_Round_Robin rr_default)" rr_default "sample_backend 2" 2
      Release "\<lambda>_. 0" None]
  by (simp add: bt_ok_def no_harmful_wrap_def rr_default_def)

text \<open>
  Where fairness ends: when the index of round robin wraps, the pick before it is backend
  \<open>(2^64 - 1) mod n\<close> and the pick after it backend 0; with three backends that is the same
  backend twice in a row.
\<close>

theorem round_robin_wrap_repeats:
  "fst (calls (\<lambda>s. rr_select s [a, b, c]) 2 \<lparr>rr_index = 0xFFFFFFFFFFFFFFFF\<rparr>) = [Some a, Some a]"
proof -
  have "calls f 2 st = (let (r, st1) = f st; (r', st2) = f st1 in ([r, r'], st2))"
    for f :: "round_robin \<Rightarrow> backend option \<times> round_robin" and st
    by (simp add: numeral_2_eq_2 case_prod_unfold Let_def)
  then show ?thesis
    by (simp add: rr_select_def nth_opt_def Let_def)
qed

section \<open>Weighted round robin\<close>

text \<open>
  C14. Weighted round robin is fair by weight: every \<open>k\<close> rounds of \<open>total_weight\<close> picks give
  each backend \<open>k\<close> times its weight, a backend of weight 0 nothing; each pick is the backend at
  the index modulo the total in the list where each backend stands as often as it weighs.
\<close>

theorem weighted_round_robin_fair:
  assumes "bt_ok bs" "b \<in> set bs" "total_weight bs < 2 ^ 64" "0 < total_weight bs"
    and "no_harmful_wrap (wrr_index st) (total_weight bs) (k * total_weight bs)"
  shows "count_list (fst (calls (\<lambda>s. wrr_select prof s bs) (k * total_weight bs) st)) (Ok (Some b))
           = k * unat (weight b) \<and>
    fst (wrr_select prof st bs)
           = Ok (Some (expanded bs ! (unat (wrr_index st) mod total_weight bs)))"
  using wrr_calls_count [OF assms(3-5), of prof b] wrr_select_eq [OF assms(3,4), of prof st]
    count_expanded [of bs b] bts.distinct_iter [OF assms(1)] assms(2) by simp

theorem weighted_round_robin_fair_witness:
  "count_list (fst (calls (\<lambda>s. wrr_select Debug s [backend_new (sample_addr 1) 3, backend_new (sample_addr 2) 0])
     (2 * 3) wrr_default)) (Ok (Some (backend_new (sample_addr 1) 3))) = 6"
  using weighted_round_robin_fair [of "[backend_new (sample_addr 1) 3, backend_new (sample_addr 2) 0]"
      "backend_new (sample_addr 1) 3" wrr_default 2 Debug]
  by (simp add: bt_ok_def no_harmful_wrap_def wrr_default_def total_weight_def backend_new_def
      sample_addr_def less_backend_ext_def less_prod_def less_socket_addr_def
      less_eq_socket_addr_def)

text \<open>
  C22. The bound of the weights, for any backends and any index: a debug build panics exactly when
  the weights add up to \<open>2^64\<close> or more; a release build goes on with the total modulo \<open>2^64\<close>,
  gives nothing if that is 0 and else picks from the first so many slots only.
\<close>

theorem weighted_total_wraps:
  "fst (wrr_select prof st bs) =
     (if prof = Debug \<and> 2 ^ 64 \<le> total_weight bs then Panic ''attempt to add with overflow''
      else if total_weight bs mod 2 ^ 64 = 0 then Ok None
      else Ok (Some (expanded bs ! (unat (wrr_index st) mod (total_weight bs mod 2 ^ 64)))))"
proof -
  let ?t = "sum_list (map weight bs)"
  have t: "unat ?t = total_weight bs mod 2 ^ 64"
    by (simp add: unat_sum_list total_weight_def comp_def)
  then have "?t = 0 \<longleftrightarrow> total_weight bs mod 2 ^ 64 = 0" by (metis unat_eq_0)
  moreover have "wrr_scan (wrr_index st mod ?t) bs
      = Some (expanded bs ! (unat (wrr_index st) mod (total_weight bs mod 2 ^ 64)))" if "?t \<noteq> 0"
  proof -
    have "unat (wrr_index st) mod unat ?t < unat ?t" using that by (simp add: unat_gt_0)
    also have "\<dots> \<le> length (expanded bs)" by (simp add: t length_expanded)
    finally show ?thesis by (simp add: wrr_scan_expanded unat_mod t nth_opt_def)
  qed
  ultimately show ?thesis
    by (auto simp: wrr_select_def usize_sum_eq total_weight_def comp_def)
qed

text \<open>
  C31. No discovery gives a weight other than 1, so a balancer with weighted round robin picks
  exactly what round robin would pick from the same index, and moves to the same index.
\<close>

theorem weighted_is_round_robin:
  assumes "lb_reach prof (lb_new (backends_new d) sel) hist lb" "discovery_ok d" "implemented sel"
    and "fits_usize (cell lb)" "lb_selection lb = Sel_Weighted w"
  shows "lb_select prof draw key lb =
    (let (r, lb') = lb_select prof draw key
           (lb\<lparr>lb_selection := Sel_Round_Robin \<lparr>rr_index = wrr_index w\<rparr>\<rparr>)
     in case lb_selection lb' of Sel_Round_Robin s \<Rightarrow>
          (r, lb\<lparr>lb_selection := Sel_Weighted \<lparr>wrr_index = rr_index s\<rparr>\<rparr>))"
proof (cases "cell lb = []")
  case True
  then show ?thesis using assms(5) by (simp add: lb_select_empty)
next
  case False
  have "lb_ok lb" using lb_reach_ok [OF assms(1)] assms(2,3) by simp
  then have u: "unit_weights (cell lb)" by (simp add: lb_ok_def)
  have "length (cell lb) < 2 ^ 64" using assms(4) by (simp add: fits_usize_def)
  then have "wrr_select prof w (cell lb) =
      (Ok (Some (cell lb ! (unat (wrr_index w) mod length (cell lb)))), w\<lparr>wrr_index := wrr_index w + 1\<rparr>)"
    using wrr_select_eq [of "cell lb" prof w] u False by simp
  then show ?thesis
    using False assms(5)
    by (simp add: lb_select_nonempty rr_select_nonempty)
qed

theorem weighted_is_round_robin_witness:
  "fst (lb_select Debug (\<lambda>_. 0) None (sample_balancer (Sel_Weighted \<lparr>wrr_index = 1\<rparr>)))
     = Ok (Some (sample_backend 2))"
  by (subst weighted_is_round_robin [OF sample_balancer_reached, where w = "\<lparr>wrr_index = 1\<rparr>"])
    (simp_all add: lb_select_nonempty rr_select_nonempty)

section \<open>Random\<close>

text \<open>
  C23. Random selection is as uniform as its generator: each backend is picked for exactly one of
  the values below the number of backends, namely whenever \<open>gen_range\<close>, asked for a value below
  that number, draws it; so a generator that draws every such value alike picks every backend alike.
\<close>

theorem random_draws_uniform:
  assumes "bt_ok bs" "fits_usize bs" "b \<in> set bs"
  shows "\<exists>!v. v < of_nat (length bs) \<and>
    (\<forall>draw. rng_ok draw \<longrightarrow> (random_select draw bs = Some b \<longleftrightarrow> draw (of_nat (length bs)) = v))"
proof -
  let ?n = "of_nat (length bs) :: usize"
  have d: "distinct bs" using assms(1) by (rule bts.distinct_iter)
  obtain i where i: "i < length bs" "bs ! i = b" using assms(3) by (auto simp: in_set_conv_nth)
  have len: "unat ?n = length bs"
    using assms(2) by (simp add: fits_usize_def unat_of_nat_usize)
  have iu: "unat (of_nat i :: usize) = i"
    using i(1) assms(2) by (simp add: fits_usize_def unat_of_nat_usize)
  have picks: "random_select draw bs = Some b \<longleftrightarrow> draw ?n = of_nat i" if "rng_ok draw" for draw
  proof -
    have "0 < ?n" using i(1) len by (auto simp: word_less_nat_alt)
    with that have "draw ?n < ?n" by (simp add: rng_ok_def)
    then have "unat (draw ?n) < length bs" using len by (simp add: word_less_nat_alt)
    then have "random_select draw bs = Some b \<longleftrightarrow> unat (draw ?n) = i"
      using i d nth_eq_iff_index_eq [of bs "unat (draw ?n)" i] by (auto simp: random_select_def)
    then show ?thesis using iu by (simp add: word_unat_eq_iff)
  qed
  show ?thesis
  proof (rule ex1I [of _ "of_nat i"])
    show "of_nat i < ?n \<and> (\<forall>draw. rng_ok draw \<longrightarrow>
        (random_select draw bs = Some b \<longleftrightarrow> draw ?n = of_nat i))"
      using picks i(1) iu len by (simp add: word_less_nat_alt)
    fix v
    assume v: "v < ?n \<and> (\<forall>draw. rng_ok draw \<longrightarrow> (random_select draw bs = Some b \<longleftrightarrow> draw ?n = v))"
    have "rng_ok (\<lambda>n. if n = ?n then v else 0)" using v by (auto simp: rng_ok_def)
    with picks v show "v = of_nat i" by fastforce
  qed
qed

theorem random_draws_uniform_witness:
  "\<exists>!v. v < of_nat (length [sample_backend 1, sample_backend 2]) \<and>
     (\<forall>draw. rng_ok draw \<longrightarrow> (random_select draw [sample_backend 1, sample_backend 2] = Some (sample_backend 2)
        \<longleftrightarrow> draw (of_nat (length [sample_backend 1, sample_backend 2])) = v))"
  by (rule random_draws_uniform) (simp_all add: bt_ok_def)

section \<open>Least connections\<close>

text \<open>
  Least connections picks the first backend, in address order, among those with the fewest
  counted connections, and nothing exactly when there is no backend.
\<close>

theorem least_connections_first_least:
  "(lc_select st bs = Some b \<longleftrightarrow>
      (\<exists>us vs. bs = us @ b # vs \<and>
         set us \<subseteq> {u. conn_count st (addr b) < conn_count st (addr u)} \<and>
         set vs \<subseteq> {v. conn_count st (addr b) \<le> conn_count st (addr v)})) \<and>
   (lc_select st bs = None \<longleftrightarrow> bs = [])"
proof -
  have "lc_select st bs = Some b \<longleftrightarrow> first_least (\<lambda>b. conn_count st (addr b)) bs b"
    by (simp add: lc_select_def min_by_key_Some_iff)
  then show ?thesis by (simp add: first_least_def lc_select_def subset_iff Ball_def)
qed

text \<open>
  C21. The counters of least connections refine the number of open connections per backend: any
  history of fewer than \<open>2^64\<close> events runs through without a panic in a debug or a release
  build, closing a connection that is not counted does nothing, and the counters then read what
  the history opened and has not closed.
\<close>

theorem least_connections_counts:
  assumes "length evs < 2 ^ 64"
  shows "\<exists>st. try_fold (lc_event prof) lc_default evs = Ok st \<and>
     (\<lambda>a. unat (conn_count st a)) = foldl open_step (\<lambda>_. 0) evs"
  using lc_run_counts [of lc_default "\<lambda>_. 0" evs prof] assms by (auto simp: fun_eq_iff)

theorem least_connections_counts_witness:
  "\<exists>st. try_fold (lc_event Debug) lc_default
       [Opened (sample_addr 1), Opened (sample_addr 1), Closed (sample_addr 1), Closed (sample_addr 2)] = Ok st \<and>
     unat (conn_count st (sample_addr 1)) = 1 \<and> unat (conn_count st (sample_addr 2)) = 0"
proof -
  let ?evs = "[Opened (sample_addr 1), Opened (sample_addr 1), Closed (sample_addr 1), Closed (sample_addr 2)]"
  have "length ?evs < 2 ^ 64" by simp
  from least_connections_counts [OF this, of Debug]
  obtain st where "try_fold (lc_event Debug) lc_default ?evs = Ok st"
    "(\<lambda>a. unat (conn_count st a)) = foldl open_step (\<lambda>_. 0) ?evs" by blast
  then show ?thesis by (intro exI [of _ st]) (simp add: fun_eq_iff)
qed

text \<open>
  C32. A balancer never counts a connection: whatever ticks and picks come first, one built with
  least connections picks the backend with the least address, every time.
\<close>

theorem least_connections_never_spreads:
  assumes "lb_reach prof lb0 hist lb" "lb_selection lb0 = Sel_Least_Conn lc_default"
  shows "lb_select prof draw key lb = (Ok (case cell lb of [] \<Rightarrow> None | b # _ \<Rightarrow> Some b), lb)"
proof (cases "cell lb = []")
  case True
  then show ?thesis by (simp add: lb_select_empty)
next
  case False
  have "lb_selection lb = Sel_Least_Conn lc_default"
    by (rule lb_reach_least_conn [OF assms])
  with False show ?thesis
    by (simp add: lb_select_nonempty lc_select_unused)
qed

theorem least_connections_never_spreads_witness:
  "fst (lb_select Debug (\<lambda>_. 0) None (sample_balancer (Sel_Least_Conn lc_default)))
     = Ok (Some (sample_backend 1))"
  by (subst least_connections_never_spreads [OF sample_balancer_reached]) simp_all

section \<open>Picks and discovery\<close>

text \<open>
  C7. However ticks and picks interleave, a pick comes from the latest answer of the discovery:
  with any implemented algorithm it is one of the backends of that answer, it is \<open>None\<close>
  exactly before the first successful tick or when that answer was empty, and it never panics.
\<close>

theorem pick_from_latest_discovery:
  assumes "lb_reach prof (lb_new (backends_new d) sel) hist lb"
    and "discovery_ok d" "implemented sel" "rng_ok draw" "fits_usize (cell lb)"
  shows "fst (lb_select prof draw key lb) \<in>
    (case hist of
       [] \<Rightarrow> {Ok None}
     | bs # _ \<Rightarrow> if bs = [] then {Ok None} else (\<lambda>b. Ok (Some b)) ` set bs)"
proof -
  have ok: "lb_ok lb" using lb_reach_ok [OF assms(1)] assms(2,3) by simp
  have c: "cell lb = (case hist of [] \<Rightarrow> [] | bs # _ \<Rightarrow> bs)"
    using lb_reach_cell [OF assms(1)] by (simp split: list.splits)
  show ?thesis
  proof (cases "cell lb = []")
    case True
    with c show ?thesis by (auto simp: lb_select_empty split: list.splits)
  next
    case False
    with c lb_select_some [OF ok assms(4,5)] show ?thesis by (auto split: list.splits)
  qed
qed

theorem pick_from_latest_discovery_witness:
  "fst (lb_select Release (\<lambda>_. 0) None (sample_balancer (Sel_Round_Robin rr_default)))
     \<in> {Ok (Some (sample_backend 1)), Ok (Some (sample_backend 2))}"
  using pick_from_latest_discovery [OF sample_balancer_reached, of "Sel_Round_Robin rr_default" "\<lambda>_. 0"
      Release None]
  by (simp add: rng_ok_def)

text \<open>
  C15. A DNS upstream stays available: after a tick whose lookup of the host answered at least one
  address, whatever ticks and picks came before it, and with only picks and failing or empty
  lookups after it, a pick succeeds and gives one of the addresses of that answer, with the
  configured port and weight 1.
\<close>

theorem dns_upstream_stays_available:
  assumes "l (resolver d) (hostname d) = Ok ips" "ips \<noteq> []" "fits_usize ips"
    and "\<And>l'. Tick l' \<in> set after \<Longrightarrow>
      l' (resolver d) (hostname d) = Ok [] \<or> (\<exists>e. l' (resolver d) (hostname d) = Err e)"
    and "lb = fold (lb_step prof) (before @ Tick l # after) (lb_new (backends_new (Dns_Discovery d)) sel)"
    and "implemented sel" "rng_ok draw"
  shows "\<exists>ip\<in>set ips. fst (lb_select prof draw key lb)
    = Ok (Some (backend_new (socket_new ip (dns_port d)) 1))"
proof -
  let ?lb = "lb_new (backends_new (Dns_Discovery d)) sel"
  let ?bs = "bt_collect (map (\<lambda>ip. backend_new (socket_new ip (dns_port d)) 1) ips)"
  have "discover l (lb_discovery ?lb) = Ok ?bs"
    using assms(1,2) by (simp add: dns_discover_eq_Ok)
  moreover have "discover l' (lb_discovery ?lb) \<noteq> Ok bs" if "Tick l' \<in> set after" for l' bs
    using assms(4) [OF that] by (auto simp: dns_discover_eq_Ok)
  ultimately have c: "cell lb = ?bs" unfolding assms(5) by (intro lb_steps_answer)
  have "length ?bs \<le> length ips"
    by (metis bt_ok_collect bts.distinct_iter distinct_card set_bt_collect card_length length_map)
  with assms(3) c have "fits_usize (cell lb)" by (simp add: fits_usize_def)
  moreover have "lb_ok lb" unfolding assms(5) using assms(6) by (intro lb_steps_ok) simp
  ultimately have "\<exists>b\<in>set (cell lb). fst (lb_select prof draw key lb) = Ok (Some b)"
    using assms(2,7) c by (intro lb_select_some) simp_all
  with c show ?thesis by auto
qed

theorem dns_upstream_stays_available_witness:
  "\<exists>ip\<in>set [V4 (Ipv4Addr 10 0 0 1), V4 (Ipv4Addr 10 0 0 2)]. fst (lb_select Debug (\<lambda>_. 0) None
      (fold (lb_step Debug) ([Pick (\<lambda>_. 0) None, Tick (\<lambda>_ _. Err (Msg ''timeout''))]
           @ Tick (\<lambda>_ _. Ok [V4 (Ipv4Addr 10 0 0 1), V4 (Ipv4Addr 10 0 0 2)])
           # [Pick (\<lambda>_. 0) None, Tick (\<lambda>_ _. Err (Msg ''timeout'')), Tick (\<lambda>_ _. Ok [])])
         (lb_new (backends_new (Dns_Discovery \<lparr>resolver = (), hostname = ''web'', dns_port = 80\<rparr>))
            (Sel_Round_Robin rr_default))))
    = Ok (Some (backend_new (socket_new ip 80) 1))"
  by (rule dns_upstream_stays_available
      [of _ "\<lparr>resolver = (), hostname = ''web'', dns_port = 80\<rparr>", OF _ _ _ _ refl, simplified dns_discovery.simps])
    (auto simp: fits_usize_def rng_ok_def)

section \<open>The refresh task\<close>

text \<open>
  C29. The refresh task keeps the last good answer: after ticks of which the last success
  answered \<open>bs\<close>, the balancer holds \<open>bs\<close>, its selector untouched, and each failure after it
  has been logged and has not ended the task.
\<close>

theorem refresh_task_keeps_last_success:
  assumes "\<And>l. l \<in> set before \<Longrightarrow> \<not> is_panic (discover l (lb_discovery lb))"
    and "discover l (lb_discovery lb) = Ok bs"
    and "\<And>l. l \<in> set after \<Longrightarrow> \<exists>e. discover l (lb_discovery lb) = Err e"
  shows "cell (snd (refresh_task (before @ l # after) lb)) = bs \<and>
    lb_selection (snd (refresh_task (before @ l # after) lb)) = lb_selection lb \<and>
    length (fst (refresh_task (l # after) lb)) = length after"
proof -
  let ?lb = "snd (refresh_task before lb)"
  let ?lb' = "?lb\<lparr>lb_backends := (lb_backends ?lb)\<lparr>bk_cell := bs\<rparr>\<rparr>"
  have "refresh_task (l # after) m = refresh_task after (m\<lparr>lb_backends := (lb_backends m)\<lparr>bk_cell := bs\<rparr>\<rparr>)"
    if "lb_discovery m = lb_discovery lb" for m
    using assms(2) that by (simp add: refresh_def)
  moreover have "length (fst (refresh_task after m)) = length after \<and> snd (refresh_task after m) = m"
    if "lb_discovery m = lb_discovery lb" for m
    by (rule refresh_task_failures) (simp add: assms(3) that)
  ultimately show ?thesis
    using refresh_task_append [of before lb "l # after", OF assms(1)] by simp
qed

theorem refresh_task_keeps_last_success_witness:
  "cell (snd (refresh_task ([\<lambda>_ _. Err (Msg ''timeout'')] @ (\<lambda>_ _. Ok [V4 (Ipv4Addr 10 0 0 1)]) #
       [\<lambda>_ _. Err (Msg ''timeout''), \<lambda>_ _. Ok []])
     (lb_new (backends_new (Dns_Discovery \<lparr>resolver = (), hostname = ''web'', dns_port = 80\<rparr>)) Sel_Random)))
     = [sample_backend 1]"
  by (rule refresh_task_keeps_last_success [THEN conjunct1])
    (auto simp: dns_discover_def sample_backend_def sample_addr_def bt_collect_def)

end
