(* ===== verification/Pki.thy ===== *)
theory Pki
  imports Config
begin

text \<open>
  \<open>tls/pki.rs\<close>: \<open>TestPki\<close>, a certificate authority with a server and a client certificate for
  tests, and writing them to a directory. \<open>rcgen\<close> is a parameter; every \<open>unwrap\<close> turns an error
  into a panic. File operations are listed with the results the file system gives them.
\<close>

section \<open>Certificates\<close>

datatype dn_type = Organization_Name | Common_Name

datatype ca_kind = Ca_Unconstrained | No_Ca

datatype key_usage = Key_Cert_Sign | Digital_Signature | Crl_Sign

datatype ext_key_usage = Server_Auth | Client_Auth

text \<open>\<open>rcgen\<close>'s constant for the algorithm of the keys.\<close>

datatype signature_algorithm = Pkcs_Ecdsa_P256_Sha256

text \<open>
  The \<open>rcgen\<close> and \<open>rustls\<close> calls; the \<open>n\<close>-th key pair generated, for the algorithm \<open>alg\<close>, is
  \<open>generate_for alg n\<close>.
\<close>

record ('p, 'k, 'c, 'roots, 'cfg) rcgen_api =
  params_new :: "string list \<Rightarrow> 'p outcome"
  push_dn :: "'p \<Rightarrow> dn_type \<Rightarrow> string \<Rightarrow> 'p"
  set_is_ca :: "'p \<Rightarrow> ca_kind \<Rightarrow> 'p"
  set_key_usages :: "'p \<Rightarrow> key_usage list \<Rightarrow> 'p"
  set_ext_key_usages :: "'p \<Rightarrow> ext_key_usage list \<Rightarrow> 'p"
  set_serial_number :: "'p \<Rightarrow> u8 list \<Rightarrow> 'p"
  generate_for :: "signature_algorithm \<Rightarrow> nat \<Rightarrow> 'k outcome"
  self_signed :: "'p \<Rightarrow> 'k \<Rightarrow> 'c outcome"
  signed_by :: "'p \<Rightarrow> 'k \<Rightarrow> 'c \<Rightarrow> 'k \<Rightarrow> 'c outcome"
  cert_der :: "'c \<Rightarrow> u8 list"
  cert_pem :: "'c \<Rightarrow> u8 list"
  key_pem :: "'k \<Rightarrow> u8 list"
  key_der :: "'k \<Rightarrow> u8 list"
  root_store_add :: "u8 list \<Rightarrow> 'roots outcome"
  single_cert_config :: "u8 list list \<Rightarrow> u8 list \<Rightarrow> 'cfg outcome"
  set_key_log_file :: "'cfg \<Rightarrow> 'cfg"

fun unwrap :: "'a outcome \<Rightarrow> 'a outcome" where
  "unwrap (Ok x) = Ok x"
| "unwrap (Err e) = Panic ''called `Result::unwrap()` on an `Err` value''"
| "unwrap (Panic p) = Panic p"

lemma unwrap_not_Err [simp]: "unwrap r \<noteq> Err e"
  by (cases r) auto

lemma unwrap_eq_Ok [try_simps]: "unwrap r = Ok x \<longleftrightarrow> r = Ok x"
  by (cases r) auto

definition create_ca_cert ::
  "('p, 'k, 'c, 'roots, 'cfg) rcgen_api \<Rightarrow> ('c \<times> 'k) outcome" where
  "create_ca_cert api =
     (let alg = Pkcs_Ecdsa_P256_Sha256 in
     and_then (unwrap (params_new api [])) (\<lambda>params.
     let params = push_dn api params Organization_Name ''Rustls Server Acceptor'';
         params = push_dn api params Common_Name ''Test CA'';
         params = set_is_ca api params Ca_Unconstrained;
         params = set_key_usages api params [Key_Cert_Sign, Digital_Signature, Crl_Sign] in
     and_then (unwrap (generate_for api alg 0)) (\<lambda>key_pair.
     and_then (unwrap (self_signed api params key_pair)) (\<lambda>cert.
     Ok (cert, key_pair)))))"

definition create_server_cert ::
  "('p, 'k, 'c, 'roots, 'cfg) rcgen_api \<Rightarrow> 'c \<Rightarrow> 'k \<Rightarrow> ('c \<times> 'k) outcome" where
  "create_server_cert api ca_cert ca_key =
     and_then (unwrap (params_new api [''localhost''])) (\<lambda>params.
     let params = set_is_ca api params No_Ca;
         params = set_ext_key_usages api params [Server_Auth] in
     and_then (unwrap (generate_for api Pkcs_Ecdsa_P256_Sha256 1)) (\<lambda>key_pair.
     and_then (unwrap (signed_by api params key_pair ca_cert ca_key)) (\<lambda>cert.
     Ok (cert, key_pair))))"

definition create_client_cert ::
  "('p, 'k, 'c, 'roots, 'cfg) rcgen_api \<Rightarrow> 'c \<Rightarrow> 'k \<Rightarrow> ('c \<times> 'k) outcome" where
  "create_client_cert api ca_cert ca_key =
     and_then (unwrap (params_new api [])) (\<lambda>params.
     let params = push_dn api params Common_Name ''Test Client'';
         params = set_is_ca api params No_Ca;
         params = set_ext_key_usages api params [Client_Auth];
         params = set_serial_number api params [0xC0, 0xFF, 0xEE] in
     and_then (unwrap (generate_for api Pkcs_Ecdsa_P256_Sha256 2)) (\<lambda>key_pair.
     and_then (unwrap (signed_by api params key_pair ca_cert ca_key)) (\<lambda>cert.
     Ok (cert, key_pair))))"

definition create_root_cert_store ::
  "('p, 'k, 'c, 'roots, 'cfg) rcgen_api \<Rightarrow> 'c \<Rightarrow> 'roots outcome" where
  "create_root_cert_store api ca_cert = unwrap (root_store_add api (cert_der api ca_cert))"

record ('k, 'c, 'roots) test_pki =
  pki_roots :: 'roots
  ca_cert :: "'c \<times> 'k"
  client_cert :: "'c \<times> 'k"
  server_cert :: "'c \<times> 'k"

definition test_pki_default ::
  "('p, 'k, 'c, 'roots, 'cfg) rcgen_api \<Rightarrow> ('k, 'c, 'roots) test_pki outcome" where
  "test_pki_default api =
     and_then (create_ca_cert api) (\<lambda>ca.
     and_then (create_server_cert api (fst ca) (snd ca)) (\<lambda>server.
     and_then (create_client_cert api (fst ca) (snd ca)) (\<lambda>client.
     and_then (create_root_cert_store api (fst ca)) (\<lambda>roots.
     Ok \<lparr>pki_roots = roots, ca_cert = ca, client_cert = client, server_cert = server\<rparr>))))"

definition pki_server_config ::
  "('p, 'k, 'c, 'roots, 'cfg) rcgen_api \<Rightarrow> ('k, 'c, 'roots) test_pki \<Rightarrow> 'cfg outcome" where
  "pki_server_config api pki =
     and_then (unwrap (single_cert_config api [cert_der api (fst (server_cert pki))]
                        (key_der api (snd (server_cert pki))))) (\<lambda>cfg.
     Ok (set_key_log_file api cfg))"

text \<open>
  A default test PKI holds a self-signed authority, and server and client certificates signed by
  that authority over their own freshly generated keys, with the authority as only root.
\<close>

lemma test_pki_signed_by_ca:
  assumes "test_pki_default api = Ok pki"
  shows "\<exists>p q r. self_signed api p (snd (ca_cert pki)) = Ok (fst (ca_cert pki)) \<and>
     signed_by api q (snd (server_cert pki)) (fst (ca_cert pki)) (snd (ca_cert pki))
       = Ok (fst (server_cert pki)) \<and>
     signed_by api r (snd (client_cert pki)) (fst (ca_cert pki)) (snd (ca_cert pki))
       = Ok (fst (client_cert pki)) \<and>
     map (generate_for api Pkcs_Ecdsa_P256_Sha256) [0, 1, 2]
       = map Ok [snd (ca_cert pki), snd (server_cert pki), snd (client_cert pki)] \<and>
     root_store_add api (cert_der api (fst (ca_cert pki))) = Ok (pki_roots pki)"
  using assms
  by (auto simp: test_pki_default_def create_ca_cert_def create_server_cert_def
      create_client_cert_def create_root_cert_store_def Let_def try_simps)

section \<open>Writing to a directory\<close>

datatype file_op =
    Create_Dir_All string
  | Write_File string "u8 list"
  | Create_File string
  | Append_File string "u8 list"

text \<open>A computation with file operations: those performed, in order, and the result.\<close>

type_synonym io = "file_op list \<times> unit outcome"

fun io_do :: "(file_op \<Rightarrow> unit outcome) \<Rightarrow> file_op list \<Rightarrow> io" where
  "io_do fs [] = ([], Ok ())"
| "io_do fs (c # cs) =
     (case fs c of
        Ok _ \<Rightarrow> (let (ds, r) = io_do fs cs in (c # ds, r))
      | r \<Rightarrow> ([c], r))"

definition io_then :: "io \<Rightarrow> io \<Rightarrow> io" where
  "io_then a b = (if is_ok (snd a) then (fst a @ fst b, snd b) else a)"

definition path_join :: "string \<Rightarrow> string \<Rightarrow> string" where
  "path_join dir name =
     (if dir = [] \<or> last dir = CHR ''/'' then dir @ name else dir @ ''/'' @ name)"

definition write_cert_and_key ::
  "('p, 'k, 'c, 'roots, 'cfg) rcgen_api \<Rightarrow> (file_op \<Rightarrow> unit outcome)
    \<Rightarrow> string \<Rightarrow> string \<Rightarrow> 'c \<Rightarrow> 'k \<Rightarrow> io" where
  "write_cert_and_key api fs directory prefix cert key =
     io_do fs [Write_File (path_join directory (prefix @ ''.crt'')) (cert_der api cert),
               Write_File (path_join directory (prefix @ ''.key'')) (key_pem api key)]"

definition write_full_chain ::
  "('p, 'k, 'c, 'roots, 'cfg) rcgen_api \<Rightarrow> (file_op \<Rightarrow> unit outcome)
    \<Rightarrow> ('k, 'c, 'roots) test_pki \<Rightarrow> string \<Rightarrow> io" where
  "write_full_chain api fs pki directory =
     (let chain_path = path_join directory ''ca-chain.pem'' in
      io_do fs [Create_File chain_path,
                Append_File chain_path (cert_pem api (fst (ca_cert pki))),
                Append_File chain_path (cert_pem api (fst (server_cert pki))),
                Append_File chain_path (cert_pem api (fst (client_cert pki)))])"

definition write_certs_and_keys ::
  "('p, 'k, 'c, 'roots, 'cfg) rcgen_api \<Rightarrow> (file_op \<Rightarrow> unit outcome)
    \<Rightarrow> ('k, 'c, 'roots) test_pki \<Rightarrow> string \<Rightarrow> io" where
  "write_certs_and_keys api fs pki directory =
     io_then (io_do fs [Create_Dir_All directory])
    (io_then (write_cert_and_key api fs directory ''ca'' (fst (ca_cert pki)) (snd (ca_cert pki)))
    (io_then (write_cert_and_key api fs directory ''server'' (fst (server_cert pki)) (snd (server_cert pki)))
    (io_then (write_cert_and_key api fs directory ''client'' (fst (client_cert pki)) (snd (client_cert pki)))
             (write_full_chain api fs pki directory))))"

lemma io_do_append: "io_do fs (cs @ ds) = io_then (io_do fs cs) (io_do fs ds)"
  by (induction cs) (auto simp: io_then_def Let_def case_prod_unfold split: outcome.splits)

lemma io_do_ok: "snd (io_do fs cs) = Ok () \<longleftrightarrow> (\<forall>c\<in>set cs. is_ok (fs c))"
  by (induction cs) (auto simp: Let_def case_prod_unfold split: outcome.splits)

lemma io_do_all: "snd (io_do fs cs) = Ok () \<Longrightarrow> fst (io_do fs cs) = cs"
  by (induction cs) (auto simp: Let_def case_prod_unfold split: outcome.splits)

lemma io_do_failed:
  "\<not> is_ok (snd (io_do fs cs)) \<Longrightarrow>
     \<exists>us c vs. cs = us @ c # vs \<and> fst (io_do fs cs) = us @ [c] \<and> (\<forall>u\<in>set us. is_ok (fs u))
       \<and> snd (io_do fs cs) = fs c"
proof (induction cs)
  case Nil
  then show ?case by simp
next
  case (Cons d ds)
  show ?case
  proof (cases "is_ok (fs d)")
    case True
    then obtain us c vs where "ds = us @ c # vs" "fst (io_do fs ds) = us @ [c]"
      "\<forall>u\<in>set us. is_ok (fs u)" "snd (io_do fs ds) = fs c"
      using Cons by (auto simp: is_ok_iff Let_def case_prod_unfold)
    with True show ?thesis
      by (intro exI [of _ "d # us"] exI [of _ c] exI [of _ vs])
        (auto simp: is_ok_iff Let_def case_prod_unfold)
  next
    case False
    then show ?thesis
      by (intro exI [of _ "[]"] exI [of _ d] exI [of _ ds]) (auto split: outcome.splits)
  qed
qed

text \<open>All the operations of \<open>write_certs_and_keys\<close>, in order.\<close>

definition pki_files ::
  "('p, 'k, 'c, 'roots, 'cfg) rcgen_api \<Rightarrow> ('k, 'c, 'roots) test_pki \<Rightarrow> string \<Rightarrow> file_op list" where
  "pki_files api pki dir =
     Create_Dir_All dir
     # concat (map (\<lambda>(nm, cert, key).
           [Write_File (path_join dir (nm @ ''.crt'')) (cert_der api cert),
            Write_File (path_join dir (nm @ ''.key'')) (key_pem api key)])
         [(''ca'', ca_cert pki), (''server'', server_cert pki), (''client'', client_cert pki)])
     @ Create_File (path_join dir ''ca-chain.pem'')
     # map (\<lambda>cert. Append_File (path_join dir ''ca-chain.pem'') (cert_pem api (fst cert)))
         [ca_cert pki, server_cert pki, client_cert pki]"

lemma write_certs_and_keys_io:
  "write_certs_and_keys api fs pki dir = io_do fs (pki_files api pki dir)"
  unfolding write_certs_and_keys_def write_cert_and_key_def write_full_chain_def Let_def
    io_do_append [symmetric]
  by (simp add: pki_files_def case_prod_unfold)

end
