(* ===== verification/Tls_Theorems.thy ===== *)
theory Tls_Theorems
  imports Terminator Pki
begin

text \<open>
  The properties of the TLS side: which files make a store, what a finished handshake becomes,
  and what the test PKI writes.
\<close>

section \<open>The store\<close>

text \<open>
  C26. A server's store is built exactly when its three files can be read, the trusted file is
  UTF-8 holding at least one certificate and no malformed one, the key file has a private key of
  an ECDSA type and both verifiers build. The store then has the fixed server name, presents the
  bytes of the certificate file alone as its chain, has resumption disabled as a client, and
  accepts clients without a certificate.
\<close>

theorem store_characterised:
  "store_try_from api fs t = Ok st \<longleftrightarrow>
     (\<exists>sn pem cert key certs k sk sv cv.
        server_name_try_from api default_server_name = Ok sn \<and>
        fs (trusted_certificate_path t) = Ok pem \<and> fs (certificate_path t) = Ok cert \<and>
        fs (certificate_key_path t) = Ok key \<and>
        utf8_valid pem \<and> pem_certs api pem = map Ok certs \<and> certs \<noteq> [] \<and>
        pem_private_key api key = Ok (Some k) \<and> any_ecdsa_type api k = Ok sk \<and>
        build_server_verifier api (add_parsable_certificates api (roots_empty api) certs) = Ok sv \<and>
        build_client_verifier api (add_parsable_certificates api (roots_empty api) certs) True = Ok cv \<and>
        st = \<lparr>store_server_name = sn, server_cert_verifier = sv,
              client_cfg = disable_resumption api
                (client_config api sv \<lparr>ck_chain = [cert], ck_key = sk\<rparr>),
              server_cfg = server_config api cv \<lparr>ck_chain = [cert], ck_key = sk\<rparr>\<rparr>)"
  unfolding store_try_from_def and_then_eq_Ok proxy_tls_certificate_def proxy_tls_certificate_key_def
    proxy_tls_trusted_certificate_def store_new_eq_Ok create_root_store_eq_Ok create_certified_key_eq_Ok
  by fastforce

text \<open>
  Whether TLS is enabled, whether and how deep to verify, session reuse, the protocol
  versions and the ciphers of a TLS section have no influence: the store is the same.
\<close>

theorem store_ignores_settings:
  "store_try_from api fs (t\<lparr>tls_enabled := e, tls_verify := v, tls_verify_depth := d,
      tls_session_reuse := r, tls_protocols := ps, tls_ciphers := cs\<rparr>) = store_try_from api fs t"
  by (rule store_try_from_paths) simp_all

section \<open>The handshake\<close>

text \<open>
  C27. What a handshake becomes, after any number of polls that find it pending: without a server
  name it is established with the client's first certificate and the negotiated protocol; with a
  valid one it passes through with that name alone, whatever certificate the client showed. The
  stream is the handshake's. The only errors are the handshake's own.
\<close>

theorem terminate_characterised:
  "(terminate f accept server io = Some (Ok (k, ts)) \<longleftrightarrow>
      (\<exists>n qs. accept (acceptor server) io = replicate n Pending @ Ready (Ok ts) # qs) \<and>
      (case ts_server_name ts of
         None \<Rightarrow> k = Established
           (case ts_peer_certificates ts of Some (cert # _) \<Rightarrow> Some (ClientId cert) | _ \<Rightarrow> None)
           (map_option NegotiatedProtocol (ts_alpn_protocol ts))
       | Some sni \<Rightarrow> (\<exists>sn. f sni = Ok sn \<and> k = Passthru sn))) \<and>
   (terminate f accept server io = Some (Err e) \<longleftrightarrow>
      (\<exists>n qs. accept (acceptor server) io = replicate n Pending @ Ready (Err e) # qs))"
proof
  have "classify f ts' = Ok (k, ts) \<longleftrightarrow> ts' = ts \<and>
      (case ts_server_name ts of
         None \<Rightarrow> k = Established
           (case ts_peer_certificates ts of Some (cert # _) \<Rightarrow> Some (ClientId cert) | _ \<Rightarrow> None)
           (map_option NegotiatedProtocol (ts_alpn_protocol ts))
       | Some sni \<Rightarrow> (\<exists>sn. f sni = Ok sn \<and> k = Passthru sn))" for ts'
    by (auto simp: classify_def client_identity_def split: option.splits outcome.splits list.splits)
  then show "terminate f accept server io = Some (Ok (k, ts)) \<longleftrightarrow>
      (\<exists>n qs. accept (acceptor server) io = replicate n Pending @ Ready (Ok ts) # qs) \<and>
      (case ts_server_name ts of
         None \<Rightarrow> k = Established
           (case ts_peer_certificates ts of Some (cert # _) \<Rightarrow> Some (ClientId cert) | _ \<Rightarrow> None)
           (map_option NegotiatedProtocol (ts_alpn_protocol ts))
       | Some sni \<Rightarrow> (\<exists>sn. f sni = Ok sn \<and> k = Passthru sn))"
    unfolding await_Some [symmetric] by (auto simp: terminate_await and_then_eq_Ok)
  show "terminate f accept server io = Some (Err e) \<longleftrightarrow>
      (\<exists>n qs. accept (acceptor server) io = replicate n Pending @ Ready (Err e) # qs)"
    unfolding await_Some [symmetric] by (rule rustls_term.term_error)
qed

section \<open>The test PKI\<close>

text \<open>
  C38. Writing the test certificates either performs all its file operations in order, each with
  success, or stops at the first that fails and returns that operation's failure.
\<close>

theorem pki_writes_all_or_stops:
  "(snd (write_certs_and_keys api fs pki dir) = Ok () \<longleftrightarrow>
      list_all (\<lambda>c. is_ok (fs c)) (fst (write_certs_and_keys api fs pki dir)) \<and>
      fst (write_certs_and_keys api fs pki dir) = pki_files api pki dir) \<and>
   (snd (write_certs_and_keys api fs pki dir) = Ok () \<or>
      (\<exists>us c vs. pki_files api pki dir = us @ c # vs \<and> list_all (\<lambda>u. is_ok (fs u)) us \<and>
         fst (write_certs_and_keys api fs pki dir) = us @ [c] \<and>
         snd (write_certs_and_keys api fs pki dir) = fs c))"
proof -
  let ?io = "io_do fs (pki_files api pki dir)"
  have "snd ?io = Ok () \<longleftrightarrow> list_all (\<lambda>c. is_ok (fs c)) (fst ?io) \<and> fst ?io = pki_files api pki dir"
    using io_do_ok [of fs "pki_files api pki dir"] io_do_all [of fs "pki_files api pki dir"]
    by (auto simp: list_all_iff)
  moreover have "is_ok (snd ?io) \<longleftrightarrow> snd ?io = Ok ()"
    by (auto simp: is_ok_iff)
  ultimately show ?thesis
    using io_do_failed [of fs "pki_files api pki dir"] unfolding write_certs_and_keys_io list_all_iff
    by blast
qed

end
