(* ===== verification/Spec2Isabelle.thy ===== *)
theory Spec2Isabelle
  imports Runtime_Theorems Balance_Theorems Tls_Theorems
begin

text \<open>
  Umay is a TLS proxy and load balancer. Its process loads a configuration, builds one proxy per
  stream server and runs each as a service: sockets are accepted, TLS is terminated, a backend is
  chosen and bytes or WebSocket messages are relayed. In the background each proxy's refresh
  task asks a service discovery for the backends. Sources named below are under
  \<open>src/umay/src\<close>.

  \<^bold>\<open>Parts and theories.\<close>

  \<^item> \<open>Prelude\<close>: machine integers as words, results (\<open>outcome\<close>: \<open>Ok\<close>, \<open>Err\<close>,
    \<open>Panic\<close>), the \<open>?\<close> operator as \<open>and_then\<close>, loops with early return, checked
    addition in a debug and a release build, list lemmas on walking round a list.
  \<^item> \<open>Net_Addr\<close>, \<open>Net_Display\<close>, \<open>Net_Roundtrip\<close>: the standard library's addresses,
    their order, parser and printer, and that parsing a printed address gives it back.
  \<^item> \<open>Ordered_Set\<close>: \<open>BTreeSet\<close> as ascending lists, behind the locale \<open>ordered_set\<close>.
  \<^item> \<open>Config\<close>: \<open>app/config.rs\<close>.
  \<^item> \<open>Backend\<close>, \<open>Discovery\<close>, \<open>Selection\<close>, \<open>Selection_Facts\<close>, \<open>Balancer\<close>:
    \<open>balance/mod.rs\<close>, \<open>balance/discovery.rs\<close>, \<open>balance/selection.rs\<close>. The two traits are
    the locales \<open>service_discovery\<close> and \<open>selection_algorithm\<close>, interpreted on each
    implementation and on the trait objects. \<open>Balancer\<close> has the interleaving of refresh ticks
    and picks, as a relation with the history of what \<open>discover\<close> answered (\<open>lb_reach\<close>) and as
    a function of the events (\<open>lb_step\<close>).
  \<^item> \<open>Credentials\<close>, \<open>Terminator\<close>, \<open>Pki\<close>: \<open>tls/credentials.rs\<close>, \<open>tls/mod.rs\<close> with
    \<open>tls/server.rs\<close>, and \<open>tls/pki.rs\<close>. The trait \<open>TlsTerminator\<close> is the locale
    \<open>tls_terminator\<close>.
  \<^item> \<open>Stream_Proxy\<close>, \<open>Proxy_Facts\<close>: \<open>proxy/stream.rs\<close>, one connection from its handshake
    to the end of its session, as a sequential function. \<open>Connection_Tasks\<close>, \<open>Task_Facts\<close>: the
    same connection as the asynchronous task it is, one poll at a time (\<open>task_poll\<close>), the
    invariant every poll keeps, and that a task polled alone computes the function.
  \<^item> \<open>Server\<close>: \<open>app/server.rs\<close>, \<open>app/mod.rs\<close>, \<open>app/metric.rs\<close>. \<open>App\<close>: \<open>main.rs\<close> and
    \<open>app/signal.rs\<close>.
  \<^item> \<open>Server_Runtime\<close>, \<open>Runtime_Facts\<close>: the running process. Its main task, and for each proxy
    the accept loop, the refresh task and the connection tasks on one shared balancer, interleave
    step by step (\<open>svc_step\<close>, \<open>process_step\<close>, \<open>process_reach\<close>). \<open>Service_System\<close> is a coarser
    view of one service in which a connection is served in one step (\<open>service_step\<close>);
    \<open>tower::Service\<close> is the locale \<open>tower_service\<close>.
  \<^item> \<open>Runtime_Theorems\<close>, \<open>Balance_Theorems\<close>, \<open>Proxy_Theorems\<close>, \<open>Tls_Theorems\<close> and the last
    sections of \<open>Config\<close> and \<open>Discovery\<close> state the properties of their parts; this theory
    states those of starting, stopping and configuring. \<open>Samples\<close> and \<open>Sample_Run\<close> hold a
    concrete server and a run of its process, for instances of the theorems.

  \<^bold>\<open>How the code is rendered.\<close> A struct is a record, an enumeration a datatype, \<open>usize\<close> a
  64-bit word. \<open>Arc\<close>, \<open>Box\<close> and clones are the value itself. An \<open>ArcSwap\<close> cell or an atomic
  is its value; each operation on it is one step, so concurrency is an interleaving of steps. An
  asynchronous computation is the list of answers to its polls, and stays pending when they run
  out: TLS handshakes, dials and WebSocket handshakes may take any number of polls or never
  settle. \<open>select!\<close> follows a schedule, and every theorem about it holds for all schedules, or
  says which. \<open>todo!()\<close>, \<open>unwrap\<close> and \<open>expect\<close> are
  \<open>Panic\<close>. Logging is kept where it is the only trace of an error, and left out elsewhere.

  \<^bold>\<open>What is assumed.\<close> Code outside the repository is a parameter: the resolver, \<open>rustls\<close>,
  \<open>rcgen\<close>, the \<open>config\<close> crate, sockets, the file system, the random generator, the hasher. Hypotheses on
  them are named: \<open>rng_ok\<close> (a draw is in its range), \<open>faithful_copy\<close> (\<open>tokio::io::copy\<close>
  writes what it read), \<open>fits_usize\<close> (a set in memory has a size that fits its type).

  \<^bold>\<open>What is shown.\<close> Discovery gives ascending sets of weight 1 backends and local discovery
  refines plain address sets. The algorithms always pick a member of the set; round robin is fair
  up to the wrap of its index, weighted round robin by weight, the counters of least connections
  are exact. Picks come from the latest answer of the discovery under every interleaving, and an
  upstream stays available through failing lookups. In every reachable state of the process a connection has contacted nothing before its
  handshake and only a discovered backend after it, the accept loop and the main task refine their
  sequential versions, finished connections were served as \<open>handle_connection\<close> says, and
  concurrent choices still go round robin. Sessions relay prefixes of what was sent. Services neither
  lose nor repeat connections, and stop for good at the shutdown notice. Startup succeeds exactly under the stated conditions. Several theorems pin down
  behaviour that looks unintended: least connections that never counts, half-closed sessions cut
  short, WebSocket sessions that never end well, settings that are ignored, failures that exit
  with status 0.

  \<^bold>\<open>Bounds.\<close> Loops over data are recursive functions on lists. Loops that may go on forever
  (\<open>service_loop\<close>, \<open>refresh_task\<close>, \<open>proxy_tcp\<close>, \<open>proxy_ws\<close>) consume a list of events,
  ticks or branches of any length and give \<open>None\<close> when it runs out; termination is shown
  where the code terminates (\<open>tcp_session_ends\<close>, \<open>tcp_task_finishes\<close>, which needs a bound on
  the polls of a dial and on the steps of a session). The step
  relations have no bound on their runs; the data of a run are finite at every moment.

  \<^bold>\<open>Not modelled.\<close> The global allocator (\<open>main.rs\<close>), the contents of log lines,
  real time (durations are numbers that are slept), the system's default actions on signals, \<open>tls/client.rs\<close> (a TODO), the integration
  test and the scripts.
\<close>

section \<open>Starting up\<close>

text \<open>
  C8. The server starts exactly when every configured stream server has a TLS section whose store
  can be built, names an upstream of the stream section whose balancer can be built, and uses TCP
  or WebSocket. It then has one proxy per stream server, in the order of the configuration, each
  with its own server settings and a balancer that holds no backends yet.
\<close>

theorem startup_characterised:
  "((\<exists>srv. server_try_from api lib fs c = Ok srv) \<longleftrightarrow>
      list_all (\<lambda>ss. listen_protocol (ss_listen ss) \<in> {Tcp, Ws} \<and>
         (\<exists>t store u lb. ss_tls ss = Some t \<and> store_try_from api fs t = Ok store \<and>
            st_upstreams (the (stream c)) (ss_proxy_pass ss) = Some u \<and>
            initialize_load_balancer lib u = Ok lb))
        (config_servers c)) \<and>
   (server_try_from api lib fs c = Ok srv \<longrightarrow>
      map sp_config (stream_proxies srv) = config_servers c \<and>
      list_all (\<lambda>p. cell (sp_load_balancer p) = []) (stream_proxies srv))"
proof
  show "(\<exists>srv. server_try_from api lib fs c = Ok srv) \<longleftrightarrow>
      list_all (\<lambda>ss. listen_protocol (ss_listen ss) \<in> {Tcp, Ws} \<and>
         (\<exists>t store u lb. ss_tls ss = Some t \<and> store_try_from api fs t = Ok store \<and>
            st_upstreams (the (stream c)) (ss_proxy_pass ss) = Some u \<and>
            initialize_load_balancer lib u = Ok lb))
        (config_servers c)"
  proof (cases "stream c")
    case None
    then show ?thesis by (simp add: server_try_from_map config_servers_def)
  next
    case (Some sc)
    then have "(\<exists>srv. server_try_from api lib fs c = Ok srv) \<longleftrightarrow>
        (\<exists>ps. try_map (build_proxy api lib fs sc) (st_servers sc) = Ok ps)"
      by (auto simp: server_try_from_map and_then_eq_Ok)
    with Some show ?thesis
      unfolding try_map_succeeds
      by (auto simp: config_servers_def build_proxy_eq_Ok list_all_iff)
  qed
  show "server_try_from api lib fs c = Ok srv \<longrightarrow>
      map sp_config (stream_proxies srv) = config_servers c \<and>
      list_all (\<lambda>p. cell (sp_load_balancer p) = []) (stream_proxies srv)"
    using server_try_from_proxies [of api lib fs c srv] by (auto simp: list_all_iff)
qed

theorem startup_characterised_witness:
  "\<exists>srv. server_try_from sample_rustls sample_resolver sample_fs
      (sample_config RoundRobin (sample_server Tcp (Some sample_tls))) = Ok srv"
  by (subst startup_characterised [THEN conjunct1])
    (simp add: config_servers_def sample_config_def sample_server_def sample_store sample_load_balancer)

text \<open>
  C34. Validation accepts configurations that cannot run: a stream server that listens on UDP or HTTP,
  or whose upstream asks for IP hashing, brings the process down with a panic and nothing spawned,
  if everything that is checked before is in order: the servers listed before it can be built, it
  has a TLS section whose store can be built, its upstream exists, and so does the discovery of it.
\<close>

theorem unimplemented_settings_panic:
  assumes "stream c = Some sc" "st_servers sc = pre @ ss # rest"
    and "try_map (build_proxy api lib fs sc) pre = Ok built"
    and "ss_tls ss = Some t" "store_try_from api fs t = Ok store"
    and "st_upstreams sc (ss_proxy_pass ss) = Some u" "create_discovery lib u = Ok d"
    and "listen_protocol (ss_listen ss) \<in> {Udp, Http} \<or> up_load_balancer u = IpHash"
  shows "validate c = Ok () \<and>
    run_server api lib fs watch c =
      \<lparr>effects = [], logged = [], outcome_of = Some (Panic ''not yet implemented'')\<rparr>"
proof -
  have sel: "k \<noteq> IpHash \<Longrightarrow> \<exists>sel. create_selector k = Ok sel" for k
    by (cases k) (simp_all add: create_selector_def)
  have "build_proxy api lib fs sc ss = Panic ''not yet implemented''"
  proof (cases "up_load_balancer u = IpHash")
    case True
    then have "create_selector (up_load_balancer u) = Panic ''not yet implemented''"
      by (simp add: create_selector_def)
    then show ?thesis
      using assms by (simp add: build_proxy_def initialize_tls_server_def stream_upstream_def
          initialize_load_balancer_def Let_def)
  next
    case False
    then obtain s where "create_selector (up_load_balancer u) = Ok s" using sel by blast
    then show ?thesis
      using assms False by (auto simp: build_proxy_def initialize_tls_server_def
          stream_upstream_def initialize_load_balancer_def Let_def)
  qed
  then have "try_map (build_proxy api lib fs sc) (st_servers sc) = Panic ''not yet implemented''"
    unfolding assms(2) by (rule try_map_stops_Panic [OF assms(3)])
  then show ?thesis
    using assms(1,2) by (simp add: run_server_def server_try_from_map validate_def)
qed

theorem unimplemented_settings_panic_witness:
  "outcome_of (run_server sample_rustls sample_resolver sample_fs Unchanged
       (sample_config RoundRobin (sample_server Udp (Some sample_tls))))
     = Some (Panic ''not yet implemented'')"
proof -
  have "create_discovery sample_resolver (sample_upstream RoundRobin)
      = Ok (Local_Discovery (with_backends [socket_new (V4 (Ipv4Addr 10 0 0 1)) 80]))"
    by (simp add: create_discovery_local sample_upstream_def to_socket_addrs_show
        del: show_ip.simps)
  from unimplemented_settings_panic [of "sample_config RoundRobin (sample_server Udp (Some sample_tls))"
      _ "[]" "sample_server Udp (Some sample_tls)" "[]", OF _ _ _ _ sample_store _ this]
  show ?thesis by (simp add: sample_config_def sample_server_def)
qed

text \<open>
  A server that cannot start exits like one that ran: if the first stream server has no TLS
  section, nothing is spawned, one error is logged and the exit status is 0.
\<close>

theorem missing_tls_exits_zero:
  assumes "stream c = Some sc" "st_servers sc = ss # rest" "ss_tls ss = None"
    and "builder (worker_threads c) (worker_threads c) = Ok rt" "init_logger tr ''debug'' = Ok ()"
  shows "umay_main tr (Ok c) builder api lib fs watch =
      \<lparr>effects = [], logged = [Msg ''No TLS configuration found''], outcome_of = Some (Ok ())\<rparr> \<and>
    map_option exit_status (outcome_of (umay_main tr (Ok c) builder api lib fs watch)) = Some 0"
  using assms
  by (simp add: umay_main_def build_runtime_def run_server_def server_try_from_map build_proxy_def)

theorem missing_tls_exits_zero_witness:
  "logged (umay_main sample_tracing (Ok (sample_config RoundRobin (sample_server Tcp None))) (\<lambda>_ _. Ok ())
      sample_rustls sample_resolver sample_fs Unchanged) = [Msg ''No TLS configuration found'']"
  using missing_tls_exits_zero [of "sample_config RoundRobin (sample_server Tcp None)" _
      "sample_server Tcp None" "[]" "\<lambda>_ _. Ok ()" "()" sample_tracing sample_rustls sample_resolver sample_fs Unchanged]
  by (simp add: sample_config_def sample_server_def sample_tracing_def init_logger_def)

text \<open>
  C33. The process, once its logger is installed, returns an error exactly when the configuration
  cannot be loaded or the runtime cannot be built; the number of worker threads is passed to both pools.
\<close>

theorem main_error_characterised:
  "outcome_of (umay_main tr loaded builder api lib fs watch) = Some (Err e) \<longleftrightarrow>
     init_logger tr ''debug'' = Ok () \<and>
     (loaded = Err e \<or>
     (\<exists>c e'. loaded = Ok c \<and> builder (worker_threads c) (worker_threads c) = Err e' \<and>
        e = Context ''Failed to build runtime'' e'))"
proof -
  have "outcome_of (run_server api lib fs watch c) \<noteq> Some (Err e)" for c
    using server_run_not_Err
    by (auto simp: run_server_def case_prod_unfold Let_def split: outcome.splits option.splits)
  then show ?thesis
    by (cases loaded; cases "init_logger tr ''debug''")
      (auto simp: umay_main_def build_runtime_def and_then_eq_Err wrap_err_eq_Err split: outcome.splits)
qed

section \<open>Running and stopping\<close>

text \<open>
  A running server has spawned, in the order of the configuration, the refresh task (every 30
  seconds) and the service of each proxy, and nothing else happens until the shutdown notice; then it sleeps
  for the grace period and the exit timeout together and returns \<open>Ok\<close>.
\<close>

theorem run_spawns_then_waits:
  "\<exists>rest. fst (server_run srv notified) =
      concat (map (\<lambda>p. [Spawn_Refresh (proxy_port p) 30, Spawn_Service (proxy_port p)])
        (stream_proxies srv)) @ rest \<and>
     (snd (server_run srv notified) = Some (Ok ()) \<longleftrightarrow> notified) \<and>
     time_slept (fst (server_run srv notified)) =
       (if notified then unat (shutdown_grace_period_secs (server_config_ref srv))
            + unat (exit_timeout_secs (server_config_ref srv)) else 0) \<and>
     length rest = (if notified then 2 else 0)"
proof -
  have *: "time_slept (concat (map (\<lambda>p. [Spawn_Refresh (proxy_port p) 30, Spawn_Service (proxy_port p)]) ps)
      @ rest) = time_slept rest" for rest and ps :: "('a, 'b, 'c) stream_proxy list"
    by (induction ps) auto
  show ?thesis
    using * [of "stream_proxies srv" "[]"] *
    by (auto simp: server_run_def shutdown_def from_secs_def shutdown_grace_period_def
        exit_timeout_def)
qed

text \<open>
  The shutdown notice comes on SIGTERM, SIGINT or SIGQUIT and on no other signal; and it comes
  at once, without any signal, when one of the three handlers could not be registered.
\<close>

theorem shutdown_notice_characterised:
  "changed_returns (signal_task register received) \<longleftrightarrow>
     (\<exists>s. s \<in> {Sigterm, Sigint, Sigquit} \<inter> set received) \<or>
     (\<exists>s. s \<in> {Sigterm, Sigint, Sigquit} - {s. is_ok (register s)})"
  by (auto simp: signal_task_def changed_returns_def handled_signals_def list_ex_iff)

section \<open>Serving\<close>

text \<open>
  C28. The service loop: of the sockets that arrive before the shutdown notice, exactly the ones
  that were accepted and set up without an error get a task each, in order; every other one is
  logged, the loop outlives all errors, and nothing that arrives after the notice is served.
\<close>

theorem service_loop_spawns_in_order:
  assumes "list_all (\<lambda>i. case i of Some r \<Rightarrow> \<not> is_panic (accepted_socket ops r) | None \<Rightarrow> True) items"
  shows "service_loop ops (map Incoming items @ Shutdown_Notice # later) service_start =
    (Some (Ok ()),
     \<lparr>spawned = concat (map (\<lambda>i. case i of
          Some r \<Rightarrow> (case accepted_socket ops r of Ok s \<Rightarrow> [s] | _ \<Rightarrow> []) | None \<Rightarrow> []) items),
      accept_errors = concat (map (\<lambda>i. case i of
          Some r \<Rightarrow> (case accepted_socket ops r of Err e \<Rightarrow> [e] | _ \<Rightarrow> []) | None \<Rightarrow> []) items),
      empty_polls = count_list items None\<rparr>)"
proof -
  have "service_loop ops (map Incoming items @ Shutdown_Notice # later) st =
    (Some (Ok ()),
     \<lparr>spawned = spawned st @ concat (map (\<lambda>i. case i of
          Some r \<Rightarrow> (case accepted_socket ops r of Ok s \<Rightarrow> [s] | _ \<Rightarrow> []) | None \<Rightarrow> []) items),
      accept_errors = accept_errors st @ concat (map (\<lambda>i. case i of
          Some r \<Rightarrow> (case accepted_socket ops r of Err e \<Rightarrow> [e] | _ \<Rightarrow> []) | None \<Rightarrow> []) items),
      empty_polls = empty_polls st + count_list items None\<rparr>)" for st
    using assms
  proof (induction items arbitrary: st)
    case Nil
    then show ?case by simp
  next
    case (Cons i items)
    then show ?case
      by (cases i) (auto simp: is_panic_iff split: outcome.splits)
  qed
  then show ?thesis by (simp add: service_start_def)
qed

theorem service_loop_spawns_in_order_witness:
  "spawned (snd (service_loop sample_ops (map Incoming [Some (Ok 1), None, Some (Ok 0), Some (Ok 2)]
      @ Shutdown_Notice # [Incoming (Some (Ok 3))]) service_start)) = [1, 2]"
  by (subst service_loop_spawns_in_order) (simp_all add: sample_accepted is_panic_def)

text \<open>
  A run of the sample server's service: it binds, accepts socket 1, the refresh task ticks, and the
  connection is served by the one backend.
\<close>

definition sample_handshake ::
  "(string, unit) tls_server \<Rightarrow> nat \<Rightarrow> (string server_tls \<times> nat tls_stream) outcome option" where
  "sample_handshake server io = Some (Ok (Established None None, sample_stream io))"

abbreviation sample_step ::
  "(nat, string, unit, unit) service_state \<Rightarrow> (nat, string, unit, unit) service_state \<Rightarrow> bool" where
  "sample_step \<equiv> service_step Release sample_listener sample_ops sample_handshake (\<lambda>_. sample_env)"

abbreviation sample_reach :: "(nat, string, unit, unit) service_state \<Rightarrow> bool" where
  "sample_reach \<equiv> service_reach Release sample_listener sample_ops sample_handshake (\<lambda>_. sample_env)
     sample_stream_proxy"

lemma sample_served:
  "\<exists>s. sample_reach s \<and> sv_status s = Listening \<and> sv_accepted s = [1] \<and> sv_waiting s = [] \<and>
     sv_results s = [(1, [Dial (sample_addr 1)], Some (Ok ()))]"
proof -
  let ?p = "sample_stream_proxy"
  let ?d = "Local_Discovery (with_backends [sample_addr 1])"
  let ?lb = "\<lparr>lb_selection = Sel_Round_Robin rr_default,
       lb_backends = \<lparr>bk_discovery = ?d, bk_cell = [sample_backend 1]\<rparr>\<rparr> :: unit load_balancer"
  let ?lb' = "?lb\<lparr>lb_selection := Sel_Round_Robin \<lparr>rr_index = 1\<rparr>\<rparr>"
  have p: "sp_load_balancer ?p = lb_new (backends_new ?d) (Sel_Round_Robin rr_default)"
    "sp_config ?p = sample_server Tcp (Some sample_tls)"
    "proxy_protocol (?p\<lparr>sp_load_balancer := lb\<rparr>) = Tcp" for lb
    by (simp_all add: sample_stream_proxy_def stream_proxy_new_def sample_addr_def proxy_protocol_def
        sample_server_def)
  define s1 :: "(nat, string, unit, unit) service_state"
    where "s1 = (sv_start ?p)\<lparr>sv_status := Listening\<rparr>"
  define s2 where "s2 = s1\<lparr>sv_waiting := [1], sv_accepted := [1]\<rparr>"
  define s3 where "s3 = s2\<lparr>sv_proxy := ?p\<lparr>sp_load_balancer := ?lb\<rparr>, sv_discovered := [[sample_backend 1]]\<rparr>"
  define s4 where "s4 = s3\<lparr>sv_waiting := [], sv_results := [(1, [Dial (sample_addr 1)], Some (Ok ()))],
    sv_proxy := ?p\<lparr>sp_load_balancer := ?lb'\<rparr>\<rparr>"
  have "sample_step (sv_start ?p) s1"
    unfolding s1_def
    by (rule service_step.bind_ok) (simp_all add: sv_start_def bind_listener_def sample_listener_def)
  moreover have "sample_step s1 s2"
    using service_step.accept [of s1 sample_ops "Ok 1" 1 Release sample_listener sample_handshake "\<lambda>_. sample_env"]
    by (simp add: s1_def s2_def sv_start_def sample_accepted)
  moreover have "sample_step s2 s3"
  proof -
    have "discover (\<lambda>_ _. Ok []) (lb_discovery (sp_load_balancer (sv_proxy s2))) = Ok [sample_backend 1]"
      by (simp add: s1_def s2_def sv_start_def p local_discover_def backends_new_def
          with_backends_def sample_backend_def bt_collect_def)
    moreover from this have "refresh (\<lambda>_ _. Ok []) (lb_backends (sp_load_balancer (sv_proxy s2)))
        = (Ok (), lb_backends ?lb)"
      by (simp add: s1_def s2_def sv_start_def p refresh_answered)
    ultimately show ?thesis
      using service_step.tick_ok [of "\<lambda>_ _. Ok []" s2 "[sample_backend 1]" "Ok ()" "lb_backends ?lb" Release sample_listener sample_ops sample_handshake "\<lambda>_. sample_env"]
      by (simp add: s1_def s2_def s3_def sv_start_def p fits_usize_def lb_new_def)
  qed
  moreover have "sample_step s3 s4"
  proof -
    have "sp_call Release sample_handshake sample_env (\<lambda>_. 0) (sv_proxy s3) 1
        = (([Dial (sample_addr 1)], Some (Ok ())), ?p\<lparr>sp_load_balancer := ?lb'\<rparr>)"
      by (simp add: s3_def sp_call_def handle_connection_def sample_handshake_def p lb_select_nonempty
          rr_select_nonempty rr_default_def serve_backend_def note_action_def sample_env_def tcp_start_def)
    then show ?thesis
      using service_step.serve [of s3 "[]" 1 "[]" "\<lambda>_. 0" Release sample_handshake "\<lambda>_. sample_env"
        "([Dial (sample_addr 1)], Some (Ok ()))" "?p\<lparr>sp_load_balancer := ?lb'\<rparr>" sample_listener sample_ops]
      by (simp add: s1_def s2_def s3_def s4_def sv_start_def rng_ok_def)
  qed
  ultimately have "sample_reach s4"
    by (meson service_reach.init service_reach.step)
  then show ?thesis
    by (intro exI [of _ s4]) (simp add: s1_def s2_def s3_def s4_def sv_start_def)
qed

text \<open>
  No connection is lost or served twice: however accepting, serving, refreshing and shutting
  down interleave in a service of a started server, the accepted sockets are, counted with
  multiplicity, those waiting and those served.
\<close>

theorem connections_conserved:
  assumes "server_try_from api lib fs c = Ok srv" "p \<in> set (stream_proxies srv)"
    and "service_reach prof lo ops hs envs p s"
  shows "mset (sv_accepted s) = mset (sv_waiting s) + mset (map fst (sv_results s))"
  using service_reach_invariants(2) [OF assms(3)] server_try_from_proxies(2) [OF assms(1,2)]
  by (simp add: sv_conserved_def)

theorem connections_conserved_witness:
  "\<exists>s. sample_reach s \<and> sv_accepted s = [1] \<and> mset (map fst (sv_results s)) = {#1#}"
proof -
  obtain s where s: "sample_reach s" "sv_accepted s = [1]" "sv_waiting s = []"
    using sample_served by blast
  have "mset (sv_accepted s) = mset (sv_waiting s) + mset (map fst (sv_results s))"
    by (rule connections_conserved [OF sample_started _ s(1)])
      (simp only: umay_server.simps list.set insert_iff simp_thms)
  then have "mset [1] = mset [] + mset (map fst (sv_results s))" unfolding s(2,3) .
  then have "mset (map fst (sv_results s)) = {#1#}" by (simp only: mset.simps add_0)
  with s show ?thesis by (intro exI conjI)
qed

text \<open>
  Safety of a whole service: everything any connection ever did outside was to dial, or to
  accept the client's WebSocket before dialing, a backend that an answer of that proxy's own
  discovery contained; such answers are strictly ascending lists of weight 1 backends.
\<close>

theorem service_contacts_discovered:
  assumes "server_try_from api lib fs c = Ok srv" "p \<in> set (stream_proxies srv)"
    and "service_reach prof lo ops hs envs p s"
    and "(io, actions, res) \<in> set (sv_results s)" "a \<in> set actions"
  shows "\<exists>l bs b. discover l (lb_discovery (sp_load_balancer p)) = Ok bs \<and> b \<in> set bs \<and>
    a \<in> {Dial (addr b), Ws_Accept, Ws_Dial (ws_url (addr b))} \<and>
    sorted_wrt (<) bs \<and> unit_weights bs"
proof -
  have p: "proxy_ok p" "cell (sp_load_balancer p) = []"
    using server_try_from_proxies(2) [OF assms(1,2)] by simp_all
  obtain bs b where b: "bs \<in> set (sv_discovered s)" "b \<in> set bs"
    "a \<in> {Dial (addr b), Ws_Accept, Ws_Dial (ws_url (addr b))}"
    using service_reach_invariants(3) [OF assms(3) p] assms(4,5)
    unfolding contacts_known_def by fastforce
  obtain l where l: "discover l (lb_discovery (sp_load_balancer p)) = Ok bs"
    using service_reach_discovered [OF assms(3) b(1)] by blast
  have "discovery_ok (lb_discovery (sp_load_balancer p))"
    using p(1) by (simp add: proxy_ok_def lb_ok_def)
  then have "bt_ok bs" "unit_weights bs"
    using dyn_disc.discover_ascending l dyn_disc.discover_unit_weights by blast+
  with l b show ?thesis by (auto simp: bt_ok_def)
qed

theorem service_contacts_discovered_witness:
  "\<exists>l bs b. discover l (lb_discovery (sp_load_balancer sample_stream_proxy)) = Ok bs \<and> b \<in> set bs \<and>
    addr b = sample_addr 1"
proof -
  obtain s where s: "sample_reach s" "sv_results s = [(1, [Dial (sample_addr 1)], Some (Ok ()))]"
    using sample_served by blast
  then obtain l bs b where "discover l (lb_discovery (sp_load_balancer sample_stream_proxy)) = Ok bs"
    "b \<in> set bs" "Dial (sample_addr 1) \<in> {Dial (addr b), Ws_Accept, Ws_Dial (ws_url (addr b))}"
    using service_contacts_discovered [OF sample_started _ s(1), of 1 "[Dial (sample_addr 1)]"
        "Some (Ok ())" "Dial (sample_addr 1)"] by auto
  then show ?thesis by (intro exI conjI) auto
qed

text \<open>
  After the shutdown notice a service accepts nothing more and does not start again, however
  long it goes on.
\<close>

theorem nothing_accepted_after_stop:
  assumes "(service_step prof lo ops hs envs)\<^sup>*\<^sup>* s s'" "sv_status s = Stopped"
  shows "sv_status s' = Stopped \<and> sv_accepted s' = sv_accepted s"
  by (rule service_steps_stopped [OF assms])

theorem nothing_accepted_after_stop_witness:
  "\<exists>s s'. sample_step\<^sup>*\<^sup>* s s' \<and> sv_status s = Stopped \<and> sv_waiting s = [1] \<and> sv_accepted s' = [1] \<and>
     sv_waiting s' = []"
proof -
  define s where "s = (sv_start sample_stream_proxy)\<lparr>sv_status := Stopped, sv_waiting := [1 :: nat], sv_accepted := [1]\<rparr>"
  let ?c = "sp_call Release sample_handshake (sample_env :: (nat, unit, unit, unit, nat) proxy_env) (\<lambda>_. 0) (sv_proxy s) 1"
  have "sample_step s (s\<lparr>sv_waiting := [] @ [], sv_results := sv_results s @ [(1, fst ?c)], sv_proxy := snd ?c\<rparr>)"
    by (rule service_step.serve [of _ "[]" 1 "[]" "\<lambda>_. 0"]) (simp_all add: s_def rng_ok_def sv_start_def)
  then have r: "sample_step\<^sup>*\<^sup>* s (s\<lparr>sv_waiting := [] @ [], sv_results := sv_results s @ [(1, fst ?c)], sv_proxy := snd ?c\<rparr>)"
    by (rule r_into_rtranclp)
  have "sv_accepted (s\<lparr>sv_waiting := [] @ [], sv_results := sv_results s @ [(1, fst ?c)], sv_proxy := snd ?c\<rparr>) = [1]"
    using nothing_accepted_after_stop [OF r] by (simp add: s_def)
  with r show ?thesis by (intro exI) (auto simp: s_def)
qed

section \<open>Upstreams\<close>

text \<open>
  C19. A local upstream is served: any algorithm but IP hashing, with servers given by address and
  port, builds a balancer that, whatever ticks and picks have happened, has no backend before the
  first tick and from then on picks one of the configured addresses at every call.
\<close>

theorem local_upstream_served:
  assumes "up_service_discovery u = Local" "up_load_balancer u \<in> - {IpHash}"
    and "up_servers u = map (\<lambda>(ip, p). \<lparr>us_address = show_ip ip, us_port = p\<rparr>) as"
    and "as \<noteq> []" "fits_usize as" "rng_ok draw"
  shows "\<exists>lb. initialize_load_balancer lib u = Ok lb \<and>
    (\<forall>evs. fst (lb_select prof draw key (fold (lb_step prof) evs lb)) \<in>
       (if \<exists>lookup. Tick lookup \<in> set evs
        then (\<lambda>(ip, p). Ok (Some (backend_new (socket_new ip p) 1))) ` set as
        else {Ok None}))"
proof -
  let ?addrs = "map (\<lambda>(ip, p). socket_new ip p) as"
  let ?bs = "local_backends (with_backends ?addrs)"
  have "try_map to_socket_addrs (up_servers u) = Ok ?addrs"
    unfolding assms(3) by (induction as) (auto simp: to_socket_addrs_show)
  then have d: "create_discovery lib u = Ok (Local_Discovery (with_backends ?addrs))"
    using assms(1) by (simp add: create_discovery_local)
  obtain sel where sel: "create_selector (up_load_balancer u) = Ok sel"
    using assms(2) by (cases "up_load_balancer u") (auto simp: create_selector_def)
  let ?lb = "lb_new (backends_new (Local_Discovery (with_backends ?addrs))) sel"
  have set: "set ?bs = (\<lambda>(ip, p). backend_new (socket_new ip p) 1) ` set as"
    by (auto simp: with_backends_def image_image case_prod_unfold)
  have wf: "local_ok (with_backends ?addrs)" by simp
  have fits: "fits_usize ?bs"
  proof -
    have "distinct ?bs" using wf by (auto simp: local_ok_def)
    then have "length ?bs = card (set ?bs)" by (simp add: distinct_card)
    also have "\<dots> \<le> card (set as)" unfolding set by (rule card_image_le) simp
    also have "\<dots> \<le> length as" by (rule card_length)
    finally show ?thesis using assms(5) by (simp add: fits_usize_def)
  qed
  have ne: "?bs \<noteq> []" using set assms(4) by (metis image_is_empty list.set(1) set_empty)
  have served: "fst (lb_select prof draw key (fold (lb_step prof) evs ?lb)) \<in>
     (if \<exists>lookup. Tick lookup \<in> set evs
      then (\<lambda>(ip, p). Ok (Some (backend_new (socket_new ip p) 1))) ` set as else {Ok None})" for evs
  proof -
    let ?lb' = "fold (lb_step prof) evs ?lb"
    have c: "cell ?lb' = (if \<exists>l. Tick l \<in> set evs then ?bs else [])"
      using lb_steps_constant [of ?lb ?bs prof evs] by (simp add: local_discover_def)
    have "lb_ok ?lb'" using create_selector_implemented [OF sel] wf by (intro lb_steps_ok) simp
    show ?thesis
    proof (cases "\<exists>l. Tick l \<in> set evs")
      case True
      then have "\<exists>b\<in>set ?bs. fst (lb_select prof draw key ?lb') = Ok (Some b)"
        using lb_select_some [of ?lb' draw prof key] \<open>lb_ok ?lb'\<close> assms(6) fits ne c by simp
      with True set show ?thesis by force
    next
      case False
      then show ?thesis using c by (simp add: lb_select_empty)
    qed
  qed
  have "initialize_load_balancer lib u = Ok ?lb"
    using d sel by (simp add: initialize_load_balancer_eq_Ok)
  with served show ?thesis by blast
qed

theorem local_upstream_served_witness:
  "\<exists>lb. initialize_load_balancer sample_resolver (sample_upstream RoundRobin) = Ok lb \<and>
    fst (lb_select Debug (\<lambda>_. 0) None (fold (lb_step Debug)
        [Pick (\<lambda>_. 0) None, Tick (\<lambda>_ _. Ok []), Pick (\<lambda>_. 0) None, Pick (\<lambda>_. 0) None] lb))
      = Ok (Some (backend_new (socket_new (V4 (Ipv4Addr 10 0 0 1)) 80) 1))"
proof -
  have u: "up_service_discovery (sample_upstream RoundRobin) = Local"
    "up_load_balancer (sample_upstream RoundRobin) \<in> - {IpHash}"
    "up_servers (sample_upstream RoundRobin) =
       map (\<lambda>(ip, p). \<lparr>us_address = show_ip ip, us_port = p\<rparr>) [(V4 (Ipv4Addr 10 0 0 1), 80)]"
    by (simp_all add: sample_upstream_def)
  have "rng_ok (\<lambda>_. 0)" "fits_usize [(V4 (Ipv4Addr 10 0 0 1), 80 :: u16)]"
    by (simp_all add: rng_ok_def fits_usize_def)
  from local_upstream_served [OF u _ this(2,1), of sample_resolver Debug None]
  obtain lb where lb: "initialize_load_balancer sample_resolver (sample_upstream RoundRobin) = Ok lb"
    and picks: "\<And>evs. fst (lb_select Debug (\<lambda>_. 0) None (fold (lb_step Debug) evs lb)) \<in>
      (if \<exists>lookup. Tick lookup \<in> set evs
       then (\<lambda>(ip, p). Ok (Some (backend_new (socket_new ip p) 1))) ` set [(V4 (Ipv4Addr 10 0 0 1), 80)]
       else {Ok None})"
    by blast
  from picks [of "[Pick (\<lambda>_. 0) None, Tick (\<lambda>_ _. Ok []), Pick (\<lambda>_. 0) None, Pick (\<lambda>_. 0) None]"] lb
  show ?thesis by (simp del: lb_step.simps cong: if_cong)
qed

text \<open>
  A DNS upstream with several servers resolves only the first one, with the resolver of the
  system.
\<close>

theorem dns_upstream_uses_first_server:
  "create_discovery lib (u\<lparr>up_service_discovery := Dns, up_servers := us # rest\<rparr>) =
     and_then (rl_system lib) (\<lambda>r.
       Ok (Dns_Discovery \<lparr>resolver = r, hostname = us_address us, dns_port = us_port us\<rparr>))"
  by (simp add: create_discovery_dns)

section \<open>Addresses of sockets\<close>

text \<open>
  C39. A service binds to its configured port on all IPv4 addresses, and reports the peer of a
  connection in its IPv4 form exactly when it is an IPv4-mapped IPv6 address, with its port.
\<close>

theorem listen_and_peer_addresses:
  "parse_socket_addr (listen_addr port) = Ok (SocketV4 (Ipv4Addr 0 0 0 0) port) \<and>
   ipv4_mapped (SocketV6 (to_ipv6_mapped v4) p fl sc) = SocketV4 v4 p \<and>
   (ipv4_mapped (SocketV6 v6 p fl sc) = SocketV6 v6 p fl sc \<longleftrightarrow> v6 \<notin> range to_ipv6_mapped) \<and>
   ipv4_mapped (ipv4_mapped a) = ipv4_mapped a"
proof (intro conjI)
  have "show_ipv4 (Ipv4Addr 0 0 0 0) = ''0.0.0.0''"
    by code_simp
  then show "parse_socket_addr (listen_addr port) = Ok (SocketV4 (Ipv4Addr 0 0 0 0) port)"
    using parse_socket_v4 [of "Ipv4Addr 0 0 0 0" port] by (simp add: listen_addr_def)
  show "ipv4_mapped (SocketV6 v6 p fl sc) = SocketV6 v6 p fl sc \<longleftrightarrow> v6 \<notin> range to_ipv6_mapped"
    by (auto simp: to_ipv4_mapped_Some split: option.splits)
  show "ipv4_mapped (ipv4_mapped a) = ipv4_mapped a"
    by (cases a) (auto split: option.splits)
qed simp

end
